(* ===== verification/Prelude.thy ===== *)
theory Prelude
  imports Main
begin

text \<open>
  Shared vocabulary of the development: the JavaScript string primitives that
  \<open>src/template-editor.js\<close> and \<open>src/index.js\<close> use (\<open>trim\<close>, \<open>trimStart\<close>,
  \<open>split('\n')\<close>, \<open>join\<close>, \<open>startsWith\<close>, \<open>includes\<close>, \<open>indexOf\<close>,
  \<open>replace\<close> with a string pattern) over Isabelle strings, the character classes
  of the regular expressions (\<open>\s\<close>, \<open>\d\<close>, \<open>\w\<close>), decimal digit strings, and
  the generic lemmas about them that the component theories share.
  Strings are lists of 8-bit characters; the JavaScript whitespace set is modelled
  on its ASCII members (tab, line feed, vertical tab, form feed, carriage return,
  space).
\<close>

named_theorems js_simps \<open>characteristic equations of the modelled JavaScript primitives\<close>

section \<open>Character classes\<close>

definition is_ws :: "char \<Rightarrow> bool" where
  "is_ws c \<longleftrightarrow> c \<in> set [CHR 0x09, CHR 0x0A, CHR 0x0B, CHR 0x0C, CHR 0x0D, CHR 0x20]"

definition is_digit :: "char \<Rightarrow> bool" where
  "is_digit c \<longleftrightarrow> (48::nat) \<le> of_char c \<and> of_char c \<le> (57::nat)"

definition is_ident_start :: "char \<Rightarrow> bool" where
  "is_ident_start c \<longleftrightarrow> ((97::nat) \<le> of_char c \<and> of_char c \<le> (122::nat)) \<or>
     ((65::nat) \<le> of_char c \<and> of_char c \<le> (90::nat)) \<or> c = CHR ''_''"

text \<open>\<open>\w\<close> of a JavaScript regular expression: \<open>[A-Za-z0-9_]\<close>.\<close>

definition is_word :: "char \<Rightarrow> bool" where
  "is_word c \<longleftrightarrow> is_ident_start c \<or> is_digit c"

abbreviation nl :: char where
  "nl \<equiv> CHR 0x0A"

abbreviation dq :: char where
  "dq \<equiv> CHR 0x22"

abbreviation sq :: char where
  "sq \<equiv> CHR 0x27"

abbreviation bsl :: char where
  "bsl \<equiv> CHR 0x5C"

section \<open>String primitives\<close>

text \<open>\<open>String.prototype.trimStart\<close>, \<open>trimEnd\<close> and \<open>trim\<close>.\<close>

definition trim_start :: "string \<Rightarrow> string" where
  "trim_start s = dropWhile is_ws s"

definition trim_end :: "string \<Rightarrow> string" where
  "trim_end s = rev (dropWhile is_ws (rev s))"

definition js_trim :: "string \<Rightarrow> string" where
  "js_trim s = trim_end (trim_start s)"

text \<open>\<open>s.split(c)\<close> for a one-character separator: always at least one piece.\<close>

fun split_on :: "char \<Rightarrow> string \<Rightarrow> string list" where
  "split_on c [] = [[]]"
| "split_on c (x # xs) =
     (if x = c then [] # split_on c xs
      else (case split_on c xs of [] \<Rightarrow> [[x]] | y # ys \<Rightarrow> (x # y) # ys))"

text \<open>\<open>xs.join(sep)\<close> on strings.\<close>

fun join_with :: "string \<Rightarrow> string list \<Rightarrow> string" where
  "join_with sep [] = []"
| "join_with sep [x] = x"
| "join_with sep (x # y # ys) = x @ sep @ join_with sep (y # ys)"

text \<open>\<open>s.startsWith(p)\<close> and \<open>s.includes(p)\<close>.\<close>

definition starts_with :: "string \<Rightarrow> string \<Rightarrow> bool" where
  "starts_with s p \<longleftrightarrow> take (length p) s = p"

fun contains :: "string \<Rightarrow> string \<Rightarrow> bool" where
  "contains [] p \<longleftrightarrow> p = []"
| "contains (x # xs) p \<longleftrightarrow> starts_with (x # xs) p \<or> contains xs p"

text \<open>\<open>s.indexOf(c)\<close> for a character: \<open>None\<close> stands for \<open>-1\<close>.\<close>

fun index_of :: "char \<Rightarrow> string \<Rightarrow> nat option" where
  "index_of c [] = None"
| "index_of c (x # xs) = (if x = c then Some 0 else map_option Suc (index_of c xs))"

text \<open>\<open>s.indexOf(p)\<close> for a string \<open>p\<close>: the leftmost occurrence.\<close>

fun find_sub :: "string \<Rightarrow> string \<Rightarrow> nat option" where
  "find_sub [] p = (if p = [] then Some 0 else None)"
| "find_sub (x # xs) p = (if starts_with (x # xs) p then Some 0 else map_option Suc (find_sub xs p))"

text \<open>
  \<open>s.replace(p, r)\<close> with a string pattern replaces the first occurrence only
  (the replacement strings used by the code contain no \<open>$\<close> patterns).
\<close>

fun replace_first :: "string \<Rightarrow> string \<Rightarrow> string \<Rightarrow> string" where
  "replace_first [] p r = (if p = [] then r else [])"
| "replace_first (x # xs) p r =
     (if starts_with (x # xs) p then r @ drop (length p) (x # xs)
      else x # replace_first xs p r)"

section \<open>Decimal digit strings\<close>

text \<open>The value of a digit string, as \<open>parseInt\<close> reads the characters of \<open>\d+\<close>.\<close>

definition digit_val :: "char \<Rightarrow> nat" where
  "digit_val c = of_char c - of_char CHR ''0''"

definition digits_val :: "string \<Rightarrow> nat" where
  "digits_val s = foldl (\<lambda>n c. 10 * n + digit_val c) 0 s"

definition digit_chars :: string where
  "digit_chars = ''0123456789''"

fun nat_str :: "nat \<Rightarrow> string" where
  "nat_str n = (if n < 10 then [digit_chars ! n] else nat_str (n div 10) @ [digit_chars ! (n mod 10)])"

declare nat_str.simps [simp del]

definition int_str :: "int \<Rightarrow> string" where
  "int_str i = (if i < 0 then CHR ''-'' # nat_str (nat (- i)) else nat_str (nat i))"

definition all_digits :: "string \<Rightarrow> bool" where
  "all_digits s \<longleftrightarrow> s \<noteq> [] \<and> list_all is_digit s"

section \<open>Lemmas on the string primitives\<close>

lemma split_on_not_Nil [simp]: "split_on c s \<noteq> []"
  by (induction s) (auto split: list.split)

lemma join_with_Cons_head: "join_with sep ((x # y) # ys) = x # join_with sep (y # ys)"
  by (cases ys) auto

lemma join_with_Nil_head: "l \<noteq> [] \<Longrightarrow> join_with sep ([] # l) = sep @ join_with sep l"
  by (cases l) auto

lemma join_split_on: "join_with [c] (split_on c s) = s"
proof (induction s)
  case Nil
  then show ?case by simp
next
  case (Cons x xs)
  obtain y ys where yy: "split_on c xs = y # ys"
    by (cases "split_on c xs") auto
  show ?case
    using Cons.IH yy by (auto simp: join_with_Nil_head join_with_Cons_head)
qed

lemma split_on_free: "c \<notin> set x \<Longrightarrow> split_on c x = [x]"
  by (induction x) auto

lemma split_on_append_sep: "c \<notin> set x \<Longrightarrow> split_on c (x @ c # r) = x # split_on c r"
proof (induction x)
  case (Cons a x)
  obtain y ys where "split_on c (x @ c # r) = y # ys" by (cases "split_on c (x @ c # r)") auto
  then show ?case using Cons by auto
qed simp

lemma split_on_join_with: "\<forall>l \<in> set ls. c \<notin> set l \<Longrightarrow> ls \<noteq> [] \<Longrightarrow> split_on c (join_with [c] ls) = ls"
  by (induction "[c]" ls rule: join_with.induct) (auto simp: split_on_free split_on_append_sep)

lemma js_trim_indent:
  assumes "\<forall>w \<in> set ind. is_ws w" and "x = a # y" and "\<not> is_ws a" and "\<not> is_ws (last x)"
  shows "js_trim (ind @ x) = x"
proof -
  have "trim_start (ind @ x) = x"
    using assms by (simp add: trim_start_def dropWhile_append2)
  moreover have "trim_end x = x"
    using assms(2,4) by (cases y rule: rev_cases) (auto simp: trim_end_def)
  ultimately show ?thesis by (simp add: js_trim_def)
qed

lemma split_on_pieces: "p \<in> set (split_on c s) \<Longrightarrow> c \<notin> set p"
  by (induction s arbitrary: p) (auto split: if_splits list.splits)

lemma starts_with_append [simp]: "starts_with (p @ v) p"
  by (simp add: starts_with_def)

lemma starts_with_iff: "starts_with s p \<longleftrightarrow> (\<exists>v. s = p @ v)"
  by (auto simp: starts_with_def) (metis append_take_drop_id)

lemma contains_iff: "contains s p \<longleftrightarrow> (\<exists>u v. s = u @ p @ v)"
proof (induction s)
  case Nil
  then show ?case by auto
next
  case (Cons x xs)
  show ?case
  proof
    assume "contains (x # xs) p"
    then consider "starts_with (x # xs) p" | "contains xs p" by auto
    then show "\<exists>u v. x # xs = u @ p @ v"
    proof cases
      case 1
      then obtain v where "x # xs = p @ v" by (auto simp: starts_with_iff)
      then have "x # xs = [] @ p @ v" by simp
      then show ?thesis by blast
    next
      case 2
      with Cons.IH obtain u v where "xs = u @ p @ v" by blast
      then have "x # xs = (x # u) @ p @ v" by simp
      then show ?thesis by blast
    qed
  next
    assume "\<exists>u v. x # xs = u @ p @ v"
    then obtain u v where uv: "x # xs = u @ p @ v" by blast
    show "contains (x # xs) p"
    proof (cases u)
      case Nil
      with uv have "starts_with (x # xs) p" by (simp add: starts_with_iff)
      then show ?thesis by simp
    next
      case (Cons a u')
      with uv Cons.IH show ?thesis by auto
    qed
  qed
qed

lemma find_sub_Some: "find_sub s p = Some j \<Longrightarrow> j \<le> length s \<and> starts_with (drop j s) p"
  by (induction s arbitrary: j) (auto simp: starts_with_def split: if_splits)

lemma find_sub_least: "find_sub s p = Some j \<Longrightarrow> i < j \<Longrightarrow> \<not> starts_with (drop i s) p"
proof (induction s arbitrary: i j)
  case Nil
  then show ?case by (auto split: if_splits)
next
  case (Cons x xs)
  then show ?case by (cases i) (auto split: if_splits)
qed

lemma find_sub_None: "find_sub s p = None \<longleftrightarrow> \<not> contains s p"
  by (induction s) (auto simp: starts_with_def)

lemma replace_first_absent: "\<not> contains s p \<Longrightarrow> replace_first s p r = s"
  by (induction s) auto

lemma digit_chars_nth: "d < 10 \<Longrightarrow> digit_val (digit_chars ! d) = d \<and> is_digit (digit_chars ! d)"
  by (auto simp: less_Suc_eq numeral_eq_Suc digit_chars_def digit_val_def is_digit_def)

lemma digits_val_snoc: "digits_val (s @ [c]) = 10 * digits_val s + digit_val c"
  by (simp add: digits_val_def)

lemma digits_val_nat_str: "digits_val (nat_str n) = n \<and> all_digits (nat_str n)"
proof (induction n rule: nat_str.induct)
  case (1 n)
  show ?case
  proof (cases "n < 10")
    case True
    then show ?thesis
      using digit_chars_nth [of n] by (simp add: nat_str.simps digits_val_def all_digits_def)
  next
    case False
    then have "digits_val (nat_str (n div 10)) = n div 10 \<and> all_digits (nat_str (n div 10))"
      using "1.IH" by simp
    then show ?thesis
      using False digit_chars_nth [of "n mod 10"]
      by (simp add: nat_str.simps [of n] digits_val_snoc all_digits_def)
  qed
qed

lemma dropWhile_idem [simp]: "dropWhile P (dropWhile P xs) = dropWhile P xs"
  by (induction xs) auto

lemma set_js_trim: "set (js_trim s) \<subseteq> set s"
  by (auto simp: js_trim_def trim_start_def trim_end_def dest!: set_dropWhileD)

lemma js_trim_idem: "js_trim (js_trim s) = js_trim s"
proof -
  let ?t = "dropWhile is_ws s"
  have h: "?t = [] \<or> \<not> is_ws (hd ?t)"
    by (metis hd_dropWhile)
  have "dropWhile is_ws (rev (dropWhile is_ws (rev ?t))) = rev (dropWhile is_ws (rev ?t))"
  proof (cases "rev (dropWhile is_ws (rev ?t)) = []")
    case True
    show ?thesis by (simp only: True dropWhile.simps(1))
  next
    case False
    then have "?t \<noteq> []" by (metis rev.simps(1) dropWhile.simps(1))
    then obtain a u where "?t = a # u" by (cases ?t) auto
    with h have "\<not> is_ws a" by simp
    then have "rev (dropWhile is_ws (rev ?t)) = a # rev (dropWhile is_ws (rev u))"
      using \<open>?t = a # u\<close> by (simp add: dropWhile_append)
    then show ?thesis using \<open>\<not> is_ws a\<close> by simp
  qed
  then show ?thesis
    by (simp add: js_trim_def trim_start_def trim_end_def)
qed


lemma index_of_Some: "index_of c s = Some k \<Longrightarrow> k < length s \<and> s ! k = c \<and> c \<notin> set (take k s)"
  by (induction s arbitrary: k) (auto split: if_splits)

lemma index_of_append_notin: "c \<notin> set u \<Longrightarrow> index_of c (u @ c # v) = Some (length u)"
  by (induction u) auto

lemma find_sub_bound: "find_sub s p = Some j \<Longrightarrow> j + length p \<le> length s"
proof -
  assume h: "find_sub s p = Some j"
  then have "j \<le> length s" and "starts_with (drop j s) p" using find_sub_Some by blast+
  then show ?thesis by (auto simp: starts_with_def dest: arg_cong [of _ _ length])
qed

lemma starts_with_drop: "starts_with s p \<Longrightarrow> p @ drop (length p) s = s"
  by (metis append_take_drop_id starts_with_def)

lemma replace_first_find:
  "find_sub s p = Some k \<Longrightarrow> replace_first s p r = take k s @ r @ drop (k + length p) s"
  by (induction s arbitrary: k) (auto split: if_splits)

lemma foldl_fixed: "(\<And>x. x \<in> set xs \<Longrightarrow> f a x = a) \<Longrightarrow> foldl f a xs = a"
  by (induction xs) auto

end
