(* ===== verification/JsValue.thy ===== *)
theory JsValue
  imports Prelude
begin

text \<open>
  The values that the template engine of \<open>src/template-editor.js\<close> handles: what
  \<open>JSON.parse\<close>, \<open>parseInt\<close>/\<open>parseFloat\<close> and the YAML scanner produce, the
  variable objects built by \<open>Object.assign\<close> and keyed assignment, the conversions
  \<open>String(v)\<close>, \<open>Array.prototype.join\<close> and \<open>JSON.stringify\<close> used by
  \<open>TemplateProcessor.replaceVars\<close>, and property lookup \<open>vars[name]\<close> with the
  inherited members of \<open>Object.prototype\<close> and \<open>Array.prototype\<close>.

  A JavaScript number is kept as an exact decimal \<open>JNum m e\<close>, the value
  \<open>m * 10 ^ e\<close>, normalised so that \<open>m\<close> has no trailing zero (\<open>norm_num\<close>);
  the rounding of IEEE doubles beyond 15 significant digits is not modelled.
  An object is an association list in insertion order with distinct keys
  (the reordering of integer-like keys by the engine and the \<open>__proto__\<close>
  setter are not modelled).
\<close>

section \<open>Values\<close>

datatype jval =
    JNull
  | JBool bool
  | JNum int int
  | JStr string
  | JArr "jval list"
  | JObj "(string \<times> jval) list"

type_synonym jobj = "(string \<times> jval) list"

subsection \<open>Numbers\<close>

function norm_num :: "int \<Rightarrow> int \<Rightarrow> int \<times> int" where
  "norm_num m e =
     (if m = 0 then (0, 0)
      else if m mod 10 = 0 then norm_num (m div 10) (e + 1)
      else (m, e))"
  by pat_completeness auto
termination
proof (relation "measure (\<lambda>(m, e). nat \<bar>m\<bar>)")
  show "wf (measure (\<lambda>(m, e). nat \<bar>m\<bar>))" by simp
next
  fix m e :: int
  assume "m \<noteq> 0" and "m mod 10 = 0"
  then have "\<bar>m div 10\<bar> < \<bar>m\<bar>" by (auto simp: abs_if)
  then show "((m div 10, e + 1), m, e) \<in> measure (\<lambda>(m, e). nat \<bar>m\<bar>)" by simp
qed

declare norm_num.simps [simp del]

definition mk_num :: "int \<Rightarrow> int \<Rightarrow> jval" where
  "mk_num m e = (case norm_num m e of (m', e') \<Rightarrow> JNum m' e')"

text \<open>
  \<open>Number::toString\<close> of ECMA-262 (7.1.12.1) for the decimal \<open>m * 10 ^ e\<close>:
  \<open>d\<close> are the digits of \<open>|m|\<close>, \<open>k\<close> their count and \<open>n = k + e\<close> the position
  of the decimal point.
\<close>

definition num_str :: "int \<Rightarrow> int \<Rightarrow> string" where
  "num_str m e =
     (if m = 0 then ''0'' else
      let sgn = (if m < 0 then ''-'' else []);
          d = nat_str (nat \<bar>m\<bar>);
          k = int (length d);
          n = k + e
      in sgn @
        (if k \<le> n \<and> n \<le> 21 then d @ replicate (nat (n - k)) CHR ''0''
         else if 0 < n \<and> n \<le> 21 then take (nat n) d @ ''.'' @ drop (nat n) d
         else if -6 < n \<and> n \<le> 0 then ''0.'' @ replicate (nat (- n)) CHR ''0'' @ d
         else
           let x = n - 1;
               ex = (if x < 0 then ''-'' else ''+'') @ nat_str (nat \<bar>x\<bar>)
           in (if k = 1 then d else take 1 d @ ''.'' @ drop 1 d) @ ''e'' @ ex))"

subsection \<open>Conversions\<close>

text \<open>
  \<open>String(v)\<close>; an array converts through \<open>join(',')\<close>, in which \<open>null\<close>
  elements become the empty string.
\<close>

fun js_string :: "jval \<Rightarrow> string" where
  "js_string JNull = ''null''"
| "js_string (JBool b) = (if b then ''true'' else ''false'')"
| "js_string (JNum m e) = num_str m e"
| "js_string (JStr s) = s"
| "js_string (JArr xs) = join_with '','' (map (\<lambda>v. if v = JNull then [] else js_string v) xs)"
| "js_string (JObj kvs) = ''[object Object]''"

text \<open>An element of \<open>Array.prototype.join\<close>.\<close>

definition join_elem :: "jval \<Rightarrow> string" where
  "join_elem v = (if v = JNull then [] else js_string v)"

definition hex_digit :: "nat \<Rightarrow> char" where
  "hex_digit n = ''0123456789abcdef'' ! n"

text \<open>\<open>QuoteJSONString\<close> of ECMA-262 (25.5.2.3), on 8-bit characters.\<close>

definition json_escape_char :: "char \<Rightarrow> string" where
  "json_escape_char c =
     (if c = dq then [bsl, dq]
      else if c = bsl then [bsl, bsl]
      else if c = CHR 0x08 then [bsl, CHR ''b'']
      else if c = CHR 0x0C then [bsl, CHR ''f'']
      else if c = nl then [bsl, CHR ''n'']
      else if c = CHR 0x0D then [bsl, CHR ''r'']
      else if c = CHR 0x09 then [bsl, CHR ''t'']
      else if of_char c < (32::nat)
        then [bsl, CHR ''u'', CHR ''0'', CHR ''0'', hex_digit (of_char c div 16), hex_digit (of_char c mod 16)]
      else [c])"

definition json_quote :: "string \<Rightarrow> string" where
  "json_quote s = dq # concat (map json_escape_char s) @ [dq]"

fun json_stringify :: "jval \<Rightarrow> string" where
  "json_stringify JNull = ''null''"
| "json_stringify (JBool b) = (if b then ''true'' else ''false'')"
| "json_stringify (JNum m e) = num_str m e"
| "json_stringify (JStr s) = json_quote s"
| "json_stringify (JArr xs) = ''['' @ join_with '','' (map json_stringify xs) @ '']''"
| "json_stringify (JObj kvs) =
     ''{'' @ join_with '','' (map (\<lambda>kv. json_quote (fst kv) @ '':'' @ json_stringify (snd kv)) kvs) @ ''}''"

subsection \<open>Objects\<close>

text \<open>\<open>o[k] = v\<close>: overwrite in place, or append a new key.\<close>

fun obj_set :: "jobj \<Rightarrow> string \<Rightarrow> jval \<Rightarrow> jobj" where
  "obj_set [] k v = [(k, v)]"
| "obj_set ((k', v') # kvs) k v = (if k' = k then (k, v) # kvs else (k', v') # obj_set kvs k v)"

text \<open>\<open>Object.assign(target, source)\<close> for the own enumerable entries of the source.\<close>

definition obj_assign :: "jobj \<Rightarrow> jobj \<Rightarrow> jobj" where
  "obj_assign target src = foldl (\<lambda>acc kv. obj_set acc (fst kv) (snd kv)) target src"

definition index_keys :: "nat \<Rightarrow> string list" where
  "index_keys n = map nat_str [0..<n]"

text \<open>
  Own enumerable entries (\<open>Object.entries\<close>): those of an object, the indices of an
  array or of a string, none of a primitive.
\<close>

definition own_entries :: "jval \<Rightarrow> jobj" where
  "own_entries v =
     (case v of
        JObj kvs \<Rightarrow> kvs
      | JArr xs \<Rightarrow> zip (index_keys (length xs)) xs
      | JStr s \<Rightarrow> zip (index_keys (length s)) (map (\<lambda>c. JStr [c]) s)
      | _ \<Rightarrow> [])"

text \<open>\<open>Object.keys(v).length\<close>.\<close>

definition key_count :: "jval \<Rightarrow> nat" where
  "key_count v = length (own_entries v)"

text \<open>JavaScript truthiness (no \<open>NaN\<close> arises from the parsers).\<close>

fun truthy :: "jval \<Rightarrow> bool" where
  "truthy JNull = False"
| "truthy (JBool b) = b"
| "truthy (JNum m e) = (m \<noteq> 0)"
| "truthy (JStr s) = (s \<noteq> [])"
| "truthy (JArr xs) = True"
| "truthy (JObj kvs) = True"

text \<open>
  The result of an extraction, \<open>vars && Object.keys(vars).length ? vars : null\<close>
  and its kin: a value counts as found when it is truthy and has an own key.
\<close>

definition nonempty :: "jval \<Rightarrow> bool" where
  "nonempty v \<longleftrightarrow> truthy v \<and> 0 < key_count v"

subsection \<open>Property lookup\<close>

text \<open>
  \<open>vars[name]\<close> on an object or an array: an own property, an inherited built-in
  function (whose \<open>String\<close> is \<open>function NAME() { [native code] }\<close>), or
  \<open>undefined\<close>.
\<close>

datatype jprop = Own jval | Builtin string | Absent

definition object_proto_methods :: "string list" where
  "object_proto_methods =
     [''hasOwnProperty'', ''isPrototypeOf'', ''propertyIsEnumerable'', ''toLocaleString'',
      ''toString'', ''valueOf'', ''__defineGetter__'', ''__defineSetter__'',
      ''__lookupGetter__'', ''__lookupSetter__'']"

definition array_proto_methods :: "string list" where
  "array_proto_methods =
     [''at'', ''concat'', ''copyWithin'', ''entries'', ''every'', ''fill'', ''filter'', ''find'',
      ''findIndex'', ''findLast'', ''findLastIndex'', ''flat'', ''flatMap'', ''forEach'',
      ''includes'', ''indexOf'', ''join'', ''keys'', ''lastIndexOf'', ''map'', ''pop'', ''push'',
      ''reduce'', ''reduceRight'', ''reverse'', ''shift'', ''slice'', ''some'', ''sort'',
      ''splice'', ''toReversed'', ''toSorted'', ''toSpliced'', ''unshift'', ''values'', ''with'']"

definition inherited :: "bool \<Rightarrow> string \<Rightarrow> jprop" where
  "inherited is_arr k =
     (if k = ''constructor'' then Builtin (if is_arr then ''Array'' else ''Object'')
      else if is_arr \<and> k \<in> set array_proto_methods then Builtin k
      else if k \<in> set object_proto_methods then Builtin k
      else Absent)"

definition array_index :: "string \<Rightarrow> nat \<Rightarrow> nat option" where
  "array_index k n = (if all_digits k \<and> nat_str (digits_val k) = k \<and> digits_val k < n then Some (digits_val k) else None)"

definition js_get :: "jval \<Rightarrow> string \<Rightarrow> jprop" where
  "js_get obj k =
     (case obj of
        JObj kvs \<Rightarrow> (case map_of kvs k of Some v \<Rightarrow> Own v | None \<Rightarrow> inherited False k)
      | JArr xs \<Rightarrow>
          (case array_index k (length xs) of
             Some i \<Rightarrow> Own (xs ! i)
           | None \<Rightarrow> if k = ''length'' then Own (mk_num (int (length xs)) 0) else inherited True k)
      | _ \<Rightarrow> Absent)"

text \<open>
  The conversion of \<open>replaceVars\<close> (\<open>src/template-editor.js\<close> 800--810):
  \<open>null\<close>/\<open>undefined\<close> to the empty string, an array through \<open>join(', ')\<close>,
  another object through \<open>JSON.stringify\<close>, anything else through \<open>String\<close>.
\<close>

definition render_prop :: "jprop \<Rightarrow> string" where
  "render_prop p =
     (case p of
        Absent \<Rightarrow> []
      | Builtin f \<Rightarrow> ''function '' @ f @ ''() { [native code] }''
      | Own JNull \<Rightarrow> []
      | Own (JArr xs) \<Rightarrow> join_with '', '' (map join_elem xs)
      | Own (JObj kvs) \<Rightarrow> json_stringify (JObj kvs)
      | Own v \<Rightarrow> js_string v)"

subsection \<open>Identity\<close>

text \<open>
  \<open>a !== b\<close> between a value already recorded and a freshly extracted one: every
  extraction pass allocates new arrays and objects, so two compound values are never
  identical; primitives compare by value (numbers are normalised, so by their
  representation).
\<close>

definition same_value_fresh :: "jval \<Rightarrow> jval \<Rightarrow> bool" where
  "same_value_fresh a b \<longleftrightarrow> (case a of JArr _ \<Rightarrow> False | JObj _ \<Rightarrow> False | _ \<Rightarrow> a = b)"

subsection \<open>Well-formed values\<close>

text \<open>A value a JavaScript engine can hold: an object has each key once, and a number is
  in the normal form \<open>mk_num\<close> gives.\<close>

fun wf_jval :: "jval \<Rightarrow> bool" where
  "wf_jval (JObj kvs) \<longleftrightarrow> distinct (map fst kvs) \<and> list_all (\<lambda>kv. wf_jval (snd kv)) kvs"
| "wf_jval (JArr xs) \<longleftrightarrow> list_all wf_jval xs"
| "wf_jval (JNum m e) \<longleftrightarrow> norm_num m e = (m, e)"
| "wf_jval _ \<longleftrightarrow> True"

section \<open>Lemmas\<close>

lemma norm_num_canonical: "norm_num (fst (norm_num m e)) (snd (norm_num m e)) = norm_num m e"
proof (induction m e rule: norm_num.induct)
  case (1 m e)
  show ?case
  proof (cases "m = 0")
    case True
    then show ?thesis by (simp add: norm_num.simps)
  next
    case False
    show ?thesis
    proof (cases "m mod 10 = 0")
      case True
      with False "1.IH" show ?thesis by (simp add: norm_num.simps [of m e])
    next
      case F2: False
      with False show ?thesis by (simp add: norm_num.simps [of m e])
    qed
  qed
qed

lemma map_of_obj_set [simp]: "map_of (obj_set kvs k v) = (map_of kvs)(k \<mapsto> v)"
  by (induction kvs) (auto simp: fun_eq_iff)

lemma obj_set_keys:
  "map fst (obj_set kvs k v) = (if k \<in> set (map fst kvs) then map fst kvs else map fst kvs @ [k])"
  by (induction kvs) force+

lemma distinct_obj_set: "distinct (map fst kvs) \<Longrightarrow> distinct (map fst (obj_set kvs k v))"
  by (simp add: obj_set_keys)

lemma map_of_obj_assign: "map_of (obj_assign t src) = map_of t ++ map_of (rev src)"
proof (induction src arbitrary: t)
  case Nil
  then show ?case by (simp add: obj_assign_def)
next
  case (Cons kv src)
  have "obj_assign t (kv # src) = obj_assign (obj_set t (fst kv) (snd kv)) src"
    by (simp add: obj_assign_def)
  then show ?case
    using Cons.IH by (simp add: map_add_upd_left map_add_assoc [symmetric]) (simp add: fun_eq_iff map_add_def split: option.split)
qed

lemma obj_assign_keys_prefix: "\<exists>ks. map fst (obj_assign t src) = map fst t @ ks"
proof (induction src arbitrary: t)
  case Nil
  then show ?case by (simp add: obj_assign_def)
next
  case (Cons kv src)
  obtain ks where "map fst (obj_assign (obj_set t (fst kv) (snd kv)) src) = map fst (obj_set t (fst kv) (snd kv)) @ ks"
    using Cons.IH by blast
  then show ?case
    by (auto simp: obj_assign_def obj_set_keys split: if_splits)
qed

lemma distinct_obj_assign: "distinct (map fst t) \<Longrightarrow> distinct (map fst (obj_assign t src))"
  by (induction src arbitrary: t) (simp_all add: obj_assign_def distinct_obj_set)

lemma set_obj_set: "set (obj_set kvs k v) \<subseteq> insert (k, v) (set kvs)"
  by (induction kvs k v rule: obj_set.induct) auto

lemma wf_obj_set:
  "distinct (map fst acc) \<Longrightarrow> list_all (\<lambda>kv. wf_jval (snd kv)) acc \<Longrightarrow> wf_jval v \<Longrightarrow>
   distinct (map fst (obj_set acc k v)) \<and> list_all (\<lambda>kv. wf_jval (snd kv)) (obj_set acc k v)"
  using set_obj_set [of acc k v] by (auto simp: distinct_obj_set list_all_iff)

lemma wf_mk_num [simp]: "wf_jval (mk_num m e)"
  using norm_num_canonical [of m e] by (cases "norm_num m e") (simp add: mk_num_def)

end
