(* ===== verification/Json.thy ===== *)
theory Json
  imports JsValue
begin

text \<open>
  \<open>JSON.parse\<close>, the platform parser that \<open>TemplateProcessor.parseJsonDirect\<close>,
  \<open>parsePartialJsonDirect\<close> (\<open>src/template-editor.js\<close>) and
  \<open>executeSlashCommand\<close> (\<open>src/index.js\<close>) call and whose exceptions they catch.
  It follows the JSON grammar of ECMA-262 (25.5.1) and RFC 8259: whitespace is space,
  tab, line feed and carriage return; numbers have no leading zeros, an optional
  fraction and exponent; strings admit the escapes \<open>\" \\ \/ \b \f \n \r \t \uXXXX\<close>
  and no raw control characters; a repeated object key keeps its first position and
  its last value. A \<open>\uXXXX\<close> escape is stored as the UTF-8 bytes of the code
  unit (surrogate halves are encoded one by one). The parser carries fuel; every call
  either consumes input or passes to a call that does, so fuel
  \<open>2 * length s + 2\<close> is enough (\<open>parse_value_fuel\<close>) and \<open>JSON_parse\<close> uses it.
\<close>

definition json_ws_char :: "char \<Rightarrow> bool" where
  "json_ws_char c \<longleftrightarrow> c \<in> set [CHR 0x20, CHR 0x09, CHR 0x0A, CHR 0x0D]"

definition jws :: "string \<Rightarrow> string" where
  "jws s = dropWhile json_ws_char s"

definition is_hex :: "char \<Rightarrow> bool" where
  "is_hex c \<longleftrightarrow> is_digit c \<or> ((97::nat) \<le> of_char c \<and> of_char c \<le> (102::nat)) \<or>
                 ((65::nat) \<le> of_char c \<and> of_char c \<le> (70::nat))"

definition hex_val :: "char \<Rightarrow> nat" where
  "hex_val c = (if is_digit c then digit_val c
                else if (97::nat) \<le> of_char c then of_char c - 87 else of_char c - 55)"

definition hex4_val :: "string \<Rightarrow> nat" where
  "hex4_val s = foldl (\<lambda>n c. 16 * n + hex_val c) 0 s"

text \<open>UTF-8 bytes of a code unit below \<open>0x10000\<close>.\<close>

definition utf8_unit :: "nat \<Rightarrow> string" where
  "utf8_unit n =
     (if n < 128 then [char_of n]
      else if n < 2048 then [char_of (192 + n div 64), char_of (128 + n mod 64)]
      else [char_of (224 + n div 4096), char_of (128 + (n div 64) mod 64), char_of (128 + n mod 64)])"

definition escape_char :: "char \<Rightarrow> char option" where
  "escape_char e =
     (if e = dq then Some dq else if e = bsl then Some bsl else if e = CHR ''/'' then Some (CHR ''/'')
      else if e = CHR ''b'' then Some (CHR 0x08) else if e = CHR ''f'' then Some (CHR 0x0C)
      else if e = CHR ''n'' then Some nl else if e = CHR ''r'' then Some (CHR 0x0D)
      else if e = CHR ''t'' then Some (CHR 0x09) else None)"

text \<open>The body of a string literal after its opening quote: the text and the rest.\<close>

function parse_str :: "string \<Rightarrow> (string \<times> string) option" where
  "parse_str [] = None"
| "parse_str (c # r) =
     (if c = dq then Some ([], r)
      else if c = bsl then
        (case r of
           [] \<Rightarrow> None
         | e # r' \<Rightarrow>
             (case escape_char e of
                Some x \<Rightarrow> map_option (\<lambda>(t, rest). (x # t, rest)) (parse_str r')
              | None \<Rightarrow>
                  if e = CHR ''u'' \<and> 4 \<le> length r' \<and> list_all is_hex (take 4 r')
                  then map_option (\<lambda>(t, rest). (utf8_unit (hex4_val (take 4 r')) @ t, rest)) (parse_str (drop 4 r'))
                  else None))
      else if of_char c < (32::nat) then None
      else map_option (\<lambda>(t, rest). (c # t, rest)) (parse_str r))"
  by pat_completeness auto
termination
  by (relation "measure length") auto

text \<open>\<open>-?(0|[1-9][0-9]*)(\.[0-9]+)?([eE][+-]?[0-9]+)?\<close> at the head of the input.\<close>

definition parse_digits :: "string \<Rightarrow> string \<times> string" where
  "parse_digits s = (takeWhile is_digit s, dropWhile is_digit s)"

definition num_sign :: "string \<Rightarrow> bool \<times> string" where
  "num_sign s = (case s of c # r \<Rightarrow> if c = CHR ''-'' then (True, r) else (False, s) | [] \<Rightarrow> (False, s))"

text \<open>The fraction: \<open>None\<close> when there is no point, \<open>Some []\<close> for a point without digits.\<close>

definition num_frac :: "string \<Rightarrow> string option \<times> string" where
  "num_frac s = (case s of c # r \<Rightarrow> if c = CHR ''.'' then (Some (fst (parse_digits r)), snd (parse_digits r)) else (None, s)
                          | [] \<Rightarrow> (None, s))"

text \<open>The exponent: \<open>Some 0\<close> when there is none, \<open>None\<close> for an \<open>e\<close> without digits.\<close>

definition num_exp :: "string \<Rightarrow> int option \<times> string" where
  "num_exp s =
     (case s of
        c # r \<Rightarrow>
          if c = CHR ''e'' \<or> c = CHR ''E'' then
            (let (eneg, r1) = (case r of
                                 d # r' \<Rightarrow> if d = CHR ''-'' then (True, r') else if d = CHR ''+'' then (False, r') else (False, r)
                               | [] \<Rightarrow> (False, r));
                 (ed, r2) = parse_digits r1
             in if ed = [] then (None, r2)
                else (Some (if eneg then - int (digits_val ed) else int (digits_val ed)), r2))
          else (Some 0, s)
      | [] \<Rightarrow> (Some 0, s))"

definition parse_number :: "string \<Rightarrow> (jval \<times> string) option" where
  "parse_number s =
     (let (neg, s1) = num_sign s;
          (ip, s2) = parse_digits s1
      in if ip = [] \<or> (hd ip = CHR ''0'' \<and> 1 < length ip) then None else
      let (fr, s3) = num_frac s2
      in if fr = Some [] then None else
      let fd = (case fr of None \<Rightarrow> [] | Some d \<Rightarrow> d);
          (ex, s4) = num_exp s3
      in case ex of
           None \<Rightarrow> None
         | Some e \<Rightarrow>
             let m = int (digits_val (ip @ fd))
             in Some (mk_num (if neg then - m else m) (e - int (length fd)), s4))"

fun parse_value :: "nat \<Rightarrow> string \<Rightarrow> (jval \<times> string) option"
and parse_elems :: "nat \<Rightarrow> jval list \<Rightarrow> string \<Rightarrow> (jval \<times> string) option"
and parse_members :: "nat \<Rightarrow> jobj \<Rightarrow> string \<Rightarrow> (jval \<times> string) option" where
  "parse_value 0 s = None"
| "parse_value (Suc f) s =
     (case jws s of
        [] \<Rightarrow> None
      | c # r \<Rightarrow>
          if c = CHR ''{'' then
            (case jws r of
               d # r' \<Rightarrow> if d = CHR ''}'' then Some (JObj [], r') else parse_members f [] r
             | [] \<Rightarrow> None)
          else if c = CHR ''['' then
            (case jws r of
               d # r' \<Rightarrow> if d = CHR '']'' then Some (JArr [], r') else parse_elems f [] r
             | [] \<Rightarrow> None)
          else if c = dq then map_option (\<lambda>(t, rest). (JStr t, rest)) (parse_str r)
          else if c = CHR ''t'' then (if take 3 r = ''rue'' then Some (JBool True, drop 3 r) else None)
          else if c = CHR ''f'' then (if take 4 r = ''alse'' then Some (JBool False, drop 4 r) else None)
          else if c = CHR ''n'' then (if take 3 r = ''ull'' then Some (JNull, drop 3 r) else None)
          else parse_number (c # r))"
| "parse_elems 0 acc s = None"
| "parse_elems (Suc f) acc s =
     (case parse_value f s of
        None \<Rightarrow> None
      | Some (v, r) \<Rightarrow>
          (case jws r of
             d # r' \<Rightarrow>
               if d = CHR '','' then parse_elems f (acc @ [v]) r'
               else if d = CHR '']'' then Some (JArr (acc @ [v]), r')
               else None
           | [] \<Rightarrow> None))"
| "parse_members 0 acc s = None"
| "parse_members (Suc f) acc s =
     (case jws s of
        q # r \<Rightarrow>
          if q \<noteq> dq then None else
          (case parse_str r of
             None \<Rightarrow> None
           | Some (k, r1) \<Rightarrow>
               (case jws r1 of
                  d # r2 \<Rightarrow>
                    if d \<noteq> CHR '':'' then None else
                    (case parse_value f r2 of
                       None \<Rightarrow> None
                     | Some (v, r3) \<Rightarrow>
                         (case jws r3 of
                            e # r4 \<Rightarrow>
                              if e = CHR '','' then parse_members f (obj_set acc k v) r4
                              else if e = CHR ''}'' then Some (JObj (obj_set acc k v), r4)
                              else None
                          | [] \<Rightarrow> None))
                | [] \<Rightarrow> None))
      | [] \<Rightarrow> None)"

text \<open>\<open>JSON.parse(text)\<close>: a value and nothing but whitespace after it; \<open>None\<close> is a \<open>SyntaxError\<close>.\<close>

definition JSON_parse :: "string \<Rightarrow> jval option" where
  "JSON_parse s =
     (case parse_value (2 * length s + 2) s of
        Some (v, r) \<Rightarrow> if jws r = [] then Some v else None
      | None \<Rightarrow> None)"

text \<open>The last character of a JSON value is neither a comma nor whitespace
  (\<open>JSON_parse_value_end\<close>); \<open>ends_before s r\<close> says that \<open>s\<close> is some text ending in
  such a character followed by \<open>r\<close>.\<close>



definition value_end :: "char \<Rightarrow> bool" where
  "value_end c \<longleftrightarrow> c \<noteq> CHR '','' \<and> \<not> is_ws c"

definition ends_before :: "string \<Rightarrow> string \<Rightarrow> bool" where
  "ends_before s r \<longleftrightarrow> (\<exists>p c. s = p @ c # r \<and> value_end c)"

definition num_prefix :: "string \<Rightarrow> string \<Rightarrow> bool" where
  "num_prefix s r \<longleftrightarrow> (\<exists>p. s = p @ r \<and> (\<forall>c \<in> set p. value_end c))"

section \<open>Lemmas\<close>

lemma jws_length: "length (jws s) \<le> length s"
  by (simp add: jws_def length_dropWhile_le)

lemma jws_Cons_length: "jws s = c # r \<Longrightarrow> length r < length s"
  using jws_length [of s] by simp

lemma parse_str_length: "parse_str s = Some (t, r) \<Longrightarrow> length r < length s"
  by (induction s arbitrary: t rule: parse_str.induct)
     (fastforce split: if_splits option.splits list.splits)+

lemma parse_digits_length: "parse_digits s = (d, r) \<Longrightarrow> length d + length r = length s"
  by (auto simp: parse_digits_def) (metis length_append takeWhile_dropWhile_id)

lemma num_sign_length: "num_sign s = (n, r) \<Longrightarrow> length r \<le> length s"
  by (auto simp: num_sign_def split: list.splits if_splits)

lemma num_frac_length: "num_frac s = (n, r) \<Longrightarrow> length r \<le> length s"
  by (auto simp: num_frac_def parse_digits_def length_dropWhile_le le_SucI split: list.splits if_splits)

lemma parse_digits_le: "parse_digits s = (d, r) \<Longrightarrow> length r \<le> length s"
  using parse_digits_length by fastforce

lemma num_exp_length: "num_exp s = (n, r) \<Longrightarrow> length r \<le> length s"
  by (auto simp: num_exp_def Let_def split: list.splits if_splits prod.splits dest!: parse_digits_le)

lemma parse_number_length: "parse_number s = Some (v, r) \<Longrightarrow> length r < length s"
  by (auto simp: parse_number_def Let_def split: if_splits prod.splits option.splits
        dest!: num_sign_length num_frac_length num_exp_length parse_digits_length)
    (auto simp: neq_Nil_conv)

lemma parse_consumes:
  shows "parse_value f s = Some (v, r) \<Longrightarrow> length r < length s"
    and "parse_elems f acc s = Some (v, r) \<Longrightarrow> length r < length s"
    and "parse_members f kvs s = Some (v, r) \<Longrightarrow> length r < length s"
proof (induction f s and f acc s and f kvs s arbitrary: v r and v r and v r
    rule: parse_value_parse_elems_parse_members.induct)
  case (2 f s)
  then obtain c t where s: "jws s = c # t" by (auto split: list.splits)
  have t: "length t < length s" using jws_Cons_length [OF s] .
  show ?case
  proof -
    consider (obj) "c = CHR ''{''" | (arr) "c = CHR ''[''" | (str) "c = dq"
      | (lit) "c \<noteq> CHR ''{''" "c \<noteq> CHR ''[''" "c \<noteq> dq" by blast
    then show ?thesis
    proof cases
      case obj
      then show ?thesis using 2(1) [OF s] 2(3) s t
        by (fastforce split: list.splits if_splits dest: jws_Cons_length)
    next
      case arr
      then show ?thesis using 2(2) [OF s] 2(3) s t
        by (fastforce split: list.splits if_splits dest: jws_Cons_length)
    next
      case str
      then show ?thesis using 2(3) s t by (auto dest!: parse_str_length)
    next
      case lit
      then show ?thesis using 2(3) s t jws_length [of s]
        by (auto split: if_splits dest!: parse_number_length)
    qed
  qed
next
  case (4 f acc s)
  then show ?case
    by (fastforce split: option.splits list.splits if_splits dest: jws_Cons_length)
next
  case (6 f kvs s)
  then show ?case
    by (fastforce split: option.splits list.splits if_splits dest: jws_Cons_length parse_str_length)
qed simp_all

lemma parse_fuel_step_all:
  "\<forall>s acc kvs. (2 * length s + 1 < f \<longrightarrow> parse_value (Suc f) s = parse_value f s) \<and>
     (2 * length s + 2 < f \<longrightarrow> parse_elems (Suc f) acc s = parse_elems f acc s) \<and>
     (2 * length s + 1 < f \<longrightarrow> parse_members (Suc f) kvs s = parse_members f kvs s)"
proof (induction f)
  case 0
  show ?case by simp
next
  case (Suc f)
  have IHv: "parse_value (Suc f) s = parse_value f s" if "2 * length s + 1 < f" for s
    using Suc.IH that by blast
  have IHe: "parse_elems (Suc f) acc s = parse_elems f acc s" if "2 * length s + 2 < f" for acc s
    using Suc.IH that by blast
  have IHm: "parse_members (Suc f) kvs s = parse_members f kvs s" if "2 * length s + 1 < f" for kvs s
    using Suc.IH that by blast
  have V: "parse_value (Suc (Suc f)) s = parse_value (Suc f) s" if a: "2 * length s + 1 < Suc f" for s
  proof (cases "jws s")
    case Nil
    then show ?thesis by simp
  next
    case (Cons c t)
    have "length t < length s" using jws_Cons_length [OF Cons] .
    then have l: "2 * length t + 2 < f" using a by linarith
    have m: "parse_members (Suc f) [] t = parse_members f [] t" using l by (intro IHm) linarith
    have e: "parse_elems (Suc f) [] t = parse_elems f [] t" using l by (rule IHe)
    show ?thesis by (simp only: parse_value.simps(2) Cons list.case m e)
  qed
  have E: "parse_elems (Suc (Suc f)) acc s = parse_elems (Suc f) acc s" if a: "2 * length s + 2 < Suc f" for acc s
  proof -
    have v: "parse_value (Suc f) s = parse_value f s" using a by (intro IHv) linarith
    show ?thesis
    proof (cases "parse_value f s")
      case None
      then show ?thesis by (simp only: parse_elems.simps(2) v option.case)
    next
      case (Some p)
      obtain w r where p: "p = (w, r)" by (cases p)
      have r: "length r < length s" using parse_consumes(1) Some p by simp
      show ?thesis
      proof (cases "jws r")
        case Nil
        then show ?thesis by (simp only: parse_elems.simps(2) v Some p option.case prod.case list.case)
      next
        case (Cons d r')
        have "length r' < length r" using jws_Cons_length [OF Cons] .
        then have "2 * length r' + 2 < f" using a r by linarith
        then have e: "parse_elems (Suc f) (acc @ [w]) r' = parse_elems f (acc @ [w]) r'"
          by (rule IHe)
        show ?thesis
          by (simp only: parse_elems.simps(2) [of "Suc f" acc s] parse_elems.simps(2) [of f acc s]
              v Some p option.case prod.case list.case Cons e)
      qed
    qed
  qed
  have M: "parse_members (Suc (Suc f)) kvs s = parse_members (Suc f) kvs s" if a: "2 * length s + 1 < Suc f" for kvs s
  proof (cases "jws s")
    case Nil
    then show ?thesis by (simp only: parse_members.simps(2) list.case)
  next
    case (Cons q r)
    note s = Cons
    show ?thesis
    proof (cases "parse_str r")
      case None
      then show ?thesis by (simp only: parse_members.simps(2) s list.case option.case)
    next
      case (Some kr)
      obtain k r1 where k: "parse_str r = Some (k, r1)" using Some by (cases kr) simp
      show ?thesis
      proof (cases "jws r1")
        case Nil
        then show ?thesis by (simp only: parse_members.simps(2) s k list.case option.case prod.case)
      next
        case (Cons d r2)
        note r2 = Cons
        have l2: "length r2 < length s"
          using jws_Cons_length [OF s] parse_str_length [OF k] jws_Cons_length [OF r2] by simp
        then have "2 * length r2 + 1 < f" using a by linarith
        then have v: "parse_value (Suc f) r2 = parse_value f r2" by (rule IHv)
        show ?thesis
        proof (cases "parse_value f r2")
          case None
          then show ?thesis by (simp only: parse_members.simps(2) s k r2 v list.case option.case prod.case)
        next
          case (Some wr)
          obtain w r3 where w: "parse_value f r2 = Some (w, r3)" using Some by (cases wr) simp
          show ?thesis
          proof (cases "jws r3")
            case Nil
            then show ?thesis by (simp only: parse_members.simps(2) s k r2 v w list.case option.case prod.case)
          next
            case (Cons e r4)
            have "2 * length r4 + 1 < f"
              using parse_consumes(1) [OF w] jws_Cons_length [OF Cons] l2 a by linarith
            then have m: "parse_members (Suc f) (obj_set kvs k w) r4 = parse_members f (obj_set kvs k w) r4"
              by (rule IHm)
            show ?thesis
              by (simp only: parse_members.simps(2) [of "Suc f" kvs s] parse_members.simps(2) [of f kvs s]
                  s k r2 v w Cons m list.case option.case prod.case)
          qed
        qed
      qed
    qed
  qed
  show ?case using V E M by blast
qed

lemma parse_value_fuel:
  "2 * length s + 1 < f \<Longrightarrow> parse_value (f + n) s = parse_value f s"
proof (induction n)
  case 0
  show ?case by simp
next
  case (Suc n)
  have "2 * length s + 1 < f + n" using Suc.prems by linarith
  then have "parse_value (Suc (f + n)) s = parse_value (f + n) s"
    using parse_fuel_step_all [of "f + n"] by blast
  then show ?case using Suc by (simp only: add_Suc_right)
qed

lemma num_prefix_refl [simp]: "num_prefix s s"
  unfolding num_prefix_def by (metis append_Nil empty_iff list.set(1))

lemma num_prefix_trans: "num_prefix s r \<Longrightarrow> num_prefix r u \<Longrightarrow> num_prefix s u"
  unfolding num_prefix_def by (metis Un_iff append.assoc set_append)

lemma dropWhile_prefix: "(\<And>c. P c \<Longrightarrow> value_end c) \<Longrightarrow> num_prefix s (dropWhile P s)"
proof -
  assume P: "\<And>c. P c \<Longrightarrow> value_end c"
  have "s = takeWhile P s @ dropWhile P s" by simp
  moreover have "\<forall>c \<in> set (takeWhile P s). value_end c" using P by (auto dest: set_takeWhileD)
  ultimately show ?thesis unfolding num_prefix_def by blast
qed

lemma parse_str_Cons_Some:
  assumes "parse_str (c # r0) = Some (t, r)"
  shows "(c = dq \<and> r = r0) \<or>
         (\<exists>e r' x t'. c = bsl \<and> r0 = e # r' \<and> escape_char e = Some x \<and> parse_str r' = Some (t', r)) \<or>
         (\<exists>r' t'. c = bsl \<and> r0 = CHR ''u'' # r' \<and> 4 \<le> length r' \<and> list_all is_hex (take 4 r') \<and>
            parse_str (drop 4 r') = Some (t', r)) \<or>
         (\<exists>t'. c \<noteq> dq \<and> c \<noteq> bsl \<and> parse_str r0 = Some (t', r))"
  using assms by (auto split: if_splits list.splits option.splits)

lemma parse_str_ends: "parse_str s = Some (t, r) \<Longrightarrow> \<exists>p. s = p @ dq # r"
proof (induction "length s" arbitrary: s t rule: less_induct)
  case less
  then obtain c r0 where s: "s = c # r0" by (cases s) auto
  have IH: "\<exists>p. u = p @ dq # r" if "length u < length s" "parse_str u = Some (t', r)" for u t'
    using less.hyps that by blast
  from parse_str_Cons_Some [OF less.prems [unfolded s]] show ?case
  proof (elim disjE exE conjE)
    assume "c = dq" "r = r0"
    then show ?thesis using s by (intro exI [of _ "[]"]) simp
  next
    fix e r' x t'
    assume a: "c = bsl" "r0 = e # r'" "escape_char e = Some x" "parse_str r' = Some (t', r)"
    obtain p where "r' = p @ dq # r" using IH [of r' t'] a s by auto
    then show ?thesis using a s by (intro exI [of _ "c # e # p"]) simp
  next
    fix r' t'
    assume a: "c = bsl" "r0 = CHR ''u'' # r'" "4 \<le> length r'" "list_all is_hex (take 4 r')"
      "parse_str (drop 4 r') = Some (t', r)"
    have "length (drop 4 r') < length s" using a s by simp
    then obtain p where "drop 4 r' = p @ dq # r" using IH [of "drop 4 r'" t'] a by blast
    then have "r' = take 4 r' @ p @ dq # r" by (metis append_take_drop_id)
    then show ?thesis using a s by (intro exI [of _ "c # CHR ''u'' # take 4 r' @ p"]) simp
  next
    fix t'
    assume a: "c \<noteq> dq" "c \<noteq> bsl" "parse_str r0 = Some (t', r)"
    obtain p where "r0 = p @ dq # r" using IH [of r0 t'] a s by auto
    then show ?thesis using s by (intro exI [of _ "c # p"]) simp
  qed
qed

lemma ends_before_suffix: "ends_before t r \<Longrightarrow> ends_before (q @ t) r"
  unfolding ends_before_def by (metis append.assoc)

lemma ends_before_intro: "value_end c \<Longrightarrow> ends_before (q @ c # r) r"
  unfolding ends_before_def by blast

lemma ends_before_cf:
  assumes "num_prefix s r" and "length r < length s"
  shows "ends_before s r"
proof -
  obtain p where s: "s = p @ r" and p: "\<forall>c \<in> set p. value_end c"
    using assms(1) unfolding num_prefix_def by blast
  have ne: "p \<noteq> []" using assms(2) s by auto
  have "s = butlast p @ last p # r" using s ne by simp
  moreover have "value_end (last p)" using last_in_set [OF ne] p by blast
  ultimately show ?thesis unfolding ends_before_def by blast
qed

lemma jws_split: "\<exists>w. s = w @ jws s"
  unfolding jws_def by (metis takeWhile_dropWhile_id)

lemma num_sign_cf: "num_sign s = (n, r) \<Longrightarrow> num_prefix s r"
  unfolding num_sign_def num_prefix_def
  by (cases s) (auto simp: value_end_def is_ws_def split: if_splits intro: exI [of _ "[CHR ''-'']"])

lemma is_digit_value_end: "is_digit c \<Longrightarrow> value_end c"
  by (auto simp: is_digit_def value_end_def is_ws_def)

lemma parse_digits_cf: "parse_digits s = (d, r) \<Longrightarrow> num_prefix s r"
  unfolding parse_digits_def using dropWhile_prefix [of is_digit s] is_digit_value_end by auto

lemma cf_Cons: "value_end c \<Longrightarrow> num_prefix t r \<Longrightarrow> num_prefix (c # t) r"
  unfolding num_prefix_def by (metis append_Cons set_ConsD)

lemma num_frac_cf: "num_frac s = (n, r) \<Longrightarrow> num_prefix s r"
proof (cases s)
  case (Cons c t)
  assume a: "num_frac s = (n, r)"
  have "num_prefix t (snd (parse_digits t))"
    using parse_digits_cf [of t "fst (parse_digits t)"] by simp
  then show ?thesis using a Cons by (auto simp: num_frac_def value_end_def is_ws_def split: if_splits intro: cf_Cons)
qed (simp add: num_frac_def)

lemma num_exp_cf: "num_exp s = (n, r) \<Longrightarrow> num_prefix s r"
  unfolding num_exp_def
  by (auto simp: Let_def value_end_def is_ws_def split: list.splits if_splits prod.splits
      intro!: cf_Cons dest!: parse_digits_cf)

lemma parse_number_ends: "parse_number s = Some (v, r) \<Longrightarrow> ends_before s r"
proof -
  assume a: "parse_number s = Some (v, r)"
  obtain neg s1 where n: "num_sign s = (neg, s1)" by (cases "num_sign s")
  obtain ip s2 where d: "parse_digits s1 = (ip, s2)" by (cases "parse_digits s1")
  obtain fr s3 where f: "num_frac s2 = (fr, s3)" by (cases "num_frac s2")
  obtain ex s4 where e: "num_exp s3 = (ex, s4)" by (cases "num_exp s3")
  have r: "r = s4" using a n d f e by (simp add: parse_number_def Let_def split: if_splits option.splits)
  have "num_prefix s r"
    using num_sign_cf [OF n] parse_digits_cf [OF d] num_frac_cf [OF f] num_exp_cf [OF e] r
    by (blast intro: num_prefix_trans)
  then show ?thesis using ends_before_cf parse_number_length [OF a] by blast
qed

lemma ends_before_split: "ends_before s r \<Longrightarrow> \<exists>q. s = q @ r"
  unfolding ends_before_def by auto

lemma ends_before_after: "ends_before s r0 \<Longrightarrow> r0 = w @ r' \<Longrightarrow> ends_before r' r \<Longrightarrow> ends_before s r"
  by (metis ends_before_split ends_before_suffix append.assoc)

lemma jws_Cons_split: "jws s = c # t \<Longrightarrow> \<exists>w. s = w @ c # t"
  using jws_split [of s] by auto

lemma literal_ends: "take n t = p \<Longrightarrow> p \<noteq> [] \<Longrightarrow> value_end (last p) \<Longrightarrow> length p = n \<Longrightarrow> ends_before t (drop n t)"
proof -
  assume a: "take n t = p" "p \<noteq> []" "value_end (last p)" "length p = n"
  have "t = butlast p @ last p # drop n t" using a by (metis append_butlast_last_id append_take_drop_id append.assoc append_Cons append_Nil)
  then show ?thesis using a(3) by (metis ends_before_intro)
qed

lemma parse_value_ends_step:
  assumes IHm: "\<forall>kvs t v r. parse_members f kvs t = Some (v, r) \<longrightarrow> ends_before t r"
    and IHe: "\<forall>acc t v r. parse_elems f acc t = Some (v, r) \<longrightarrow> ends_before t r"
    and p: "parse_value (Suc f) s = Some (v, r)"
  shows "ends_before s r"
proof -
  obtain c t where j: "jws s = c # t" using p by (cases "jws s") auto
  obtain w where s: "s = w @ c # t" using jws_Cons_split [OF j] by blast
  have "ends_before t r \<or> ends_before (c # t) r"
  proof (cases "c = CHR ''{'' \<or> c = CHR ''[''")
    case True
    then obtain d r' where jt: "jws t = d # r'" using p j by (auto split: list.splits)
    obtain w2 where t: "t = w2 @ d # r'" using jws_Cons_split [OF jt] by blast
    show ?thesis
    proof (cases "d = CHR ''}'' \<and> c = CHR ''{'' \<or> d = CHR '']'' \<and> c = CHR ''[''")
      case True
      then have "r = r'" using p j jt by auto
      then show ?thesis using True t ends_before_intro by (auto simp: value_end_def is_ws_def)
    next
      case False
      then have "parse_members f [] t = Some (v, r) \<or> parse_elems f [] t = Some (v, r)"
        using p j jt \<open>c = CHR ''{'' \<or> c = CHR ''[''\<close> by (auto split: if_splits)
      then show ?thesis using IHm IHe by blast
    qed
  next
    case nb: False
    show ?thesis
    proof (cases "c = dq")
      case True
      then obtain x where "parse_str t = Some (x, r)" using p j by auto
      then obtain q where "t = q @ dq # r" using parse_str_ends by blast
      then show ?thesis by (simp add: ends_before_intro value_end_def is_ws_def)
    next
      case nq: False
      show ?thesis
      proof (cases "c = CHR ''t'' \<or> c = CHR ''f'' \<or> c = CHR ''n''")
        case True
        then consider "take 3 t = ''rue''" "r = drop 3 t" | "take 4 t = ''alse''" "r = drop 4 t"
          | "take 3 t = ''ull''" "r = drop 3 t"
          using p j nb nq by (auto split: if_splits)
        then show ?thesis by cases (auto simp: value_end_def is_ws_def intro: literal_ends)
      next
        case False
        then have "parse_number (c # t) = Some (v, r)" using p j nb nq by auto
        then show ?thesis using parse_number_ends by blast
      qed
    qed
  qed
  then show ?thesis using s by (metis ends_before_suffix append.assoc append_Cons append_Nil)
qed

lemma parse_elems_ends_step:
  assumes IHv: "\<forall>t v r. parse_value f t = Some (v, r) \<longrightarrow> ends_before t r"
    and IHe: "\<forall>acc t v r. parse_elems f acc t = Some (v, r) \<longrightarrow> ends_before t r"
    and p: "parse_elems (Suc f) acc s = Some (v, r)"
  shows "ends_before s r"
proof -
  obtain x r0 where v: "parse_value f s = Some (x, r0)" using p by (auto split: option.splits)
  have s: "ends_before s r0" using IHv v by blast
  obtain d r' where j: "jws r0 = d # r'" using p v by (auto split: list.splits)
  obtain w where r0: "r0 = w @ d # r'" using jws_Cons_split [OF j] by blast
  show ?thesis
  proof (cases "d = CHR '',''")
    case True
    then have "parse_elems f (acc @ [x]) r' = Some (v, r)" using p v j by simp
    then have "ends_before r' r" using IHe by blast
    then show ?thesis using ends_before_after [OF s, of "w @ [d]" r'] r0 by simp
  next
    case False
    then have "d = CHR '']''" "r = r'" using p v j by (auto split: if_splits)
    then show ?thesis using ends_before_after [OF s, of "[]" r0] r0 ends_before_intro
      by (auto simp: value_end_def is_ws_def)
  qed
qed

lemma parse_members_ends_step:
  assumes IHv: "\<forall>t v r. parse_value f t = Some (v, r) \<longrightarrow> ends_before t r"
    and IHm: "\<forall>kvs t v r. parse_members f kvs t = Some (v, r) \<longrightarrow> ends_before t r"
    and p: "parse_members (Suc f) kvs s = Some (v, r)"
  shows "ends_before s r"
proof -
  obtain q r1 where j: "jws s = q # r1" and q: "q = dq" using p by (auto split: list.splits if_splits)
  obtain k r2 where k: "parse_str r1 = Some (k, r2)" using p j q by (auto split: option.splits)
  obtain d r3 where j2: "jws r2 = d # r3" and d: "d = CHR '':''" using p j q k by (auto split: list.splits if_splits)
  obtain x r4 where v: "parse_value f r3 = Some (x, r4)" using p j q k j2 d by (auto split: option.splits)
  have s: "ends_before s r4"
  proof -
    obtain w where "s = w @ q # r1" using jws_Cons_split [OF j] by blast
    moreover obtain u where "r1 = u @ dq # r2" using parse_str_ends [OF k] by blast
    moreover obtain w2 where "r2 = w2 @ d # r3" using jws_Cons_split [OF j2] by blast
    ultimately have "s = (w @ q # u @ dq # w2 @ [d]) @ r3" by simp
    then show ?thesis using IHv v ends_before_suffix by metis
  qed
  obtain e r5 where j3: "jws r4 = e # r5" using p j q k j2 d v by (auto split: list.splits)
  obtain w3 where r4: "r4 = w3 @ e # r5" using jws_Cons_split [OF j3] by blast
  show ?thesis
  proof (cases "e = CHR '',''")
    case True
    then have "parse_members f (obj_set kvs k x) r5 = Some (v, r)" using p j q k j2 d v j3 by simp
    then have "ends_before r5 r" using IHm by blast
    then show ?thesis using ends_before_after [OF s, of "w3 @ [e]" r5] r4 by simp
  next
    case False
    then have "e = CHR ''}''" "r = r5" using p j q k j2 d v j3 by (auto split: if_splits)
    then show ?thesis using ends_before_after [OF s, of "[]" r4] r4 ends_before_intro
      by (auto simp: value_end_def is_ws_def)
  qed
qed

lemma parse_ends:
  "\<forall>s acc kvs v r. (parse_value f s = Some (v, r) \<longrightarrow> ends_before s r) \<and>
     (parse_elems f acc s = Some (v, r) \<longrightarrow> ends_before s r) \<and>
     (parse_members f kvs s = Some (v, r) \<longrightarrow> ends_before s r)"
proof (induction f)
  case 0
  show ?case by simp
next
  case (Suc f)
  have IHv: "\<forall>t v r. parse_value f t = Some (v, r) \<longrightarrow> ends_before t r" using Suc.IH by blast
  have IHe: "\<forall>acc t v r. parse_elems f acc t = Some (v, r) \<longrightarrow> ends_before t r" using Suc.IH by blast
  have IHm: "\<forall>kvs t v r. parse_members f kvs t = Some (v, r) \<longrightarrow> ends_before t r" using Suc.IH by blast
  show ?case
    using parse_value_ends_step [OF IHm IHe] parse_elems_ends_step [OF IHv IHe]
      parse_members_ends_step [OF IHv IHm] by blast
qed


lemma JSON_parse_value_end:
  assumes "JSON_parse s = Some v"
  shows "trim_end s \<noteq> [] \<and> value_end (last (trim_end s))"
proof -
  obtain r where p: "parse_value (2 * length s + 2) s = Some (v, r)" and r: "jws r = []"
    using assms by (auto simp: JSON_parse_def split: option.splits prod.splits if_splits)
  obtain p c where s: "s = p @ c # r" and c: "value_end c"
    using parse_ends [of "2 * length s + 2"] p unfolding ends_before_def by blast
  have nil: "dropWhile is_ws (rev r) = []"
    using r by (auto simp: jws_def json_ws_char_def is_ws_def dropWhile_eq_Nil_conv)
  have "\<not> is_ws c" using c by (simp add: value_end_def)
  then have "dropWhile is_ws (rev r @ c # rev p) = c # rev p"
    using nil by (simp add: dropWhile_append3)
  then have "trim_end s = p @ [c]" by (simp add: s trim_end_def)
  then show ?thesis using c by simp
qed


text \<open>\<open>JSON_parse\<close> does not depend on its fuel: any fuel above \<open>2 * length s + 1\<close>
  gives the same parse, so \<open>None\<close> is always a syntax error of the text, never fuel
  running out.\<close>

theorem JSON_parse_fuel:
  assumes "2 * length s + 1 < f"
  shows "JSON_parse s = (case parse_value f s of Some (v, r) \<Rightarrow> if jws r = [] then Some v else None | None \<Rightarrow> None)"
proof -
  have f: "f = (2 * length s + 2) + (f - (2 * length s + 2))" using assms by simp
  have "parse_value f s = parse_value (2 * length s + 2) s"
    by (subst f) (rule parse_value_fuel, simp)
  then show ?thesis unfolding JSON_parse_def by (simp only:)
qed

theorem JSON_parse_fuel_witness:
  "2 * length ''[1, {\"a\": null}]'' + 1 < (100::nat) \<and>
   JSON_parse ''[1, {\"a\": null}]'' = Some (JArr [JNum 1 0, JObj [(''a'', JNull)]])"
proof
  show "2 * length ''[1, {\"a\": null}]'' + 1 < (100::nat)" by simp
  then have "JSON_parse ''[1, {\"a\": null}]'' =
    (case parse_value 100 ''[1, {\"a\": null}]'' of Some (v, r) \<Rightarrow> if jws r = [] then Some v else None | None \<Rightarrow> None)"
    by (rule JSON_parse_fuel)
  also have "\<dots> = Some (JArr [JNum 1 0, JObj [(''a'', JNull)]])"
    by code_simp
  finally show "JSON_parse ''[1, {\"a\": null}]'' = Some (JArr [JNum 1 0, JObj [(''a'', JNull)]])" .
qed

lemma wf_parse_number: "parse_number s = Some (v, r) \<Longrightarrow> wf_jval v"
  by (auto simp: parse_number_def Let_def split: prod.splits if_splits option.splits)

lemma wf_parse:
  "(parse_value f s = Some (v, r) \<longrightarrow> wf_jval v) \<and>
   (parse_elems f acc s = Some (v, r) \<longrightarrow> list_all wf_jval acc \<longrightarrow> wf_jval v) \<and>
   (parse_members f obj s = Some (v, r) \<longrightarrow> distinct (map fst obj) \<longrightarrow>
      list_all (\<lambda>kv. wf_jval (snd kv)) obj \<longrightarrow> wf_jval v)"
proof (induction f arbitrary: s acc obj v r)
  case 0
  then show ?case by simp
next
  case (Suc f)
  have val: "parse_value (Suc f) s = Some (v, r) \<Longrightarrow> wf_jval v" for s v r
    using Suc.IH
    by (auto simp: wf_parse_number split: list.splits if_splits option.splits prod.splits)
  have elems: "parse_elems (Suc f) acc s = Some (v, r) \<Longrightarrow> list_all wf_jval acc \<Longrightarrow> wf_jval v" for acc s v r
    using Suc.IH by (auto split: list.splits if_splits option.splits prod.splits)
  have mems: "parse_members (Suc f) obj s = Some (v, r) \<Longrightarrow> distinct (map fst obj) \<Longrightarrow>
      list_all (\<lambda>kv. wf_jval (snd kv)) obj \<Longrightarrow> wf_jval v" for obj s v r
    using Suc.IH wf_obj_set by (auto split: list.splits if_splits option.splits prod.splits)
  show ?case using val elems mems by blast
qed

text \<open>\<open>JSON.parse\<close> only builds well-formed values: every object it returns has
  each key once (a repeated key keeps its first position and its last value) and every
  number is in normal form.\<close>

theorem JSON_parse_wf:
  assumes "JSON_parse s = Some v"
  shows "wf_jval v"
proof -
  from assms obtain r where "parse_value (2 * length s + 2) s = Some (v, r)"
    unfolding JSON_parse_def by (auto simp del: parse_value.simps split: option.splits prod.splits if_splits)
  then show ?thesis using wf_parse by blast
qed

theorem JSON_parse_wf_witness:
  "JSON_parse ''{\"a\": 10, \"a\": [2.50]}'' = Some (JObj [(''a'', JArr [JNum 25 (-1)])]) \<and>
   wf_jval (JObj [(''a'', JArr [JNum 25 (-1)])])"
proof -
  have p: "JSON_parse ''{\"a\": 10, \"a\": [2.50]}'' = Some (JObj [(''a'', JArr [JNum 25 (-1)])])" by code_simp
  show ?thesis using JSON_parse_wf [OF p] p by blast
qed
end
