(* ===== verification/PartialJson.thy ===== *)
theory PartialJson
  imports Json
begin

text \<open>
  \<open>TemplateProcessor.parseJsonDirect\<close> and \<open>parsePartialJsonDirect\<close>
  (\<open>src/template-editor.js\<close>, lines 224--403). When \<open>JSON.parse\<close> rejects text
  that starts with \<open>{\<close>, the partial parser walks its lines with a small state
  (\<open>pj_state\<close>: the variables found, the key being collected, the bracket and
  brace levels, the two mode flags and the collected text). A line is a string member,
  a number member, the start of an array or object member, or a continuation of the
  member being collected; a member whose level returns to zero is handed to
  \<open>JSON.parse\<close> with the repairs the code tries, and the members still open at the
  end are closed by appending brackets. The per-line regular expressions are anchored
  and deterministic, so each is written as a direct scanner.
\<close>

definition count_char :: "char \<Rightarrow> string \<Rightarrow> int" where
  "count_char c s = int (length (filter (\<lambda>x. x = c) s))"

text \<open>\<open>^"([^"]+)"\s*:\s*\<close>: the key and the text after the colon and its spaces.\<close>

definition key_prefix :: "string \<Rightarrow> (string \<times> string) option" where
  "key_prefix t =
     (case t of
        q # r \<Rightarrow>
          if q \<noteq> dq then None else
          (case index_of dq r of
             None \<Rightarrow> None
           | Some j \<Rightarrow>
               if j = 0 then None else
               (case dropWhile is_ws (drop (Suc j) r) of
                  c # r' \<Rightarrow> if c = CHR '':'' then Some (take j r, dropWhile is_ws r') else None
                | [] \<Rightarrow> None))
      | [] \<Rightarrow> None)"

definition comma_end :: "string \<Rightarrow> bool" where
  "comma_end r \<longleftrightarrow> r = [] \<or> r = '',''"

text \<open>\<open>stringMatch\<close>, line 255: \<open>^"([^"]+)"\s*:\s*"([^"]*)"[,]?$\<close>.\<close>

definition string_line :: "string \<Rightarrow> (string \<times> string) option" where
  "string_line t =
     (case key_prefix t of
        None \<Rightarrow> None
      | Some (k, rest) \<Rightarrow>
          (case rest of
             q # r \<Rightarrow>
               if q \<noteq> dq then None else
               (case index_of dq r of
                  Some j \<Rightarrow> if comma_end (drop (Suc j) r) then Some (k, take j r) else None
                | None \<Rightarrow> None)
           | [] \<Rightarrow> None))"

text \<open>\<open>numMatch\<close>, line 261: \<open>^"([^"]+)"\s*:\s*(\d+)[,]?$\<close>.\<close>

definition number_line :: "string \<Rightarrow> (string \<times> string) option" where
  "number_line t =
     (case key_prefix t of
        None \<Rightarrow> None
      | Some (k, rest) \<Rightarrow>
          let ds = takeWhile is_digit rest
          in if ds \<noteq> [] \<and> comma_end (drop (length ds) rest) then Some (k, ds) else None)"

text \<open>\<open>arrayStartMatch\<close> and \<open>objStartMatch\<close>, lines 267 and 289:
  \<open>^"([^"]+)"\s*:\s*\[(.*)$\<close> with \<open>{\<close> for objects; \<open>.\<close> matches no line break.\<close>

definition open_line :: "char \<Rightarrow> string \<Rightarrow> (string \<times> string) option" where
  "open_line b t =
     (case key_prefix t of
        None \<Rightarrow> None
      | Some (k, rest) \<Rightarrow>
          (case rest of
             c # r \<Rightarrow> if c = b \<and> nl \<notin> set r \<and> CHR 0x0D \<notin> set r then Some (k, r) else None
           | [] \<Rightarrow> None))"

text \<open>\<open>s.replace(/,\s*$/, '')\<close>: a final comma and the whitespace after it are removed.\<close>

definition strip_trailing_comma :: "string \<Rightarrow> string" where
  "strip_trailing_comma s =
     (let t = trim_end s in if t \<noteq> [] \<and> last t = CHR '','' then butlast t else s)"

text \<open>\<open>for (const attempt of attempts) { try { ... JSON.parse(attempt); break; } catch {} }\<close>\<close>

fun first_parse :: "string list \<Rightarrow> jval option" where
  "first_parse [] = None"
| "first_parse (a # as) = (case JSON_parse a of Some v \<Rightarrow> Some v | None \<Rightarrow> first_parse as)"

text \<open>\<open>vars[currentKey]\<close> with \<open>currentKey\<close> coerced to a property key.\<close>

definition key_of :: "string option \<Rightarrow> string" where
  "key_of k = (case k of Some s \<Rightarrow> s | None \<Rightarrow> ''null'')"

definition set_parsed :: "jobj \<Rightarrow> string \<Rightarrow> jval option \<Rightarrow> jobj" where
  "set_parsed vars k r = (case r of Some v \<Rightarrow> obj_set vars k v | None \<Rightarrow> vars)"

record pj_state =
  pj_vars :: jobj
  pj_key :: "string option"
  pj_brace :: int
  pj_bracket :: int
  pj_in_obj :: bool
  pj_in_arr :: bool
  pj_content :: string

definition pj_init :: pj_state where
  "pj_init = \<lparr>pj_vars = [], pj_key = None, pj_brace = 0, pj_bracket = 0,
              pj_in_obj = False, pj_in_arr = False, pj_content = []\<rparr>"

text \<open>Lines 267--287: an array member starts; it is parsed at once when it closes on its line.\<close>

definition pj_open_array :: "pj_state \<Rightarrow> string \<Rightarrow> string \<Rightarrow> pj_state" where
  "pj_open_array st k r =
     (let lvl = 1 + count_char CHR ''['' r - count_char CHR '']'' r;
          oc = CHR ''['' # r
      in if lvl = 0
         then st\<lparr>pj_vars := set_parsed (pj_vars st) k (JSON_parse oc), pj_key := None, pj_bracket := lvl,
                 pj_in_arr := False, pj_content := []\<rparr>
         else st\<lparr>pj_key := Some k, pj_content := oc, pj_in_arr := True, pj_bracket := lvl\<rparr>)"

text \<open>Lines 289--309, the same for an object member.\<close>

definition pj_open_object :: "pj_state \<Rightarrow> string \<Rightarrow> string \<Rightarrow> pj_state" where
  "pj_open_object st k r =
     (let lvl = 1 + count_char CHR ''{'' r - count_char CHR ''}'' r;
          oc = CHR ''{'' # r
      in if lvl = 0
         then st\<lparr>pj_vars := set_parsed (pj_vars st) k (JSON_parse oc), pj_key := None, pj_brace := lvl,
                 pj_in_obj := False, pj_content := []\<rparr>
         else st\<lparr>pj_key := Some k, pj_content := oc, pj_in_obj := True, pj_brace := lvl\<rparr>)"

text \<open>Lines 311--342: a line of an open array member.\<close>

definition pj_array_line :: "pj_state \<Rightarrow> string \<Rightarrow> string \<Rightarrow> pj_state" where
  "pj_array_line st line t =
     (if \<not> pj_in_arr st then st else
      let oc = pj_content st @ nl # line;
          lvl = pj_bracket st + count_char CHR ''['' t - count_char CHR '']'' t
      in if 0 < lvl then st\<lparr>pj_content := oc, pj_bracket := lvl\<rparr>
         else
           let cleaned = strip_trailing_comma oc;
               parsed = (case JSON_parse oc of
                           Some v \<Rightarrow> Some v
                         | None \<Rightarrow> (case JSON_parse cleaned of
                                     Some v \<Rightarrow> Some v
                                   | None \<Rightarrow> first_parse [cleaned @ [dq, CHR '']''], cleaned @ '']'']))
           in st\<lparr>pj_vars := set_parsed (pj_vars st) (key_of (pj_key st)) parsed, pj_key := None,
                 pj_in_arr := False, pj_content := [], pj_bracket := 0\<rparr>)"

text \<open>Lines 344--366: a line of an open object member; what does not parse is kept as text.\<close>

definition pj_object_line :: "pj_state \<Rightarrow> string \<Rightarrow> string \<Rightarrow> pj_state" where
  "pj_object_line st line t =
     (if \<not> pj_in_obj st then st else
      let oc = pj_content st @ nl # line;
          lvl = pj_brace st + count_char CHR ''{'' t - count_char CHR ''}'' t
      in if 0 < lvl then st\<lparr>pj_content := oc, pj_brace := lvl\<rparr>
         else
           let v = (case JSON_parse oc of
                      Some v \<Rightarrow> v
                    | None \<Rightarrow> (case JSON_parse (strip_trailing_comma oc) of Some v \<Rightarrow> v | None \<Rightarrow> JStr oc))
           in st\<lparr>pj_vars := obj_set (pj_vars st) (key_of (pj_key st)) v, pj_key := None,
                 pj_in_obj := False, pj_content := [], pj_brace := 0\<rparr>)"

text \<open>The body of the loop of line 251, one line at a time.\<close>

definition pj_line :: "pj_state \<Rightarrow> string \<Rightarrow> pj_state" where
  "pj_line st line =
     (let t = js_trim line;
          free = (\<not> pj_in_obj st \<and> \<not> pj_in_arr st)
      in if t = [] \<or> t = ''{'' \<or> t = ''}'' then st else
      (case (if free then string_line t else None) of
         Some (k, v) \<Rightarrow> st\<lparr>pj_vars := obj_set (pj_vars st) k (JStr v)\<rparr>
       | None \<Rightarrow>
      (case (if free then number_line t else None) of
         Some (k, d) \<Rightarrow> st\<lparr>pj_vars := obj_set (pj_vars st) k (mk_num (int (digits_val d)) 0)\<rparr>
       | None \<Rightarrow>
      (case (if free then open_line CHR ''['' t else None) of
         Some (k, r) \<Rightarrow> pj_open_array st k r
       | None \<Rightarrow>
      (case (if free then open_line CHR ''{'' t else None) of
         Some (k, r) \<Rightarrow> pj_open_object st k r
       | None \<Rightarrow> pj_object_line (pj_array_line st line t) line t)))))"

definition key_truthy :: "string option \<Rightarrow> bool" where
  "key_truthy k \<longleftrightarrow> (case k of Some s \<Rightarrow> s \<noteq> [] | None \<Rightarrow> False)"

text \<open>Lines 369--400: members still open when the text ends.\<close>

definition pj_finish :: "pj_state \<Rightarrow> jobj" where
  "pj_finish st =
     (let oc = pj_content st;
          vars1 = (if pj_in_arr st \<and> key_truthy (pj_key st) \<and> oc \<noteq> []
                   then set_parsed (pj_vars st) (key_of (pj_key st))
                          (first_parse [oc @ '']'', strip_trailing_comma oc @ '']'', oc @ [dq, CHR '']'']])
                   else pj_vars st)
      in if pj_in_obj st \<and> key_truthy (pj_key st) \<and> oc \<noteq> []
         then set_parsed vars1 (key_of (pj_key st)) (first_parse [oc @ ''}'', strip_trailing_comma oc @ ''}''])
         else vars1)"

definition parsePartialJsonDirect :: "string \<Rightarrow> jval" where
  "parsePartialJsonDirect s =
     (if \<not> starts_with s ''{'' then JObj [] else
      case JSON_parse s of
        Some v \<Rightarrow> v
      | None \<Rightarrow> JObj (pj_finish (foldl pj_line pj_init (split_on nl s))))"

definition parseJsonDirect :: "string \<Rightarrow> jval" where
  "parseJsonDirect s =
     (case JSON_parse (js_trim s) of Some v \<Rightarrow> v | None \<Rightarrow> parsePartialJsonDirect (js_trim s))"

text \<open>The state invariant of the line loop: at most one member is open, an open
  member has its key and its text, a closed one has neither, and the keys found are
  distinct.\<close>

definition pj_inv :: "pj_state \<Rightarrow> bool" where
  "pj_inv st \<longleftrightarrow> \<not> (pj_in_arr st \<and> pj_in_obj st) \<and>
     (pj_in_arr st \<or> pj_in_obj st \<longrightarrow> key_truthy (pj_key st) \<and> pj_content st \<noteq> []) \<and>
     (\<not> pj_in_arr st \<and> \<not> pj_in_obj st \<longrightarrow> pj_key st = None \<and> pj_content st = []) \<and>
     distinct (map fst (pj_vars st))"

text \<open>A string member as \<open>JSON.stringify(obj, null, 2)\<close> prints it inside an object,
  with its comma, and the members the theorems below speak of: non-empty keys, and
  keys and values free of quotes and line breaks.\<close>

definition member_text :: "string \<Rightarrow> string \<Rightarrow> string" where
  "member_text k v = ''  '' @ dq # k @ dq # '': '' @ dq # v @ [dq, CHR '','']"

definition member_ok :: "string \<times> string \<Rightarrow> bool" where
  "member_ok kv \<longleftrightarrow> fst kv \<noteq> [] \<and> dq \<notin> set (fst kv) \<and> dq \<notin> set (snd kv) \<and>
                   nl \<notin> set (fst kv) \<and> nl \<notin> set (snd kv)"

section \<open>Lemmas\<close>



lemma key_prefix_Some: "key_prefix t = Some (k, rest) \<Longrightarrow> k \<noteq> []"
  by (auto simp: key_prefix_def split: list.splits if_splits option.splits)

lemma open_line_key: "open_line b t = Some (k, r) \<Longrightarrow> k \<noteq> []"
  by (auto simp: open_line_def split: option.splits list.splits if_splits dest: key_prefix_Some)

lemma distinct_set_parsed: "distinct (map fst vars) \<Longrightarrow> distinct (map fst (set_parsed vars k r))"
  by (simp add: set_parsed_def distinct_obj_set split: option.splits)

lemma pj_open_array_inv: "pj_inv st \<Longrightarrow> \<not> pj_in_arr st \<Longrightarrow> \<not> pj_in_obj st \<Longrightarrow> k \<noteq> [] \<Longrightarrow> pj_inv (pj_open_array st k r)"
  by (simp add: pj_inv_def pj_open_array_def Let_def key_truthy_def distinct_set_parsed)

lemma pj_open_object_inv: "pj_inv st \<Longrightarrow> \<not> pj_in_arr st \<Longrightarrow> \<not> pj_in_obj st \<Longrightarrow> k \<noteq> [] \<Longrightarrow> pj_inv (pj_open_object st k r)"
  by (simp add: pj_inv_def pj_open_object_def Let_def key_truthy_def distinct_set_parsed)

lemma pj_array_line_inv: "pj_inv st \<Longrightarrow> pj_inv (pj_array_line st line t)"
  by (auto simp: pj_inv_def pj_array_line_def Let_def distinct_set_parsed)

lemma pj_object_line_inv: "pj_inv st \<Longrightarrow> pj_inv (pj_object_line st line t)"
  by (auto simp: pj_inv_def pj_object_line_def Let_def distinct_obj_set)

lemma pj_line_cases:
  obtains (same) "pj_line st line = st"
  | (set) k v where "pj_line st line = st\<lparr>pj_vars := obj_set (pj_vars st) k v\<rparr>"
  | (arr) k r where "\<not> pj_in_arr st" "\<not> pj_in_obj st" "k \<noteq> []" "pj_line st line = pj_open_array st k r"
  | (obj) k r where "\<not> pj_in_arr st" "\<not> pj_in_obj st" "k \<noteq> []" "pj_line st line = pj_open_object st k r"
  | (cont) t where "pj_line st line = pj_object_line (pj_array_line st line t) line t"
proof -
  let ?t = "js_trim line"
  let ?free = "\<not> pj_in_obj st \<and> \<not> pj_in_arr st"
  show thesis
  proof (cases "?t = [] \<or> ?t = ''{'' \<or> ?t = ''}''")
    case True
    then show thesis using same by (simp add: pj_line_def Let_def)
  next
    case skip: False
    show thesis
    proof (cases "if ?free then string_line ?t else None")
      case (Some p)
      then show thesis using skip set by (cases p) (simp add: pj_line_def Let_def)
    next
      case s: None
      show thesis
      proof (cases "if ?free then number_line ?t else None")
        case (Some p)
        then show thesis using skip s set by (cases p) (simp add: pj_line_def Let_def)
      next
        case n: None
        show thesis
        proof (cases "if ?free then open_line CHR ''['' ?t else None")
          case (Some p)
          then show thesis using skip s n arr
            by (cases p) (auto simp: pj_line_def Let_def split: if_splits dest: open_line_key)
        next
          case a: None
          show thesis
          proof (cases "if ?free then open_line CHR ''{'' ?t else None")
            case (Some p)
            then show thesis using skip s n a obj
              by (cases p) (auto simp: pj_line_def Let_def split: if_splits dest: open_line_key)
          next
            case None
            then show thesis using skip s n a cont by (simp add: pj_line_def Let_def)
          qed
        qed
      qed
    qed
  qed
qed

text \<open>C24: Every line preserves the invariant of the loop of \<open>parsePartialJsonDirect\<close>;
  in particular a member is only ever stored under its own key, never under the
  coerced key \<open>"null"\<close>.\<close>

theorem pj_line_inv:
  assumes inv: "pj_inv st"
  shows "pj_inv (pj_line st line)"
proof (cases rule: pj_line_cases [where st = st and line = line])
  case same
  then show ?thesis using inv by simp
next
  case (set k v)
  then show ?thesis using inv by (simp add: pj_inv_def distinct_obj_set)
next
  case (arr k r)
  then show ?thesis using inv by (simp add: pj_open_array_inv)
next
  case (obj k r)
  then show ?thesis using inv by (simp add: pj_open_object_inv)
next
  case (cont t)
  then show ?thesis using inv by (simp add: pj_array_line_inv pj_object_line_inv)
qed

lemma key_prefix_member:
  "k \<noteq> [] \<Longrightarrow> dq \<notin> set k \<Longrightarrow> key_prefix (dq # k @ dq # '': '' @ rest) = Some (k, dropWhile is_ws rest)"
  using index_of_append_notin [of dq k]
  by (simp add: key_prefix_def is_ws_def dropWhile_append2)

lemma string_line_member:
  assumes "k \<noteq> []" "dq \<notin> set k" "dq \<notin> set v"
  shows "string_line (dq # k @ dq # '': '' @ dq # v @ [dq, CHR '','']) = Some (k, v)"
proof -
  have "key_prefix (dq # k @ dq # '': '' @ dq # v @ [dq, CHR '','']) = Some (k, dq # v @ [dq, CHR '',''])"
    using key_prefix_member [OF assms(1,2)] by (simp add: is_ws_def)
  moreover have "index_of dq (v @ [dq, CHR '','']) = Some (length v)"
    using index_of_append_notin [OF assms(3)] by simp
  ultimately show ?thesis by (simp add: string_line_def comma_end_def)
qed

lemma join_with_concat: "join_with [c] (x # ls) = x @ concat (map (\<lambda>l. c # l) ls)"
  by (induction ls arbitrary: x) auto

lemma js_trim_member: "js_trim (member_text k v) = dq # k @ dq # '': '' @ dq # v @ [dq, CHR '','']"
  unfolding member_text_def
  by (rule js_trim_indent [where a = dq]) (simp_all add: is_ws_def)

lemma pj_line_member:
  assumes "\<not> pj_in_obj st" "\<not> pj_in_arr st" "member_ok (k, v)"
  shows "pj_line st (member_text k v) = st\<lparr>pj_vars := obj_set (pj_vars st) k (JStr v)\<rparr>"
proof -
  have "string_line (dq # k @ dq # '': '' @ dq # v @ [dq, CHR '','']) = Some (k, v)"
    by (intro string_line_member) (use assms(3) in \<open>simp_all add: member_ok_def\<close>)
  then have "string_line (js_trim (member_text k v)) = Some (k, v)"
    by (simp only: js_trim_member)
  then show ?thesis using assms(1,2) by (simp add: pj_line_def js_trim_member)
qed

lemma pj_members_loop:
  "list_all member_ok kvs \<Longrightarrow> \<not> pj_in_obj st \<Longrightarrow> \<not> pj_in_arr st \<Longrightarrow>
   foldl pj_line st (map (\<lambda>(k, v). member_text k v) kvs) =
   st\<lparr>pj_vars := foldl (\<lambda>acc (k, v). obj_set acc k (JStr v)) (pj_vars st) kvs\<rparr>"
proof (induction kvs arbitrary: st)
  case (Cons kv kvs)
  obtain k v where kv: "kv = (k, v)" by (cases kv)
  show ?case using Cons kv by (simp add: pj_line_member)
qed simp

lemma member_text_last: "last (member_text k v) = CHR '',''"
  by (simp add: member_text_def)

text \<open>C8: When model output is cut off after some complete string members of an
  object (one member per line, each followed by a comma), \<open>parseJsonDirect\<close> returns
  exactly those members: \<open>JSON.parse\<close> rejects the text and the line-by-line parser
  collects every member.\<close>

theorem partial_flat_members:
  assumes ne: "kvs \<noteq> []" and ok: "list_all member_ok kvs"
  shows "parseJsonDirect (join_with [nl] (''{'' # map (\<lambda>(k, v). member_text k v) kvs)) =
         JObj (foldl (\<lambda>acc (k, v). obj_set acc k (JStr v)) [] kvs)"
proof -
  let ?ls = "map (\<lambda>(k, v). member_text k v) kvs"
  let ?s = "join_with [nl] (''{'' # ?ls)"
  have nonl: "\<forall>l \<in> set (''{'' # ?ls). nl \<notin> set l"
    using ok by (auto simp: list_all_iff member_ok_def member_text_def)
  have split: "split_on nl ?s = ''{'' # ?ls" by (rule split_on_join_with [OF nonl]) simp
  obtain kl vl where lst: "last kvs = (kl, vl)" by (cases "last kvs")
  have "last ?s = CHR '',''"
  proof -
    have "?ls = map (\<lambda>(k, v). member_text k v) (butlast kvs) @ [member_text kl vl]"
      using ne lst by (metis (no_types, lifting) append_butlast_last_id list.simps(8) list.simps(9) map_append
          case_prod_conv)
    moreover have "member_text kl vl \<noteq> []" by (simp add: member_text_def)
    ultimately show ?thesis by (simp add: join_with_concat member_text_last)
  qed
  moreover have hd: "?s = CHR ''{'' # concat (map (\<lambda>l. nl # l) ?ls)" by (simp add: join_with_concat)
  ultimately have "js_trim ([] @ ?s) = ?s"
    by (intro js_trim_indent [where a = "CHR ''{''"]) (simp_all add: is_ws_def)
  then have trim: "js_trim ?s = ?s" by simp
  have "trim_end ?s = ?s" using trim hd by (simp add: js_trim_def trim_start_def is_ws_def)
  then have none: "JSON_parse ?s = None"
    using JSON_parse_value_end [of ?s] \<open>last ?s = CHR '',''\<close>
    by (cases "JSON_parse ?s") (auto simp: value_end_def)
  have "pj_line pj_init ''{'' = pj_init" by (simp add: pj_line_def js_trim_def trim_start_def trim_end_def is_ws_def)
  then have "foldl pj_line pj_init (split_on nl ?s) =
             pj_init\<lparr>pj_vars := foldl (\<lambda>acc (k, v). obj_set acc k (JStr v)) [] kvs\<rparr>"
    using pj_members_loop [OF ok, of pj_init] split by (simp add: pj_init_def)
  then show ?thesis using trim none hd
    by (simp add: parseJsonDirect_def parsePartialJsonDirect_def pj_finish_def pj_init_def starts_with_def)
qed

theorem pj_line_inv_witness:
  "pj_inv pj_init \<and> pj_inv (pj_line pj_init ''  \"items\": [1,'')"
proof
  show i: "pj_inv pj_init" by (simp add: pj_inv_def pj_init_def)
  show "pj_inv (pj_line pj_init ''  \"items\": [1,'')" using pj_line_inv [OF i] .
qed

theorem partial_flat_members_witness:
  "parseJsonDirect (join_with [nl] (''{'' # map (\<lambda>(k, v). member_text k v) [(''name'', ''Aria''), (''mood'', ''calm'')])) =
   JObj [(''name'', JStr ''Aria''), (''mood'', JStr ''calm'')]"
  using partial_flat_members [of "[(''name'', ''Aria''), (''mood'', ''calm'')]"]
  by (simp add: member_ok_def)

text \<open>A two-line array member cut off after a trailing comma is repaired: the
  code strips the comma, closes the bracket and \<open>JSON.parse\<close> accepts it.\<close>

theorem partial_truncated_array:
  "parseJsonDirect (join_with [nl] [''{'', ''  \"name\": \"Aria\",'', ''  \"items\": [\"a\", \"b\",''])
   = JObj [(''name'', JStr ''Aria''), (''items'', JArr [JStr ''a'', JStr ''b''])]"
  by code_simp

lemma count_char_absent: "c \<notin> set s \<Longrightarrow> count_char c s = 0"
  by (auto simp: count_char_def filter_empty_conv)

lemma pj_line_open_member:
  assumes "pj_in_obj st" and "\<not> pj_in_arr st" and "0 < pj_brace st"
    and "CHR ''{'' \<notin> set l \<and> CHR ''}'' \<notin> set l \<or> js_trim l = ''}''"
  shows "pj_line st l = (if js_trim l \<in> {[], ''}''} then st else st\<lparr>pj_content := pj_content st @ nl # l\<rparr>)"
proof (cases "js_trim l \<in> {[], ''{'', ''}''}")
  case True
  moreover have "js_trim l \<noteq> ''{''" using assms(4) set_js_trim [of l] by auto
  ultimately show ?thesis by (auto simp: pj_line_def)
next
  case False
  have "CHR ''{'' \<notin> set (js_trim l)" "CHR ''}'' \<notin> set (js_trim l)"
    using assms(4) False set_js_trim [of l] by auto
  then show ?thesis using assms(1-3) False
    by (simp add: pj_line_def pj_array_line_def pj_object_line_def Let_def count_char_absent)
qed

text \<open>C31: Once an object member is open (its brace level positive), a line holding only
  \<open>}\<close> is skipped by the guard of line 253 and never lowers the level, and every other line
  without braces is appended to the member's text, whatever it holds: a sibling member
  such as \<open>"d": "e"\<close> is not recorded as a variable but swallowed by the open member, and
  the variables found so far are unchanged.\<close>

theorem pj_open_member_absorbs:
  assumes "pj_in_obj st" and "\<not> pj_in_arr st" and "0 < pj_brace st"
    and "\<forall>l \<in> set ls. CHR ''{'' \<notin> set l \<and> CHR ''}'' \<notin> set l \<or> js_trim l = ''}''"
  shows "foldl pj_line st ls =
           st\<lparr>pj_content := pj_content st @ concat (map (\<lambda>l. nl # l) (filter (\<lambda>l. js_trim l \<notin> {[], ''}''}) ls))\<rparr>"
  using assms
proof (induction ls arbitrary: st)
  case (Cons l ls)
  have "pj_line st l = (if js_trim l \<in> {[], ''}''} then st else st\<lparr>pj_content := pj_content st @ nl # l\<rparr>)"
    using Cons.prems by (intro pj_line_open_member) auto
  then show ?case using Cons.IH [of "pj_line st l"] Cons.prems by auto
qed simp

theorem pj_open_member_absorbs_witness:
  "foldl pj_line (foldl pj_line pj_init [''{'', ''  \"a\": {'']) [''    }'', ''  \"d\": \"e\"''] =
     pj_init\<lparr>pj_key := Some ''a'', pj_brace := 1, pj_in_obj := True, pj_content := ''{'' @ nl # ''  \"d\": \"e\"''\<rparr>"
proof -
  have s0: "foldl pj_line pj_init [''{'', ''  \"a\": {''] =
      pj_init\<lparr>pj_key := Some ''a'', pj_brace := 1, pj_in_obj := True, pj_content := ''{''\<rparr>"
    by code_simp
  have h: "\<forall>l \<in> set [''    }'', ''  \"d\": \"e\"'']. CHR ''{'' \<notin> set l \<and> CHR ''}'' \<notin> set l \<or> js_trim l = ''}''"
    by (simp add: js_trim_def trim_start_def trim_end_def is_ws_def)
  show ?thesis
    using pj_open_member_absorbs [of "pj_init\<lparr>pj_key := Some ''a'', pj_brace := 1, pj_in_obj := True, pj_content := ''{''\<rparr>", OF _ _ _ h] s0
    by (simp add: pj_init_def js_trim_def trim_start_def trim_end_def is_ws_def)
qed

end
