(* ===== verification/Yaml.thy ===== *)
theory Yaml
  imports JsValue
begin

text \<open>
  The YAML reader of \<open>src/template-editor.js\<close>: \<open>TemplateProcessor.parseYamlDirect\<close>
  (lines 405--459) with \<open>parseMultilineString\<close> (517--541),
  \<open>parseNestedObject\<close> (569--621) and \<open>parseArray\<close> (677--727). The text is
  split into lines and each loop walks an index \<open>i\<close> over them, as the code does. A
  block scalar (\<open>key: |\<close> or \<open>key: >\<close>) collects the more indented lines; an
  empty value (\<open>key:\<close> or \<open>key: {}\<close>) opens a nested map that ends at the first
  line not indented deeper; an inline \<open>key: - item\<close> starts a sequence; other
  values are scalars (\<open>yaml_scalar\<close>: one quote stripped at each end, then
  \<open>parseInt\<close>, \<open>parseFloat\<close> or the text).

  The loops of the nested map and of the top level call each other on the index they
  return, so they carry fuel: every iteration spends one unit and the index never moves
  back. Fuel above the number of lines still to read is enough (\<open>nested_loop_total\<close>,
  \<open>top_loop_total\<close>), and \<open>parseYamlDirect\<close> gives \<open>length lines + 1\<close>.
  \<open>parsePartialYamlDirect\<close> and its helpers (lines 461--515, 543--567, 623--675,
  729--779), which nothing calls, are modelled in \<open>PartialYaml\<close>.
\<close>

definition line_indent :: "string \<Rightarrow> nat" where
  "line_indent line = length line - length (trim_start line)"

text \<open>\<open>v.replace(/^["']|["']$/g, '')\<close>.\<close>

definition strip_quotes :: "string \<Rightarrow> string" where
  "strip_quotes v =
     (let v1 = (case v of c # r \<Rightarrow> if c = dq \<or> c = sq then r else v | [] \<Rightarrow> [])
      in if v1 \<noteq> [] \<and> (last v1 = dq \<or> last v1 = sq) then butlast v1 else v1)"

text \<open>\<open>/^\d+\.\d+$/\<close>: the integer and fraction digits.\<close>

definition decimal_parts :: "string \<Rightarrow> (string \<times> string) option" where
  "decimal_parts v =
     (case index_of CHR ''.'' v of
        Some k \<Rightarrow> if all_digits (take k v) \<and> all_digits (drop (Suc k) v) then Some (take k v, drop (Suc k) v) else None
      | None \<Rightarrow> None)"

text \<open>The scalar of lines 446--454, 605--613, 684--692 and 713--721.\<close>

definition yaml_scalar :: "string \<Rightarrow> jval" where
  "yaml_scalar value =
     (let cv = strip_quotes value
      in if all_digits cv then mk_num (int (digits_val cv)) 0
         else case decimal_parts cv of
                Some (ip, fp) \<Rightarrow> mk_num (int (digits_val (ip @ fp))) (- int (length fp))
              | None \<Rightarrow> JStr cv)"

text \<open>\<open>s.replace(/\s+/g, ' ')\<close>.\<close>

function collapse_ws :: "string \<Rightarrow> string" where
  "collapse_ws [] = []"
| "collapse_ws (c # r) = (if is_ws c then CHR '' '' # collapse_ws (dropWhile is_ws r) else c # collapse_ws r)"
  by pat_completeness auto
termination
  by (relation "measure length") (auto simp: le_imp_less_Suc length_dropWhile_le)

text \<open>The loop of \<open>parseMultilineString\<close>, lines 521--537.\<close>

function ml_loop :: "string list \<Rightarrow> nat \<Rightarrow> nat \<Rightarrow> string list \<Rightarrow> string list \<times> nat" where
  "ml_loop lines base i acc =
     (if i < length lines then
        (let line = lines ! i
         in if js_trim line = [] then ml_loop lines base (Suc i) (acc @ [[]])
            else if line_indent line \<le> base then (acc, i)
            else ml_loop lines base (Suc i) (acc @ [drop (base + 2) line]))
      else (acc, i))"
  by pat_completeness auto
termination
  by (relation "measure (\<lambda>(lines, base, i, acc). length lines - i)") auto

declare ml_loop.simps [simp del]

definition parseMultilineString :: "string list \<Rightarrow> nat \<Rightarrow> nat \<Rightarrow> bool \<Rightarrow> string \<times> nat" where
  "parseMultilineString lines start base preserve =
     (let (cl, j) = ml_loop lines base (Suc start) []
      in (js_trim (if preserve then join_with [nl] cl else collapse_ws (join_with '' '' cl)), j))"

text \<open>A sequence item \<open>- value\<close>; an empty item is dropped.\<close>

definition array_item :: "string \<Rightarrow> jval option" where
  "array_item t = (let v = js_trim (drop 1 t) in if v = [] then None else Some (yaml_scalar v))"

definition push_item :: "jval list \<Rightarrow> string \<Rightarrow> jval list" where
  "push_item arr t = (case array_item t of Some v \<Rightarrow> arr @ [v] | None \<Rightarrow> arr)"

text \<open>The loop of \<open>parseArray\<close>, lines 696--724.\<close>

function arr_loop :: "string list \<Rightarrow> nat \<Rightarrow> nat \<Rightarrow> jval list \<Rightarrow> jval list \<times> nat" where
  "arr_loop lines base i arr =
     (if i < length lines then
        (let line = lines ! i; t = js_trim line
         in if t = [] \<or> starts_with t ''#'' then arr_loop lines base (Suc i) arr
            else if line_indent line \<le> base \<and> \<not> starts_with t ''-'' then (arr, i)
            else arr_loop lines base (Suc i) (if starts_with t ''-'' then push_item arr t else arr))
      else (arr, i))"
  by pat_completeness auto
termination
  by (relation "measure (\<lambda>(lines, base, i, arr). length lines - i)") auto

declare arr_loop.simps [simp del]

definition parseArray :: "string list \<Rightarrow> nat \<Rightarrow> nat \<Rightarrow> string \<Rightarrow> jval \<times> nat" where
  "parseArray lines start base first =
     (let (arr, j) = (if starts_with first ''-'' then arr_loop lines base (Suc start) (push_item [] first)
                      else arr_loop lines base start [])
      in (JArr arr, j))"

text \<open>A line \<open>key: value\<close>: the trimmed key and value, when the colon is not first.\<close>

definition key_value :: "string \<Rightarrow> (string \<times> string) option" where
  "key_value t =
     (case index_of CHR '':'' t of
        Some ci \<Rightarrow> if 0 < ci then Some (js_trim (take ci t), js_trim (drop (Suc ci) t)) else None
      | None \<Rightarrow> None)"

definition next_is_item :: "string list \<Rightarrow> nat \<Rightarrow> bool" where
  "next_is_item lines i \<longleftrightarrow> Suc i < length lines \<and> starts_with (js_trim (lines ! Suc i)) ''-''"

text \<open>What the body of the two loops does with a line that is not blank: the branches
  of lines 418--455 and 584--617, which are the same. \<open>YSet key value j\<close> stores a
  value and goes on at line \<open>j\<close>; \<open>YSub key ind\<close> reads a nested map below the
  line, whose indentation is \<open>ind\<close>.\<close>

datatype yaml_step = YSkip | YSet string jval nat | YSub string nat

definition blank_line :: "string \<Rightarrow> bool" where
  "blank_line line \<longleftrightarrow> (let t = js_trim line in t = [] \<or> starts_with t ''#'')"

definition entry_step :: "string list \<Rightarrow> nat \<Rightarrow> yaml_step" where
  "entry_step lines i =
     (let line = lines ! i; ind = line_indent line
      in case key_value (js_trim line) of
           None \<Rightarrow> YSkip
         | Some (key, value) \<Rightarrow>
             if value = ''|'' \<or> value = ''>'' then
               (let (v, j) = parseMultilineString lines i ind (value = ''|'') in YSet key (JStr v) j)
             else if value = [] \<or> value = ''{}'' then YSub key ind
             else if starts_with value ''-'' \<or> (value = [] \<and> next_is_item lines i) then
               (let (a, j) = parseArray lines i ind (if starts_with value ''-'' then value else []) in YSet key a j)
             else YSet key (yaml_scalar value) (Suc i))"

text \<open>The loop of \<open>parseNestedObject\<close> (lines 573--618), with fuel; a nested map is
  stored as it is, empty or not.\<close>

fun nested_loop :: "nat \<Rightarrow> string list \<Rightarrow> nat \<Rightarrow> nat \<Rightarrow> jobj \<Rightarrow> (jobj \<times> nat) option" where
  "nested_loop 0 lines base i obj = None"
| "nested_loop (Suc f) lines base i obj =
     (if i < length lines then
        (if blank_line (lines ! i) then nested_loop f lines base (Suc i) obj
         else if line_indent (lines ! i) \<le> base then Some (obj, i)
         else case entry_step lines i of
                YSkip \<Rightarrow> nested_loop f lines base (Suc i) obj
              | YSet key v j \<Rightarrow> nested_loop f lines base j (obj_set obj key v)
              | YSub key ind \<Rightarrow>
                  (case nested_loop f lines ind (Suc i) [] of
                     None \<Rightarrow> None
                   | Some (sub, j) \<Rightarrow> nested_loop f lines base j (obj_set obj key (JObj sub))))
      else Some (obj, i))"

definition parseNestedObject :: "nat \<Rightarrow> string list \<Rightarrow> nat \<Rightarrow> nat \<Rightarrow> (jobj \<times> nat) option" where
  "parseNestedObject f lines start base = nested_loop f lines base (Suc start) []"

text \<open>The loop of \<open>parseYamlDirect\<close> (lines 410--456), with fuel. It has no
  indentation stop, and a nested map with no keys is stored as the empty string.\<close>

fun top_loop :: "nat \<Rightarrow> string list \<Rightarrow> nat \<Rightarrow> jobj \<Rightarrow> jobj option" where
  "top_loop 0 lines i vars = None"
| "top_loop (Suc f) lines i vars =
     (if i < length lines then
        (if blank_line (lines ! i) then top_loop f lines (Suc i) vars
         else case entry_step lines i of
                YSkip \<Rightarrow> top_loop f lines (Suc i) vars
              | YSet key v j \<Rightarrow> top_loop f lines j (obj_set vars key v)
              | YSub key ind \<Rightarrow>
                  (case parseNestedObject f lines i ind of
                     None \<Rightarrow> None
                   | Some (sub, j) \<Rightarrow> top_loop f lines j (obj_set vars key (if sub \<noteq> [] then JObj sub else JStr []))))
      else Some vars)"

text \<open>\<open>parseYamlDirect(text)\<close>: \<open>JNull\<close> stands for the \<open>null\<close> returned when no key was
  read; the outer option is the fuel, which never runs out (\<open>parseYamlDirect_total\<close>).\<close>

definition parseYamlDirect :: "string \<Rightarrow> jval option" where
  "parseYamlDirect s =
     (let lines = split_on nl s
      in map_option (\<lambda>vars. if vars = [] then JNull else JObj vars) (top_loop (Suc (length lines)) lines 0 []))"

text \<open>\<open>isYamlFormat\<close> and \<open>isJsonFormat\<close>, lines 781--795.\<close>

definition yaml_key_line :: "string \<Rightarrow> bool" where
  "yaml_key_line line =
     (let t = js_trim line
      in if t = [] \<or> starts_with t ''#'' then False
         else case index_of CHR '':'' t of
                Some ci \<Rightarrow> 0 < ci \<and> (case js_trim (take ci t) of
                                        c # r \<Rightarrow> is_ident_start c \<and> list_all is_word r
                                      | [] \<Rightarrow> False)
              | None \<Rightarrow> False)"

definition isYamlFormat :: "string \<Rightarrow> bool" where
  "isYamlFormat content =
     (let t = js_trim content
      in \<not> starts_with t ''{'' \<and> \<not> starts_with t ''['' \<and> list_ex yaml_key_line (split_on nl t))"

definition isJsonFormat :: "string \<Rightarrow> bool" where
  "isJsonFormat content = (let t = js_trim content in starts_with t ''{'' \<or> starts_with t ''['')"

section \<open>Lemmas\<close>


lemma ml_loop_ge: "i \<le> snd (ml_loop lines base i acc)"
proof (induction lines base i acc rule: ml_loop.induct)
  case (1 lines base i acc)
  show ?case
  proof (cases "i < length lines")
    case False
    then show ?thesis by (subst ml_loop.simps) simp
  next
    case True
    show ?thesis
      by (subst ml_loop.simps) (use True "1.IH" [OF True refl] in \<open>auto simp: Let_def intro: Suc_leD\<close>)
  qed
qed

lemma arr_loop_ge: "i \<le> snd (arr_loop lines base i arr)"
proof (induction lines base i arr rule: arr_loop.induct)
  case (1 lines base i arr)
  show ?case
  proof (cases "i < length lines")
    case False
    then show ?thesis by (subst arr_loop.simps) simp
  next
    case True
    show ?thesis
      by (subst arr_loop.simps) (use True "1.IH" [OF True refl refl] in \<open>auto simp: Let_def intro: Suc_leD\<close>)
  qed
qed

lemma parseMultilineString_next: "parseMultilineString lines start base p = (v, j) \<Longrightarrow> start < j"
proof -
  assume a: "parseMultilineString lines start base p = (v, j)"
  obtain cl j' where m: "ml_loop lines base (Suc start) [] = (cl, j')" by (cases "ml_loop lines base (Suc start) []")
  then have "j = j'" using a by (simp add: parseMultilineString_def)
  then show ?thesis using ml_loop_ge [of "Suc start" lines base "[]"] m by simp
qed

lemma parseArray_next: "starts_with first ''-'' \<Longrightarrow> parseArray lines start base first = (a, j) \<Longrightarrow> start < j"
proof -
  assume s: "starts_with first ''-''" and a: "parseArray lines start base first = (a, j)"
  obtain arr j' where m: "arr_loop lines base (Suc start) (push_item [] first) = (arr, j')"
    by (cases "arr_loop lines base (Suc start) (push_item [] first)")
  then have "j = j'" using a s by (simp add: parseArray_def)
  then show ?thesis using arr_loop_ge [of "Suc start" lines base "push_item [] first"] m by simp
qed

lemma entry_step_next: "entry_step lines i = YSet key v j \<Longrightarrow> i < j"
proof -
  assume a: "entry_step lines i = YSet key v j"
  then obtain k vl where kv: "key_value (js_trim (lines ! i)) = Some (k, vl)"
    by (auto simp: entry_step_def Let_def split: option.splits)
  let ?ind = "line_indent (lines ! i)"
  consider (ml) "vl = ''|'' \<or> vl = ''>''"
    | (arr) "\<not> (vl = ''|'' \<or> vl = ''>'')" "\<not> (vl = [] \<or> vl = ''{}'')" "starts_with vl ''-''"
    | (sc) "\<not> (vl = ''|'' \<or> vl = ''>'')" "\<not> (vl = [] \<or> vl = ''{}'')" "\<not> starts_with vl ''-''"
    | (sub) "\<not> (vl = ''|'' \<or> vl = ''>'')" "vl = [] \<or> vl = ''{}''" by blast
  then show ?thesis
  proof cases
    case ml
    obtain w j' where m: "parseMultilineString lines i ?ind (vl = ''|'') = (w, j')"
      by (cases "parseMultilineString lines i ?ind (vl = ''|'')")
    then show ?thesis using a kv ml parseMultilineString_next [OF m] by (simp add: entry_step_def)
  next
    case arr
    obtain b j' where m: "parseArray lines i ?ind vl = (b, j')" by (cases "parseArray lines i ?ind vl")
    then show ?thesis using a kv arr parseArray_next [OF arr(3) m] by (simp add: entry_step_def)
  next
    case sc
    then show ?thesis using a kv by (simp add: entry_step_def)
  next
    case sub
    then show ?thesis using a kv by (auto simp: entry_step_def)
  qed
qed

lemma nested_loop_mono: "nested_loop f lines base i obj = Some (ob, j) \<Longrightarrow> i \<le> j"
proof (induction f arbitrary: base i obj ob j)
  case 0
  then show ?case by simp
next
  case (Suc f)
  show ?case
  proof (cases "i < length lines \<and> \<not> blank_line (lines ! i) \<and> \<not> line_indent (lines ! i) \<le> base")
    case True
    then have u: "nested_loop (Suc f) lines base i obj =
      (case entry_step lines i of
         YSkip \<Rightarrow> nested_loop f lines base (Suc i) obj
       | YSet key v j \<Rightarrow> nested_loop f lines base j (obj_set obj key v)
       | YSub key ind \<Rightarrow>
           (case nested_loop f lines ind (Suc i) [] of
              None \<Rightarrow> None
            | Some (sub, j) \<Rightarrow> nested_loop f lines base j (obj_set obj key (JObj sub))))"
      by simp
    show ?thesis
    proof (cases "entry_step lines i")
      case YSkip
      then show ?thesis using u Suc by fastforce
    next
      case (YSet key v j')
      then show ?thesis using u Suc entry_step_next [OF YSet] by fastforce
    next
      case (YSub key ind)
      then obtain sub j1 where n: "nested_loop f lines ind (Suc i) [] = Some (sub, j1)"
        using u Suc.prems by (auto split: option.splits)
      then have "Suc i \<le> j1" by (rule Suc.IH)
      moreover have "j1 \<le> j" using u Suc.prems YSub n Suc.IH by simp
      ultimately show ?thesis by simp
    qed
  next
    case False
    then show ?thesis using Suc.prems by (auto split: if_splits dest!: Suc.IH)
  qed
qed

lemma nested_loop_total: "length lines - i < f \<Longrightarrow> nested_loop f lines base i obj \<noteq> None"
proof (induction f arbitrary: base i obj)
  case 0
  then show ?case by simp
next
  case (Suc f)
  show ?case
  proof (cases "i < length lines \<and> \<not> blank_line (lines ! i) \<and> \<not> line_indent (lines ! i) \<le> base")
    case True
    then have u: "nested_loop (Suc f) lines base i obj =
      (case entry_step lines i of
         YSkip \<Rightarrow> nested_loop f lines base (Suc i) obj
       | YSet key v j \<Rightarrow> nested_loop f lines base j (obj_set obj key v)
       | YSub key ind \<Rightarrow>
           (case nested_loop f lines ind (Suc i) [] of
              None \<Rightarrow> None
            | Some (sub, j) \<Rightarrow> nested_loop f lines base j (obj_set obj key (JObj sub))))"
      by simp
    have fi: "length lines - Suc i < f" using Suc.prems True by linarith
    show ?thesis
    proof (cases "entry_step lines i")
      case YSkip
      then show ?thesis using u Suc.IH [OF fi] by simp
    next
      case (YSet key v j)
      have "length lines - j < f" using entry_step_next [OF YSet] Suc.prems True by linarith
      then show ?thesis using u YSet Suc.IH by simp
    next
      case (YSub key ind)
      obtain sub j where n: "nested_loop f lines ind (Suc i) [] = Some (sub, j)"
        using Suc.IH [OF fi, of ind "[]"] by auto
      have "length lines - j < f" using nested_loop_mono [OF n] fi by linarith
      then show ?thesis using u YSub n Suc.IH by simp
    qed
  next
    case False
    then show ?thesis using Suc by (auto simp: diff_less_mono2 less_Suc_eq_le intro!: Suc.IH)
  qed
qed

lemma top_loop_total: "length lines - i < f \<Longrightarrow> top_loop f lines i vars \<noteq> None"
proof (induction f arbitrary: i vars)
  case 0
  then show ?case by simp
next
  case (Suc f)
  show ?case
  proof (cases "i < length lines \<and> \<not> blank_line (lines ! i)")
    case True
    then have u: "top_loop (Suc f) lines i vars =
      (case entry_step lines i of
         YSkip \<Rightarrow> top_loop f lines (Suc i) vars
       | YSet key v j \<Rightarrow> top_loop f lines j (obj_set vars key v)
       | YSub key ind \<Rightarrow>
           (case parseNestedObject f lines i ind of
              None \<Rightarrow> None
            | Some (sub, j) \<Rightarrow> top_loop f lines j (obj_set vars key (if sub \<noteq> [] then JObj sub else JStr []))))"
      by simp
    have fi: "length lines - Suc i < f" using Suc.prems True by linarith
    show ?thesis
    proof (cases "entry_step lines i")
      case YSkip
      then show ?thesis using u Suc.IH [OF fi] by simp
    next
      case (YSet key v j)
      have "length lines - j < f" using entry_step_next [OF YSet] Suc.prems True by linarith
      then show ?thesis using u YSet Suc.IH by simp
    next
      case (YSub key ind)
      obtain sub j where n: "parseNestedObject f lines i ind = Some (sub, j)"
        using nested_loop_total [OF fi, of ind "[]"] by (auto simp: parseNestedObject_def)
      have "length lines - j < f"
        using nested_loop_mono [of f lines ind "Suc i" "[]" sub j] n fi by (simp add: parseNestedObject_def)
      then show ?thesis using u YSub n Suc.IH by simp
    qed
  next
    case False
    then show ?thesis using Suc by (auto simp: less_Suc_eq_le intro!: Suc.IH)
  qed
qed

lemma parseYamlDirect_total: "\<exists>v. parseYamlDirect s = Some v"
  using top_loop_total [of "split_on nl s" 0 "Suc (length (split_on nl s))" "[]"]
  by (auto simp: parseYamlDirect_def Let_def)

lemma takeWhile_snoc_le: "\<not> P c \<Longrightarrow> length (takeWhile P (xs @ [c])) \<le> length xs"
  by (induction xs) auto

lemma trim_end_Cons: "\<not> is_ws c \<Longrightarrow> \<exists>u. trim_end (c # w) = c # u \<and> set u \<subseteq> set w"
proof -
  assume c: "\<not> is_ws c"
  let ?n = "length (takeWhile is_ws (rev (c # w)))"
  have n: "?n \<le> length w" using takeWhile_snoc_le [of is_ws c "rev w"] c by simp
  then have "trim_end (c # w) = take (length (c # w) - ?n) (c # w)"
    by (simp add: trim_end_def dropWhile_eq_drop rev_drop Suc_diff_le)
  moreover obtain m where "length (c # w) - ?n = Suc m" using n by (simp add: Suc_diff_le)
  ultimately show ?thesis by (auto dest: in_set_takeD)
qed

lemma item_line:
  assumes "CHR '':'' \<notin> set v"
  shows "\<not> blank_line (''  - '' @ v) \<and> line_indent (''  - '' @ v) = 2 \<and> key_value (js_trim (''  - '' @ v)) = None"
proof -
  have ts: "trim_start (''  - '' @ v) = CHR ''-'' # CHR '' '' # v" by (simp add: trim_start_def is_ws_def)
  obtain u where u: "trim_end (CHR ''-'' # CHR '' '' # v) = CHR ''-'' # u" "set u \<subseteq> set (CHR '' '' # v)"
    using trim_end_Cons [of "CHR ''-''" "CHR '' '' # v"] by (auto simp: is_ws_def)
  have t: "js_trim (''  - '' @ v) = CHR ''-'' # u" using ts u(1) by (simp add: js_trim_def)
  have "CHR '':'' \<notin> set (CHR ''-'' # u)" using u(2) assms by auto
  then have "index_of CHR '':'' (CHR ''-'' # u) = None" by (induction u) auto
  then show ?thesis using t ts
    by (simp add: blank_line_def line_indent_def key_value_def starts_with_def Let_def)
qed

lemma nested_items:
  assumes "\<forall>j. i \<le> j \<and> j < length lines \<longrightarrow> (\<exists>v. lines ! j = ''  - '' @ v \<and> CHR '':'' \<notin> set v)"
    and "length lines - i < f" and "i \<le> length lines"
  shows "nested_loop f lines 0 i [] = Some ([], length lines)"
  using assms
proof (induction f arbitrary: i)
  case (Suc f)
  show ?case
  proof (cases "i < length lines")
    case True
    then obtain v where v: "lines ! i = ''  - '' @ v" "CHR '':'' \<notin> set v" using Suc.prems(1) by blast
    have "entry_step lines i = YSkip" using item_line [OF v(2)] v(1) by (simp add: entry_step_def Let_def)
    moreover have "nested_loop f lines 0 (Suc i) [] = Some ([], length lines)"
      using Suc.IH [of "Suc i"] Suc.prems True by auto
    ultimately show ?thesis using item_line [OF v(2)] v(1) True by simp
  next
    case False
    then show ?thesis using Suc.prems(3) by simp
  qed
qed simp

text \<open>C32: In YAML, \<open>key:\<close> followed by indented \<open>- item\<close> lines is a sequence. The
  reader tests for an empty value (line 433) before it tests for a following item
  (line 441), so the sequence branch is never taken for it: the nested-map reader skips
  the item lines, which have no colon, and the key is stored as the empty string: for
  every key and every list of items.\<close>

theorem yaml_block_sequence_lost:
  assumes "k \<noteq> []" and "\<not> is_ws (hd k)" and "\<not> is_ws (last k)" and "hd k \<noteq> CHR ''#''"
    and "CHR '':'' \<notin> set k" and "nl \<notin> set k" and "\<forall>v \<in> set vs. CHR '':'' \<notin> set v \<and> nl \<notin> set v"
  shows "parseYamlDirect (join_with [nl] ((k @ '':'') # map (\<lambda>v. ''  - '' @ v) vs)) = Some (JObj [(k, JStr [])])"
proof -
  let ?lines = "(k @ '':'') # map (\<lambda>v. ''  - '' @ v) vs"
  have split: "split_on nl (join_with [nl] ?lines) = ?lines"
    by (rule split_on_join_with) (use assms(6,7) in auto)
  obtain c r where kc: "k = c # r" using assms(1) by (cases k) auto
  have tk: "js_trim (k @ '':'') = k @ '':''" "js_trim k = k"
    using js_trim_indent [of "[]" "k @ '':''" c "r @ '':''"] js_trim_indent [of "[]" k c r] assms(2,3) kc
    by (simp_all add: is_ws_def)
  have ind0: "line_indent (k @ '':'') = 0" using kc assms(2) by (simp add: line_indent_def trim_start_def)
  have ix: "index_of CHR '':'' (k @ '':'') = Some (length k)" using assms(5) index_of_append_notin [of "CHR '':''" k "[]"] by simp
  have kv: "key_value (k @ '':'') = Some (k, [])" using ix tk(2) assms(1) by (simp add: key_value_def js_trim_def trim_start_def trim_end_def)
  have nb: "\<not> blank_line (k @ '':'')" using tk(1) kc assms(4) by (simp add: blank_line_def starts_with_def)
  define lines where "lines = ?lines"
  have step: "entry_step lines 0 = YSub k 0" using tk(1) kv ind0 by (simp add: entry_step_def lines_def)
  have nb0: "\<not> blank_line (lines ! 0)" using nb by (simp add: lines_def)
  have items: "\<forall>j. Suc 0 \<le> j \<and> j < length lines \<longrightarrow> (\<exists>v. lines ! j = ''  - '' @ v \<and> CHR '':'' \<notin> set v)"
    using assms(7) by (auto simp: lines_def nth_Cons' split: if_splits)
  have len: "length lines = Suc (length vs)" by (simp add: lines_def)
  have "nested_loop (length lines) lines 0 (Suc 0) [] = Some ([], length lines)"
    by (rule nested_items [OF items]) (simp_all add: len)
  then have nest: "parseNestedObject (length lines) lines 0 0 = Some ([], length lines)"
    unfolding parseNestedObject_def .
  have top: "top_loop (Suc (length lines)) lines 0 [] = Some [(k, JStr [])]"
    using nb0 step nest len by (simp del: nested_loop.simps)
  have sp: "split_on nl (join_with [nl] ?lines) = lines" using split by (simp only: lines_def)
  show ?thesis unfolding parseYamlDirect_def Let_def sp using top by (simp del: top_loop.simps)
qed


text \<open>A literal block scalar keeps its line breaks and ends at the first line that is
  not indented deeper than its key; the key after it is read normally.\<close>

theorem yaml_block_scalar:
  "parseYamlDirect (join_with [nl] [''bio: |'', ''  line one'', ''  line two'', ''mood: calm'']) =
   Some (JObj [(''bio'', JStr (''line one'' @ [nl] @ ''line two'')), (''mood'', JStr ''calm'')])"
  by code_simp

theorem yaml_block_sequence_lost_witness:
  "parseYamlDirect (join_with [nl] [''items:'', ''  - a'', ''  - b'']) = Some (JObj [(''items'', JStr [])])"
proof -
  have h: "''items'' \<noteq> []" "\<not> is_ws (hd ''items'')" "\<not> is_ws (last ''items'')" "hd ''items'' \<noteq> CHR ''#''"
    "CHR '':'' \<notin> set ''items''" "nl \<notin> set ''items''" "\<forall>v \<in> set [''a'', ''b'']. CHR '':'' \<notin> set v \<and> nl \<notin> set v"
    by (simp_all add: is_ws_def)
  show ?thesis using yaml_block_sequence_lost [OF h] by simp
qed

end
