(* ===== verification/Regex.thy ===== *)
theory Regex
  imports Prelude
begin

text \<open>
  The regular expressions of \<open>src/template-editor.js\<close>. The RegExp engine is the
  platform's; the development fixes its interface: \<open>exec\<close> of a global regular
  expression from \<open>lastIndex = i\<close> returns the leftmost match at or after \<open>i\<close>
  as its start, its end and its capture groups \<open>match[1]\<close>, \<open>match[2]\<close>, ...
  (\<open>None\<close> for a group that did not participate, i.e. \<open>undefined\<close>), or no match.
  The loop \<open>while ((match = regex.exec(content)))\<close> of \<open>extractRegex\<close>,
  \<open>extractFromCodeBlocks\<close> and the two XML extractors continues from the end of each
  match; \<open>exec\<close> does not advance past an empty match, so the loop may not end:
  \<open>exec_all\<close> is a \<open>partial_function (option)\<close>, \<open>None\<close> being divergence.

  The patterns the code writes out are given as scanners with the leftmost,
  backtracking semantics of the engine:
  \<^item> \<open>tag_exec\<close>: the default tag grammar \<open>\[([^\]]+)\]([\s\S]*?)\[\/\1\]\<close>
    (line 21, fallback of line 109);
  \<^item> \<open>fence_exec\<close>: \<open>```LANG\s*\n([\s\S]*?)(?:\n```|$)\<close> with flags \<open>gi\<close>
    (line 213), for \<open>LANG\<close> = \<open>json\<close> and \<open>ya?ml\<close>;
  \<^item> \<open>incomplete_xml_exec\<close>: \<open><[^>]+>([^<]*(?:\{[\s\S]*|\w+\s*:[\s\S]*))\<close>
    (line 138);
  \<^item> \<open>xml_wrapper_exec\<close>: \<open><[^>]+>([\s\S]*?)<\/[^>]+>\<close> (line 170).
\<close>

type_synonym groups = "string option list"

type_synonym rx_exec = "string \<Rightarrow> nat \<Rightarrow> (nat \<times> nat \<times> groups) option"

section \<open>The global exec loop\<close>

partial_function (option) exec_all :: "rx_exec \<Rightarrow> string \<Rightarrow> nat \<Rightarrow> groups list option" where
  "exec_all rx s i =
     (case rx s i of
        None \<Rightarrow> Some []
      | Some (st, en, gs) \<Rightarrow> Option.bind (exec_all rx s en) (\<lambda>ms. Some (gs # ms)))"

declare exec_all.simps [code]

text \<open>What an engine's \<open>exec\<close> guarantees, and the extra property that makes the loop end.\<close>

definition rx_sound :: "rx_exec \<Rightarrow> bool" where
  "rx_sound rx \<longleftrightarrow> (\<forall>s i st en gs. rx s i = Some (st, en, gs) \<longrightarrow> i \<le> st \<and> st \<le> en \<and> en \<le> length s)"

definition rx_nonempty :: "rx_exec \<Rightarrow> bool" where
  "rx_nonempty rx \<longleftrightarrow> (\<forall>s i st en gs. rx s i = Some (st, en, gs) \<longrightarrow> st < en)"

section \<open>Leftmost search\<close>

text \<open>The first position \<open>i, i+1, ..., i+n-1\<close> at which \<open>f\<close> matches.\<close>

fun first_from :: "(nat \<Rightarrow> 'a option) \<Rightarrow> nat \<Rightarrow> nat \<Rightarrow> (nat \<times> 'a) option" where
  "first_from f i 0 = None"
| "first_from f i (Suc n) = (case f i of Some a \<Rightarrow> Some (i, a) | None \<Rightarrow> first_from f (Suc i) n)"

text \<open>A global \<open>exec\<close> from a matcher at a fixed position: positions \<open>i\<close> to \<open>length s\<close>.\<close>

definition exec_of :: "(string \<Rightarrow> nat \<Rightarrow> (nat \<times> groups) option) \<Rightarrow> rx_exec" where
  "exec_of m s i =
     (case first_from (m s) i (Suc (length s) - i) of
        None \<Rightarrow> None
      | Some (st, en, gs) \<Rightarrow> Some (st, en, gs))"

text \<open>A matcher at a fixed position consumes at least one character and stays in the input.\<close>

definition matcher_ok :: "(string \<Rightarrow> nat \<Rightarrow> (nat \<times> groups) option) \<Rightarrow> bool" where
  "matcher_ok m \<longleftrightarrow> (\<forall>s st en gs. m s st = Some (en, gs) \<longrightarrow> st < en \<and> en \<le> length s)"

section \<open>The default tag grammar\<close>

text \<open>
  \<open>\[([^\]]+)\]([\s\S]*?)\[\/\1\]\<close> at position \<open>st\<close>: a \<open>[\<close>, the name up to
  the next \<open>]\<close> (non-empty; a shorter name cannot be followed by \<open>]\<close>), then the
  shortest body followed by \<open>[/name]\<close>.
\<close>

definition tag_at :: "string \<Rightarrow> nat \<Rightarrow> (nat \<times> groups) option" where
  "tag_at s st =
     (case drop st s of
        [] \<Rightarrow> None
      | c # r \<Rightarrow>
          if c \<noteq> CHR ''['' then None else
          (case index_of CHR '']'' r of
             None \<Rightarrow> None
           | Some k \<Rightarrow>
               if k = 0 then None else
               let name = take k r; body0 = drop (Suc k) r; closing = ''[/'' @ name @ '']''
               in (case find_sub body0 closing of
                     None \<Rightarrow> None
                   | Some j \<Rightarrow> Some (st + Suc k + Suc j + length closing, [Some name, Some (take j body0)]))))"

definition tag_exec :: rx_exec where
  "tag_exec = exec_of tag_at"

section \<open>Fenced code blocks\<close>

text \<open>ASCII case folding of the \<open>i\<close> flag.\<close>

definition ascii_lower :: "char \<Rightarrow> char" where
  "ascii_lower c = (if (65::nat) \<le> of_char c \<and> of_char c \<le> (90::nat) then char_of (of_char c + (32::nat)) else c)"

definition ci_prefix :: "string \<Rightarrow> string \<Rightarrow> bool" where
  "ci_prefix s w \<longleftrightarrow> length w \<le> length s \<and> map ascii_lower (take (length w) s) = w"

text \<open>
  The alternatives a language pattern can match, in the engine's order:
  \<open>json\<close> is one word, \<open>ya?ml\<close> tries \<open>yaml\<close> before \<open>yml\<close>.
\<close>

datatype fence_lang = FJson | FYaml

definition lang_words :: "fence_lang \<Rightarrow> string list" where
  "lang_words l = (case l of FJson \<Rightarrow> [''json''] | FYaml \<Rightarrow> [''yaml'', ''yml''])"

fun last_index_of :: "char \<Rightarrow> string \<Rightarrow> nat option" where
  "last_index_of c [] = None"
| "last_index_of c (x # xs) =
     (case last_index_of c xs of Some k \<Rightarrow> Some (Suc k) | None \<Rightarrow> if x = c then Some 0 else None)"

text \<open>
  \<open>\s*\n\<close> from position \<open>p\<close>: the greedy \<open>\s*\<close> backs off to the last line feed
  of the whitespace run; the body starts after it.
\<close>

definition body_start :: "string \<Rightarrow> nat \<Rightarrow> nat option" where
  "body_start s p = map_option (\<lambda>j. p + Suc j) (last_index_of nl (takeWhile is_ws (drop p s)))"

fun first_some :: "('a \<Rightarrow> 'b option) \<Rightarrow> 'a list \<Rightarrow> 'b option" where
  "first_some f [] = None"
| "first_some f (x # xs) = (case f x of Some b \<Rightarrow> Some b | None \<Rightarrow> first_some f xs)"

text \<open>
  At position \<open>st\<close>: three backticks, the language word, \<open>\s*\n\<close>, then the shortest
  body followed by a line feed and three backticks, or else by the end of the input
  (\<open>$\<close> without the \<open>m\<close> flag).
\<close>

definition fence_word_at :: "string \<Rightarrow> nat \<Rightarrow> string \<Rightarrow> (nat \<times> groups) option" where
  "fence_word_at s st w =
     (if ci_prefix (drop (st + 3) s) w then
        (case body_start s (st + 3 + length w) of
           None \<Rightarrow> None
         | Some b \<Rightarrow>
             let rest = drop b s in
             (case find_sub rest (nl # ''```'') of
                Some m \<Rightarrow> Some (b + m + 4, [Some (take m rest)])
              | None \<Rightarrow> Some (length s, [Some rest])))
      else None)"

definition fence_at :: "fence_lang \<Rightarrow> string \<Rightarrow> nat \<Rightarrow> (nat \<times> groups) option" where
  "fence_at l s st =
     (if take 3 (drop st s) \<noteq> ''```'' then None else first_some (fence_word_at s st) (lang_words l))"

definition fence_exec :: "fence_lang \<Rightarrow> rx_exec" where
  "fence_exec l = exec_of (fence_at l)"

section \<open>Tags wrapping JSON or YAML\<close>

text \<open>\<open>\{[\s\S]*\<close> or \<open>\w+\s*:[\s\S]*\<close> at the head of \<open>t\<close>.\<close>

definition obj_or_key_at :: "string \<Rightarrow> bool" where
  "obj_or_key_at t \<longleftrightarrow>
     (case t of
        [] \<Rightarrow> False
      | c # _ \<Rightarrow> c = CHR ''{'' \<or>
                 (is_word c \<and> (case dropWhile is_ws (dropWhile is_word t) of [] \<Rightarrow> False | d # _ \<Rightarrow> d = CHR '':'')))"

text \<open>
  \<open><[^>]+>([^<]*(?:\{[\s\S]*|\w+\s*:[\s\S]*))\<close> at \<open>st\<close>: an opening tag, then
  some point of the following run of non-\<open><\<close> characters where an object or a key
  starts; the group runs to the end of the input.
\<close>

definition incomplete_xml_at :: "string \<Rightarrow> nat \<Rightarrow> (nat \<times> groups) option" where
  "incomplete_xml_at s st =
     (case drop st s of
        [] \<Rightarrow> None
      | c # r \<Rightarrow>
          if c \<noteq> CHR ''<'' then None else
          (case index_of CHR ''>'' r of
             None \<Rightarrow> None
           | Some k \<Rightarrow>
               if k = 0 then None else
               let tail = drop (st + Suc (Suc k)) s;
                   run = takeWhile (\<lambda>x. x \<noteq> CHR ''<'') tail
               in if list_ex (\<lambda>j. obj_or_key_at (drop j tail)) [0..<length run]
                  then Some (length s, [Some tail]) else None))"

definition incomplete_xml_exec :: rx_exec where
  "incomplete_xml_exec = exec_of incomplete_xml_at"

text \<open>\<open><\/[^>]+>\<close> at \<open>q\<close>: its end.\<close>

definition close_tag_at :: "string \<Rightarrow> nat \<Rightarrow> nat option" where
  "close_tag_at s q =
     (if take 2 (drop q s) = ''</'' then
        (case index_of CHR ''>'' (drop (q + 2) s) of
           None \<Rightarrow> None
         | Some k \<Rightarrow> if k = 0 then None else Some (q + 2 + Suc k))
      else None)"

text \<open>\<open><[^>]+>([\s\S]*?)<\/[^>]+>\<close> at \<open>st\<close>: the shortest body before a closing tag.\<close>

definition xml_wrapper_at :: "string \<Rightarrow> nat \<Rightarrow> (nat \<times> groups) option" where
  "xml_wrapper_at s st =
     (case drop st s of
        [] \<Rightarrow> None
      | c # r \<Rightarrow>
          if c \<noteq> CHR ''<'' then None else
          (case index_of CHR ''>'' r of
             None \<Rightarrow> None
           | Some k \<Rightarrow>
               if k = 0 then None else
               let p = st + Suc (Suc k)
               in (case first_from (close_tag_at s) p (Suc (length s) - p) of
                     None \<Rightarrow> None
                   | Some (q, en) \<Rightarrow> Some (en, [Some (take (q - p) (drop p s))]))))"

definition xml_wrapper_exec :: rx_exec where
  "xml_wrapper_exec = exec_of xml_wrapper_at"

section \<open>Lemmas\<close>

lemma first_from_Some:
  "first_from f i n = Some (st, a) \<Longrightarrow> i \<le> st \<and> st < i + n \<and> f st = Some a \<and> (\<forall>j. i \<le> j \<and> j < st \<longrightarrow> f j = None)"
proof (induction n arbitrary: i)
  case 0
  then show ?case by simp
next
  case (Suc n)
  show ?case
  proof (cases "f i")
    case None
    with Suc.prems have "first_from f (Suc i) n = Some (st, a)" by simp
    with Suc.IH have "Suc i \<le> st \<and> st < Suc i + n \<and> f st = Some a \<and> (\<forall>j. Suc i \<le> j \<and> j < st \<longrightarrow> f j = None)"
      by blast
    with None show ?thesis by (auto simp: le_Suc_eq Suc_le_eq) (metis le_neq_implies_less)
  next
    case (Some b)
    with Suc.prems show ?thesis by auto
  qed
qed

lemma exec_of_ok: "matcher_ok m \<Longrightarrow> rx_sound (exec_of m) \<and> rx_nonempty (exec_of m)"
  unfolding rx_sound_def rx_nonempty_def exec_of_def matcher_ok_def
  by (auto split: option.splits dest!: first_from_Some) fastforce+

lemma tag_at_ok: "matcher_ok tag_at"
  unfolding matcher_ok_def
proof (intro allI impI)
  fix s st en gs
  assume h: "tag_at s st = Some (en, gs)"
  then obtain r k j where d: "drop st s = CHR ''['' # r" and k: "index_of CHR '']'' r = Some k"
    and j: "find_sub (drop (Suc k) r) (''[/'' @ take k r @ '']'') = Some j"
    and en: "en = st + Suc k + Suc j + length (''[/'' @ take k r @ '']'')"
    by (auto simp: tag_at_def Let_def split: list.splits if_splits option.splits)
  have "k < length r" using index_of_Some [OF k] by simp
  moreover have "j + length (''[/'' @ take k r @ '']'') \<le> length (drop (Suc k) r)"
    using find_sub_bound [OF j] .
  moreover have "length r + st < length s"
    using d by (metis add.commute length_Cons length_drop less_diff_conv lessI)
  ultimately show "st < en \<and> en \<le> length s"
    using en by simp
qed

lemma exec_all_total:
  assumes "rx_sound rx" and "rx_nonempty rx"
  shows "\<exists>ms. exec_all rx s i = Some ms"
proof (induction "length s - i" arbitrary: i rule: less_induct)
  case less
  show ?case
  proof (cases "rx s i")
    case None
    then show ?thesis by (simp add: exec_all.simps)
  next
    case (Some x)
    obtain st en gs where x: "x = (st, en, gs)" by (cases x)
    have "i \<le> st \<and> st \<le> en \<and> en \<le> length s"
      using assms(1) Some x unfolding rx_sound_def by blast
    moreover have "st < en"
      using assms(2) Some x unfolding rx_nonempty_def by blast
    ultimately have "length s - en < length s - i" by linarith
    then obtain ms where "exec_all rx s en = Some ms" using less by blast
    then show ?thesis using Some x by (simp add: exec_all.simps)
  qed
qed

lemma exec_all_diverges:
  assumes "rx s i = Some (i, i, gs)"
  shows "exec_all rx s i = None"
proof (rule ccontr)
  assume "exec_all rx s i \<noteq> None"
  then obtain ms where ret: "exec_all rx s i = Some ms" by blast
  have "\<forall>gs. rx s i \<noteq> Some (i, i, gs)"
  proof (rule exec_all.raw_induct [where P = "\<lambda>rx s i ms. \<forall>gs. rx s i \<noteq> Some (i, i, gs)", OF _ ret])
    fix f :: "rx_exec \<Rightarrow> string \<Rightarrow> nat \<Rightarrow> groups list option" and rx s i ms
    assume IH: "\<And>rx s i ms. f rx s i = Some ms \<Longrightarrow> \<forall>gs. rx s i \<noteq> Some (i, i, gs)"
      and eq: "(case rx s i of None \<Rightarrow> Some []
                | Some (st, en, gs) \<Rightarrow> Option.bind (f rx s en) (\<lambda>ms. Some (gs # ms))) = Some ms"
    show "\<forall>gs. rx s i \<noteq> Some (i, i, gs)"
    proof (intro allI notI)
      fix gs
      assume r: "rx s i = Some (i, i, gs)"
      with eq obtain ms' where "f rx s i = Some ms'" by (auto split: Option.bind_splits)
      with IH r show False by blast
    qed
  qed
  with assms show False by blast
qed


lemma last_index_of_Some: "last_index_of c s = Some k \<Longrightarrow> k < length s"
  by (induction s arbitrary: k) (auto split: option.splits if_splits)

lemma first_some_Some: "first_some f xs = Some b \<Longrightarrow> \<exists>x \<in> set xs. f x = Some b"
  by (induction xs) (auto split: option.splits)

lemma length_takeWhile_drop: "length (takeWhile P (drop p s)) + p \<le> length s \<or> p > length s"
  by (metis add.commute le_add_diff_inverse length_drop length_takeWhile_le linorder_not_less nat_add_left_cancel_le)

lemma fence_word_at_ok: "fence_word_at s st w = Some (en, gs) \<Longrightarrow> st < en \<and> en \<le> length s"
proof -
  assume h: "fence_word_at s st w = Some (en, gs)"
  then obtain b where b: "body_start s (st + 3 + length w) = Some b"
    by (auto simp: fence_word_at_def split: if_splits option.splits)
  obtain j where j: "last_index_of nl (takeWhile is_ws (drop (st + 3 + length w) s)) = Some j"
    and bj: "b = st + 3 + length w + Suc j"
    using b by (auto simp: body_start_def)
  have "j < length (takeWhile is_ws (drop (st + 3 + length w) s))"
    using last_index_of_Some [OF j] .
  then have bl: "b \<le> length s" and stb: "st < b"
    using bj length_takeWhile_le [of is_ws "drop (st + 3 + length w) s"] by auto
  show "st < en \<and> en \<le> length s"
  proof (cases "find_sub (drop b s) (nl # ''```'')")
    case None
    with h b bl stb show ?thesis by (auto simp: fence_word_at_def split: if_splits)
  next
    case (Some m)
    with h b have "en = b + m + 4" by (auto simp: fence_word_at_def split: if_splits)
    moreover have "m + 4 \<le> length (drop b s)" using find_sub_bound [OF Some] by simp
    ultimately show ?thesis using bl stb by simp
  qed
qed

lemma fence_at_ok: "matcher_ok (fence_at l)"
  unfolding matcher_ok_def fence_at_def
  by (auto split: if_splits dest!: first_some_Some fence_word_at_ok)


lemma drop_Cons_less: "drop st s = c # r \<Longrightarrow> st < length s"
  by (metis Cons_nth_drop_Suc drop_all list.distinct(1) not_le_imp_less)

lemma incomplete_xml_at_ok: "matcher_ok incomplete_xml_at"
  unfolding matcher_ok_def incomplete_xml_at_def
  by (auto simp: Let_def split: list.splits if_splits option.splits dest: drop_Cons_less)

lemma close_tag_at_ok: "close_tag_at s q = Some en \<Longrightarrow> q < en \<and> en \<le> length s"
  by (auto simp: close_tag_at_def split: if_splits option.splits dest!: index_of_Some)

lemma xml_wrapper_at_ok: "matcher_ok xml_wrapper_at"
  unfolding matcher_ok_def
proof (intro allI impI)
  fix s st en gs
  assume h: "xml_wrapper_at s st = Some (en, gs)"
  then obtain c r k q where d: "drop st s = c # r" and k: "index_of CHR ''>'' r = Some k"
    and q: "first_from (close_tag_at s) (st + Suc (Suc k)) (Suc (length s) - (st + Suc (Suc k))) = Some (q, en)"
    by (auto simp: xml_wrapper_at_def Let_def split: list.splits if_splits option.splits)
  from first_from_Some [OF q] have "st + Suc (Suc k) \<le> q" and "close_tag_at s q = Some en" by auto
  with close_tag_at_ok show "st < en \<and> en \<le> length s" by fastforce
qed

end
