(* ===== verification/Extract.thy ===== *)
theory Extract
  imports PartialJson Yaml Regex
begin

text \<open>
  \<open>TemplateProcessor.extractVars\<close> (\<open>src/template-editor.js\<close>, lines 115--133)
  and its strategies, in the order the code tries them: the variable regular expression
  (\<open>extractRegex\<close>, 200--209, with \<open>getRegex\<close>, 105--113), \<open>json\<close> code blocks
  (\<open>extractFromCodeBlocks\<close>, 211--222), JSON or YAML after an unclosed XML tag
  (\<open>extractJsonFromIncompleteXml\<close>, 135--166), the whole text as JSON, \<open>yaml\<close> code
  blocks, the whole text as YAML, and JSON or YAML inside an XML element
  (\<open>extractJsonFromXmlWrapper\<close>, 168--198). The first strategy whose result is truthy
  and has an own key wins.

  An extraction is \<open>(js_error + jval) option\<close>: \<open>None\<close> when a loop does not end,
  \<open>Inl TypeError\<close> when the code throws, \<open>JNull\<close> for a strategy's \<open>null\<close>. The
  regex loop is a \<open>partial_function (option)\<close> interleaving \<open>exec\<close> with the
  assignment \<open>vars[match[1].trim()] = match[2].trim()\<close>, which throws when a group
  did not participate. \<open>getRegex\<close> is parametrised by the engine's compiler
  (\<open>None\<close> being a \<open>SyntaxError\<close>); its cache keeps one compiled object per pattern
  and has no effect on the results, since \<open>lastIndex\<close> is reset before each loop and
  is zero again when the loop ends.
\<close>

datatype js_error = TypeError

type_synonym extraction = "(js_error + jval) option"

text \<open>\<open>match[n]\<close>: \<open>None\<close> is \<open>undefined\<close>, also beyond the last group.\<close>

definition grp :: "groups \<Rightarrow> nat \<Rightarrow> string option" where
  "grp gs n = (if 0 < n \<and> n \<le> length gs then gs ! (n - 1) else None)"

definition getRegex :: "(string \<Rightarrow> rx_exec option) \<Rightarrow> string \<Rightarrow> rx_exec" where
  "getRegex compile pattern = (case compile pattern of Some rx \<Rightarrow> rx | None \<Rightarrow> tag_exec)"

text \<open>\<open>Object.keys(vars).length ? vars : null\<close>\<close>

definition result_obj :: "jobj \<Rightarrow> jval" where
  "result_obj vars = (if vars = [] then JNull else JObj vars)"

partial_function (option) regex_loop :: "rx_exec \<Rightarrow> string \<Rightarrow> nat \<Rightarrow> jobj \<Rightarrow> (js_error + jobj) option" where
  "regex_loop rx s i vars =
     (case rx s i of
        None \<Rightarrow> Some (Inr vars)
      | Some (st, en, gs) \<Rightarrow>
          (case (grp gs 1, grp gs 2) of
             (Some k, Some v) \<Rightarrow> regex_loop rx s en (obj_set vars (js_trim k) (JStr (js_trim v)))
           | _ \<Rightarrow> Some (Inl TypeError)))"

declare regex_loop.simps [code]

definition extractRegex :: "rx_exec \<Rightarrow> string \<Rightarrow> extraction" where
  "extractRegex rx content = map_option (map_sum id result_obj) (regex_loop rx content 0 [])"

text \<open>\<open>Object.assign(vars, parsed)\<close> when \<open>parsed\<close> is truthy.\<close>

definition assign_truthy :: "jobj \<Rightarrow> jval \<Rightarrow> jobj" where
  "assign_truthy vars v = (if truthy v then obj_assign vars (own_entries v) else vars)"

text \<open>\<open>if (v && Object.keys(v).length) Object.assign(vars, v)\<close>\<close>

definition assign_nonempty :: "jobj \<Rightarrow> jval \<Rightarrow> jobj" where
  "assign_nonempty vars v = (if nonempty v then obj_assign vars (own_entries v) else vars)"

fun fold_opt :: "('b \<Rightarrow> 'a \<Rightarrow> 'b option) \<Rightarrow> 'b \<Rightarrow> 'a list \<Rightarrow> 'b option" where
  "fold_opt g b [] = Some b"
| "fold_opt g b (x # xs) = Option.bind (g b x) (\<lambda>b'. fold_opt g b' xs)"

text \<open>A parser returns \<open>None\<close> only when its fuel runs out (which it never does).\<close>

type_synonym parser = "string \<Rightarrow> jval option"

definition json_parser :: parser where
  "json_parser s = Some (parseJsonDirect s)"

definition code_block :: "parser \<Rightarrow> jobj \<Rightarrow> groups \<Rightarrow> jobj option" where
  "code_block parser vars gs =
     (case grp gs 1 of
        None \<Rightarrow> Some vars
      | Some b \<Rightarrow> map_option (assign_truthy vars) (parser (js_trim b)))"

definition extractFromCodeBlocks :: "fence_lang \<Rightarrow> parser \<Rightarrow> string \<Rightarrow> jval option" where
  "extractFromCodeBlocks l parser content =
     Option.bind (exec_all (fence_exec l) content 0)
       (\<lambda>ms. map_option result_obj (fold_opt (code_block parser) [] ms))"

text \<open>The body of the loops of lines 141--163 and 173--195 for one inner text:
  \<open>json_ok\<close> is the test before the JSON attempt.\<close>

definition xml_inner :: "(string \<Rightarrow> bool) \<Rightarrow> jobj \<Rightarrow> groups \<Rightarrow> jobj option" where
  "xml_inner json_ok vars gs =
     (case map_option js_trim (grp gs 1) of
        None \<Rightarrow> Some vars
      | Some inner \<Rightarrow>
          if inner = [] then Some vars
          else if json_ok inner \<and> nonempty (parseJsonDirect inner) then
            Some (obj_assign vars (own_entries (parseJsonDirect inner)))
          else if isYamlFormat inner then map_option (assign_nonempty vars) (parseYamlDirect inner)
          else Some vars)"

definition extractJsonFromIncompleteXml :: "string \<Rightarrow> jval option" where
  "extractJsonFromIncompleteXml content =
     Option.bind (exec_all incomplete_xml_exec content 0)
       (\<lambda>ms. map_option result_obj (fold_opt (xml_inner (\<lambda>t. starts_with t ''{'')) [] ms))"

definition extractJsonFromXmlWrapper :: "string \<Rightarrow> jval option" where
  "extractJsonFromXmlWrapper content =
     Option.bind (exec_all xml_wrapper_exec content 0)
       (\<lambda>ms. map_option result_obj (fold_opt (xml_inner (\<lambda>t. starts_with t ''{'' \<and> contains t ''}'')) [] ms))"

text \<open>One step of the loop of lines 128--131: a thrown error or a divergence ends the
  loop, a truthy result with an own key is returned, anything else passes on.\<close>

definition try_next :: "extraction \<Rightarrow> extraction \<Rightarrow> extraction" where
  "try_next r rest =
     (case r of
        None \<Rightarrow> None
      | Some (Inl e) \<Rightarrow> Some (Inl e)
      | Some (Inr v) \<Rightarrow> if nonempty v then Some (Inr v) else rest)"

definition yaml_parser :: parser where
  "yaml_parser s = parseYamlDirect s"

definition extractVars :: "rx_exec \<Rightarrow> string \<Rightarrow> extraction" where
  "extractVars rx content =
     (if content = [] then Some (Inr (JObj [])) else
      try_next (extractRegex rx content)
      (try_next (map_option Inr (extractFromCodeBlocks FJson json_parser content))
      (try_next (map_option Inr (extractJsonFromIncompleteXml content))
      (try_next (Some (Inr (if isJsonFormat content then parseJsonDirect content else JNull)))
      (try_next (map_option Inr (extractFromCodeBlocks FYaml yaml_parser content))
      (try_next (map_option Inr (if isYamlFormat content then parseYamlDirect content else Some JNull))
      (try_next (map_option Inr (extractJsonFromXmlWrapper content))
      (Some (Inr (JObj []))))))))))"

text \<open>What the theorems below assume of a custom expression: every match has its two
  groups; and the fold of all matches that the loop computes when they do.\<close>

definition rx_groups :: "rx_exec \<Rightarrow> bool" where
  "rx_groups rx \<longleftrightarrow> (\<forall>s i st en gs. rx s i = Some (st, en, gs) \<longrightarrow> grp gs 1 \<noteq> None \<and> grp gs 2 \<noteq> None)"

definition add_match :: "jobj \<Rightarrow> groups \<Rightarrow> jobj" where
  "add_match vars gs =
     (case (grp gs 1, grp gs 2) of
        (Some k, Some v) \<Rightarrow> obj_set vars (js_trim k) (JStr (js_trim v))
      | _ \<Rightarrow> vars)"

text \<open>A message made of default tags: each item is the text before a tag (no \<open>[\<close>),
  the tag's name (non-empty, no \<open>]\<close>) and its value (no \<open>[\<close>).\<close>

definition tag_text :: "string \<times> string \<times> string \<Rightarrow> string" where
  "tag_text x = (case x of (p, k, v) \<Rightarrow> p @ ''['' @ k @ '']'' @ v @ ''[/'' @ k @ '']'')"

definition tag_ok :: "string \<times> string \<times> string \<Rightarrow> bool" where
  "tag_ok x \<longleftrightarrow> (case x of (p, k, v) \<Rightarrow>
     CHR ''['' \<notin> set p \<and> k \<noteq> [] \<and> CHR '']'' \<notin> set k \<and> CHR ''['' \<notin> set v)"

section \<open>Lemmas\<close>



lemma regex_loop_refines:
  assumes "rx_sound rx" and "rx_nonempty rx" and "rx_groups rx"
  shows "regex_loop rx s i vars = map_option (\<lambda>ms. Inr (foldl add_match vars ms)) (exec_all rx s i)"
proof (induction "length s - i" arbitrary: i vars rule: less_induct)
  case less
  show ?case
  proof (cases "rx s i")
    case None
    then show ?thesis by (simp add: regex_loop.simps exec_all.simps)
  next
    case (Some x)
    obtain st en gs where x: "x = (st, en, gs)" by (cases x)
    have "i \<le> st \<and> st \<le> en \<and> en \<le> length s" "st < en"
      using assms(1,2) Some x unfolding rx_sound_def rx_nonempty_def by blast+
    then have lt: "length s - en < length s - i" by linarith
    obtain k v where g: "grp gs 1 = Some k" "grp gs 2 = Some v"
      using assms(3) Some x unfolding rx_groups_def by blast
    have "regex_loop rx s i vars = regex_loop rx s en (add_match vars gs)"
      using Some x g by (simp add: regex_loop.simps add_match_def)
    also have "\<dots> = map_option (\<lambda>ms. Inr (foldl add_match (add_match vars gs) ms)) (exec_all rx s en)"
      using less [OF lt] .
    also have "\<dots> = map_option (\<lambda>ms. Inr (foldl add_match vars ms)) (exec_all rx s i)"
      using Some x by (cases "exec_all rx s en") (simp_all add: exec_all.simps)
    finally show ?thesis .
  qed
qed

lemma regex_loop_type_error:
  "rx s i = Some (st, en, gs) \<Longrightarrow> grp gs 1 = None \<or> grp gs 2 = None \<Longrightarrow> regex_loop rx s i vars = Some (Inl TypeError)"
  by (subst regex_loop.simps) (auto split: option.splits)

lemma regex_loop_diverges:
  assumes "rx s i = Some (i, i, gs)" and "grp gs 1 = Some k" and "grp gs 2 = Some v"
  shows "regex_loop rx s i vars = None"
proof (rule ccontr)
  assume "regex_loop rx s i vars \<noteq> None"
  then obtain r where ret: "regex_loop rx s i vars = Some r" by blast
  have "\<not> (\<exists>gs k v. rx s i = Some (i, i, gs) \<and> grp gs 1 = Some k \<and> grp gs 2 = Some v)"
  proof (rule regex_loop.raw_induct [where P = "\<lambda>rx s i vars r. \<not> (\<exists>gs k v. rx s i = Some (i, i, gs) \<and> grp gs 1 = Some k \<and> grp gs 2 = Some v)", OF _ ret])
    fix f :: "rx_exec \<Rightarrow> string \<Rightarrow> nat \<Rightarrow> jobj \<Rightarrow> (js_error + jobj) option" and rx s i vars r
    assume IH: "\<And>rx s i vars r. f rx s i vars = Some r \<Longrightarrow>
                  \<not> (\<exists>gs k v. rx s i = Some (i, i, gs) \<and> grp gs 1 = Some k \<and> grp gs 2 = Some v)"
      and eq: "(case rx s i of
                  None \<Rightarrow> Some (Inr vars)
                | Some (st, en, gs) \<Rightarrow>
                    (case (grp gs 1, grp gs 2) of
                       (Some k, Some v) \<Rightarrow> f rx s en (obj_set vars (js_trim k) (JStr (js_trim v)))
                     | _ \<Rightarrow> Some (Inl TypeError))) = Some r"
    show "\<not> (\<exists>gs k v. rx s i = Some (i, i, gs) \<and> grp gs 1 = Some k \<and> grp gs 2 = Some v)"
    proof
      assume "\<exists>gs k v. rx s i = Some (i, i, gs) \<and> grp gs 1 = Some k \<and> grp gs 2 = Some v"
      then obtain gs k v where r: "rx s i = Some (i, i, gs)" "grp gs 1 = Some k" "grp gs 2 = Some v" by blast
      then have "f rx s i (obj_set vars (js_trim k) (JStr (js_trim v))) = Some r" using eq by simp
      then show False using IH r by blast
    qed
  qed
  with assms show False by blast
qed

lemma tag_exec_groups: "rx_groups tag_exec"
  unfolding rx_groups_def tag_exec_def exec_of_def
  by (auto simp: grp_def tag_at_def Let_def split: option.splits list.splits if_splits dest!: first_from_Some)

lemma exec_of_total: "matcher_ok m \<Longrightarrow> \<exists>ms. exec_all (exec_of m) s i = Some ms"
  using exec_of_ok exec_all_total by blast

lemma fold_opt_Some: "\<forall>b x. \<exists>b'. g b x = Some b' \<Longrightarrow> \<exists>b'. fold_opt g b xs = Some b'"
proof (induction xs arbitrary: b)
  case (Cons x xs)
  then obtain b1 where "g b x = Some b1" by blast
  then show ?case using Cons by simp
qed simp

lemma code_block_Some: "\<forall>t. \<exists>v. p t = Some v \<Longrightarrow> \<forall>vars gs. \<exists>v. code_block p vars gs = Some v"
  unfolding code_block_def by (auto split: option.splits)

lemma xml_inner_Some: "\<exists>v. xml_inner ok vars gs = Some v"
  using parseYamlDirect_total unfolding xml_inner_def by (auto split: option.splits)

lemma extractFromCodeBlocks_Some: "\<forall>t. \<exists>v. p t = Some v \<Longrightarrow> \<exists>v. extractFromCodeBlocks l p content = Some v"
proof -
  assume p: "\<forall>t. \<exists>v. p t = Some v"
  obtain ms where ms: "exec_all (fence_exec l) content 0 = Some ms"
    using exec_of_total [OF fence_at_ok] unfolding fence_exec_def by blast
  obtain vars where "fold_opt (code_block p) [] ms = Some vars"
    using fold_opt_Some [OF code_block_Some [OF p]] by blast
  then show ?thesis using ms by (simp add: extractFromCodeBlocks_def)
qed

lemma extract_xml_Some:
  "\<exists>v. extractJsonFromIncompleteXml content = Some v" "\<exists>v. extractJsonFromXmlWrapper content = Some v"
proof -
  obtain ms where ms: "exec_all incomplete_xml_exec content 0 = Some ms"
    using exec_of_total [OF incomplete_xml_at_ok] unfolding incomplete_xml_exec_def by blast
  obtain ms' where ms': "exec_all xml_wrapper_exec content 0 = Some ms'"
    using exec_of_total [OF xml_wrapper_at_ok] unfolding xml_wrapper_exec_def by blast
  show "\<exists>v. extractJsonFromIncompleteXml content = Some v"
    using ms fold_opt_Some [of "xml_inner (\<lambda>t. starts_with t ''{'')" "[]" ms] xml_inner_Some
    by (auto simp: extractJsonFromIncompleteXml_def)
  show "\<exists>v. extractJsonFromXmlWrapper content = Some v"
    using ms' fold_opt_Some [of "xml_inner (\<lambda>t. starts_with t ''{'' \<and> contains t ''}'')" "[]" ms'] xml_inner_Some
    by (auto simp: extractJsonFromXmlWrapper_def)
qed

lemma extractRegex_default: "\<exists>v. extractRegex tag_exec content = Some (Inr v)"
proof -
  have ok: "rx_sound tag_exec" "rx_nonempty tag_exec"
    using exec_of_ok [OF tag_at_ok] unfolding tag_exec_def by blast+
  obtain ms where "exec_all tag_exec content 0 = Some ms"
    using exec_all_total [OF ok] by blast
  then show ?thesis
    using regex_loop_refines [OF ok tag_exec_groups] by (simp add: extractRegex_def)
qed

lemma try_next_Inr: "r = Some (Inr v) \<Longrightarrow> \<exists>w. rest = Some (Inr w) \<Longrightarrow> \<exists>u. try_next r rest = Some (Inr u)"
  by (auto simp: try_next_def)

lemma lift_Some: "\<exists>v. x = Some v \<Longrightarrow> \<exists>v. map_option Inr x = Some (Inr v)"
  by auto

text \<open>C1: With the default tag grammar, \<open>extractVars\<close> always returns and never
  throws: every exec loop of a fixed pattern advances, the assignment of each tag match
  has both groups, and the JSON and YAML readers are total.\<close>

theorem extractVars_default_total: "\<exists>v. extractVars tag_exec content = Some (Inr v)"
proof (cases "content = []")
  case ne: False
  have y: "\<forall>t. \<exists>v. yaml_parser t = Some v" using parseYamlDirect_total by (simp add: yaml_parser_def)
  have j: "\<forall>t. \<exists>v. json_parser t = Some v" by (simp add: json_parser_def)
  obtain r1 where r1: "extractRegex tag_exec content = Some (Inr r1)" using extractRegex_default by blast
  have "\<exists>v. (map_option Inr (extractFromCodeBlocks FJson json_parser content) :: extraction) = Some (Inr v)"
    by (rule lift_Some, rule extractFromCodeBlocks_Some [OF j])
  then obtain r2 where r2: "(map_option Inr (extractFromCodeBlocks FJson json_parser content) :: extraction) = Some (Inr r2)" ..
  have "\<exists>v. (map_option Inr (extractJsonFromIncompleteXml content) :: extraction) = Some (Inr v)"
    by (rule lift_Some, rule extract_xml_Some(1))
  then obtain r3 where r3: "(map_option Inr (extractJsonFromIncompleteXml content) :: extraction) = Some (Inr r3)" ..
  have "\<exists>v. (map_option Inr (extractFromCodeBlocks FYaml yaml_parser content) :: extraction) = Some (Inr v)"
    by (rule lift_Some, rule extractFromCodeBlocks_Some [OF y])
  then obtain r5 where r5: "(map_option Inr (extractFromCodeBlocks FYaml yaml_parser content) :: extraction) = Some (Inr r5)" ..
  obtain y6 where "parseYamlDirect content = Some y6" using parseYamlDirect_total by blast
  then obtain r6 where r6: "(map_option Inr (if isYamlFormat content then parseYamlDirect content else Some JNull) :: extraction) = Some (Inr r6)"
    by (cases "isYamlFormat content") simp_all
  have "\<exists>v. (map_option Inr (extractJsonFromXmlWrapper content) :: extraction) = Some (Inr v)"
    by (rule lift_Some, rule extract_xml_Some(2))
  then obtain r7 where r7: "(map_option Inr (extractJsonFromXmlWrapper content) :: extraction) = Some (Inr r7)" ..
  show ?thesis
    unfolding extractVars_def if_not_P [OF ne]
    by (rule try_next_Inr [OF r1], rule try_next_Inr [OF r2], rule try_next_Inr [OF r3],
        rule try_next_Inr [OF refl], rule try_next_Inr [OF r5], rule try_next_Inr [OF r6],
        rule try_next_Inr [OF r7]) simp
qed (simp add: extractVars_def)

text \<open>C23: For a regular expression whose matches are never empty and always have two
  groups, the loop of \<open>extractRegex\<close>, which interleaves \<open>exec\<close> with the assignments, is
  the same as collecting all matches of the global expression first and storing each
  trimmed name and value in order.\<close>

theorem extractRegex_refines:
  assumes "rx_sound rx" and "rx_nonempty rx" and "rx_groups rx"
  shows "extractRegex rx s = map_option (\<lambda>ms. Inr (result_obj (foldl add_match [] ms))) (exec_all rx s 0)"
  using regex_loop_refines [OF assms, of s 0 "[]"]
  by (cases "exec_all rx s 0") (simp_all add: extractRegex_def)

theorem extractRegex_refines_witness:
  "rx_sound tag_exec \<and> rx_nonempty tag_exec \<and> rx_groups tag_exec \<and>
   extractRegex tag_exec ''[hp] 10 [/hp]'' = Some (Inr (JObj [(''hp'', JStr ''10'')]))"
proof -
  have ok: "rx_sound tag_exec" "rx_nonempty tag_exec"
    using exec_of_ok [OF tag_at_ok] unfolding tag_exec_def by blast+
  have "extractRegex tag_exec ''[hp] 10 [/hp]'' =
        map_option (\<lambda>ms. Inr (result_obj (foldl add_match [] ms))) (exec_all tag_exec ''[hp] 10 [/hp]'' 0)"
    by (rule extractRegex_refines [OF ok tag_exec_groups])
  also have "\<dots> = Some (Inr (JObj [(''hp'', JStr ''10'')]))" by code_simp
  finally show ?thesis using ok tag_exec_groups by blast
qed

text \<open>C21: A custom regular expression whose first match lacks the second capture group
  makes \<open>extractVars\<close> throw a \<open>TypeError\<close> (\<open>match[2].trim()\<close> on
  \<open>undefined\<close>, line 206); \<open>extractVars\<close> has no \<open>try\<close>, so the error reaches its
  caller and no later strategy is tried.\<close>

theorem extractVars_type_error:
  assumes "content \<noteq> []" and "rx content 0 = Some (st, en, gs)" and "grp gs 2 = None"
  shows "extractVars rx content = Some (Inl TypeError)"
  using regex_loop_type_error [where rx = rx and s = content and i = 0 and vars = "[]", OF assms(2) disjI2 [OF assms(3)]] assms(1)
  by (simp add: extractVars_def extractRegex_def try_next_def)

theorem extractVars_type_error_witness:
  "extractVars (\<lambda>s i. if i = 0 then Some (0, 4, [Some ''hp'']) else None) ''[hp]'' = Some (Inl TypeError)"
  by (rule extractVars_type_error [where st = 0 and en = 4 and gs = "[Some ''hp'']"]) (simp_all add: grp_def)

text \<open>C22: A custom regular expression that matches the empty string with both groups at
  the start of the message makes \<open>extractVars\<close> loop forever: \<open>exec\<close> does not move
  \<open>lastIndex\<close> past an empty match, so \<open>while ((match = regex.exec(content)))\<close>
  finds the same match again and again.\<close>

theorem extractVars_diverges:
  assumes "content \<noteq> []" and "rx content 0 = Some (0, 0, gs)" and "grp gs 1 = Some k" and "grp gs 2 = Some v"
  shows "extractVars rx content = None"
  using regex_loop_diverges [where rx = rx and s = content and i = 0 and vars = "[]", OF assms(2,3,4)] assms(1)
  by (simp add: extractVars_def extractRegex_def try_next_def)

theorem extractVars_diverges_witness:
  "extractVars (\<lambda>s i. Some (i, i, [Some [], Some []])) ''hp: 10'' = None"
  by (rule extractVars_diverges [where gs = "[Some [], Some []]" and k = "[]" and v = "[]"]) (simp_all add: grp_def)

lemma find_sub_first: "p \<noteq> [] \<Longrightarrow> hd p \<notin> set v \<Longrightarrow> find_sub (v @ p @ r) p = Some (length v)"
proof (induction v)
  case Nil
  then show ?case by (cases p) (simp_all add: starts_with_def)
next
  case (Cons x v)
  then have "\<not> starts_with (x # v @ p @ r) p" by (cases p) (auto simp: starts_with_def)
  with Cons show ?case by simp
qed

lemma tag_at_tag:
  assumes "drop i s = ''['' @ k @ '']'' @ v @ ''[/'' @ k @ '']'' @ r"
    and "k \<noteq> []" and "CHR '']'' \<notin> set k" and "CHR ''['' \<notin> set v"
  shows "tag_at s i = Some (i + length (''['' @ k @ '']'' @ v @ ''[/'' @ k @ '']''), [Some k, Some v])"
proof -
  have ix: "index_of CHR '']'' (k @ CHR '']'' # v @ ''[/'' @ k @ '']'' @ r) = Some (length k)"
    using assms(3) by (rule index_of_append_notin)
  have fs: "find_sub (v @ ''[/'' @ k @ '']'' @ r) (''[/'' @ k @ '']'') = Some (length v)"
    using find_sub_first [of "''[/'' @ k @ '']''" v r] assms(4) by simp
  show ?thesis using assms(1,2) ix fs by (simp add: tag_at_def Let_def)
qed

lemma first_from_skip:
  assumes "drop i s = p @ r" and "CHR ''['' \<notin> set p" and "length p < n"
  shows "first_from (tag_at s) i n = first_from (tag_at s) (i + length p) (n - length p)"
  using assms
proof (induction p arbitrary: i n)
  case (Cons c p)
  obtain n' where n: "n = Suc n'" using Cons.prems(3) by (cases n) auto
  have "tag_at s i = None" using Cons.prems(1,2) by (auto simp: tag_at_def)
  moreover have "drop (Suc i) s = p @ r" using Cons.prems(1) by (metis drop_Suc list.sel(3) tl_drop append_Cons)
  ultimately show ?case using Cons.IH [of "Suc i" n'] Cons.prems(2,3) n by simp
qed simp

lemma exec_tag_none: "CHR ''['' \<notin> set (drop i s) \<Longrightarrow> tag_exec s i = None"
proof -
  assume h: "CHR ''['' \<notin> set (drop i s)"
  have "first_from (tag_at s) j n = None" if "i \<le> j" for j n
    using that
  proof (induction n arbitrary: j)
    case (Suc n)
    have "tag_at s j = None"
    proof (cases "drop j s")
      case (Cons c r)
      have "set (drop j s) \<subseteq> set (drop i s)" using Suc.prems by (metis set_drop_subset_set_drop)
      then have "c \<noteq> CHR ''[''" using h Cons by auto
      then show ?thesis using Cons by (simp add: tag_at_def)
    qed (simp add: tag_at_def)
    then show ?case using Suc by simp
  qed simp
  then show ?thesis by (simp add: tag_exec_def exec_of_def)
qed

lemma exec_tag_item:
  assumes "drop i s = p @ ''['' @ k @ '']'' @ v @ ''[/'' @ k @ '']'' @ r" and "tag_ok (p, k, v)"
  shows "tag_exec s i = Some (i + length p, i + length (tag_text (p, k, v)), [Some k, Some v])"
proof -
  have ok: "CHR ''['' \<notin> set p" "k \<noteq> []" "CHR '']'' \<notin> set k" "CHR ''['' \<notin> set v" using assms(2) by (simp_all add: tag_ok_def)
  have len: "length p < Suc (length s) - i" using arg_cong [OF assms(1), of length] by simp
  have d: "drop (i + length p) s = ''['' @ k @ '']'' @ v @ ''[/'' @ k @ '']'' @ r"
    using assms(1) by (metis add.commute drop_drop append_eq_conv_conj)
  have "first_from (tag_at s) i (Suc (length s) - i) =
        first_from (tag_at s) (i + length p) (Suc (length s) - i - length p)"
    using first_from_skip [OF assms(1) ok(1) len] .
  moreover obtain n where "Suc (length s) - i - length p = Suc n" using len by (metis Suc_diff_Suc Suc_diff_le diff_diff_left less_imp_le)
  moreover have "tag_at s (i + length p) = Some (i + length p + length (''['' @ k @ '']'' @ v @ ''[/'' @ k @ '']''), [Some k, Some v])"
    using tag_at_tag [OF d ok(2-4)] .
  ultimately show ?thesis by (simp add: tag_exec_def exec_of_def tag_text_def)
qed

lemma regex_loop_tags:
  assumes "drop i s = concat (map tag_text items) @ tail" and "list_all tag_ok items" and "CHR ''['' \<notin> set tail"
  shows "regex_loop tag_exec s i acc =
           Some (Inr (foldl (\<lambda>vars (p, k, v). obj_set vars (js_trim k) (JStr (js_trim v))) acc items))"
  using assms
proof (induction items arbitrary: i acc)
  case Nil
  then show ?case using exec_tag_none [of i s] by (simp add: regex_loop.simps)
next
  case (Cons x items)
  obtain p k v where x: "x = (p, k, v)" by (cases x) auto
  have d: "drop i s = p @ ''['' @ k @ '']'' @ v @ ''[/'' @ k @ '']'' @ concat (map tag_text items) @ tail"
    using Cons.prems(1) x by (simp add: tag_text_def [of "(p, k, v)"])
  have e: "tag_exec s i = Some (i + length p, i + length (tag_text (p, k, v)), [Some k, Some v])"
    using exec_tag_item [OF d] Cons.prems(2) x by simp
  have "drop (i + length (tag_text (p, k, v))) s = drop (length (tag_text (p, k, v))) (drop i s)"
    by (simp add: add.commute)
  then have "drop (i + length (tag_text (p, k, v))) s = concat (map tag_text items) @ tail"
    using Cons.prems(1) x by simp
  then show ?case using Cons.IH Cons.prems(2,3) e x by (subst regex_loop.simps) (simp add: grp_def)
qed

lemma obj_set_not_Nil: "obj_set kvs k v \<noteq> []"
  by (induction kvs k v rule: obj_set.induct) auto

lemma foldl_obj_set_not_Nil:
  "items \<noteq> [] \<Longrightarrow> foldl (\<lambda>vars (p, k, v). obj_set vars (js_trim k) (JStr (js_trim v))) acc items \<noteq> []"
proof (induction items arbitrary: acc rule: rev_induct)
  case (snoc x xs)
  then show ?case by (cases x) (simp add: obj_set_not_Nil)
qed simp

text \<open>C4: In a message made of default tags \<open>[name]value[/name]\<close> (followed by text
  without a \<open>[\<close>), every tag becomes a string variable, name and value trimmed, in the
  order the tags appear; a repeated name keeps its first position and its last value.\<close>

theorem extractVars_tags:
  assumes "items \<noteq> []" and "list_all tag_ok items" and "CHR ''['' \<notin> set tail"
  shows "extractVars tag_exec (concat (map tag_text items) @ tail) =
           Some (Inr (JObj (foldl (\<lambda>vars (p, k, v). obj_set vars (js_trim k) (JStr (js_trim v))) [] items)))"
proof -
  let ?s = "concat (map tag_text items) @ tail"
  let ?vars = "foldl (\<lambda>vars (p, k, v). obj_set vars (js_trim k) (JStr (js_trim v))) [] items"
  have "regex_loop tag_exec ?s 0 [] = Some (Inr ?vars)"
    using regex_loop_tags [of 0 ?s items tail] assms(2,3) by simp
  moreover have "?vars \<noteq> []" using assms(1) by (rule foldl_obj_set_not_Nil)
  moreover have "?s \<noteq> []" using assms(1) by (cases items) (auto simp: tag_text_def)
  ultimately show ?thesis
    by (simp add: extractVars_def extractRegex_def try_next_def result_obj_def nonempty_def key_count_def own_entries_def)
qed

text \<open>The tag strategy comes first: a message with a tag and a JSON object yields only
  the tag's variable, and the JSON value of the same name is not read.\<close>

theorem extractVars_tags_before_json:
  "extractVars tag_exec ''[hp]10[/hp] {\"hp\": 99, \"mp\": 3}'' = Some (Inr (JObj [(''hp'', JStr ''10'')]))"
  by code_simp

theorem extractVars_tags_witness:
  "[(''x'', ''hp'', ''10''), ('' '', ''mp'', '' 3 '')] \<noteq> [] \<and> list_all tag_ok [(''x'', ''hp'', ''10''), ('' '', ''mp'', '' 3 '')] \<and>
   CHR ''['' \<notin> set [] \<and>
   extractVars tag_exec ''x[hp]10[/hp] [mp] 3 [/mp]'' = Some (Inr (JObj [(''hp'', JStr ''10''), (''mp'', JStr ''3'')]))"
proof -
  have h: "[(''x'', ''hp'', ''10''), ('' '', ''mp'', '' 3 '')] \<noteq> []" "list_all tag_ok [(''x'', ''hp'', ''10''), ('' '', ''mp'', '' 3 '')]"
    "CHR ''['' \<notin> set []" by (simp_all add: tag_ok_def)
  have "concat (map tag_text [(''x'', ''hp'', ''10''), ('' '', ''mp'', '' 3 '')]) @ [] = ''x[hp]10[/hp] [mp] 3 [/mp]''"
    by (simp add: tag_text_def)
  moreover have "foldl (\<lambda>vars (p, k, v). obj_set vars (js_trim k) (JStr (js_trim v))) [] [(''x'', ''hp'', ''10''), ('' '', ''mp'', '' 3 '')] =
      [(''hp'', JStr ''10''), (''mp'', JStr ''3'')]" by code_simp
  ultimately show ?thesis using h extractVars_tags [OF h] by simp
qed

end
