(* ===== verification/Settings.thy ===== *)
theory Settings
  imports Extract
begin

text \<open>
  The per-character template configuration of \<open>src/template-editor.js\<close>:
  \<open>DEFAULT_CHAR_SETTINGS\<close> (lines 18--25), \<open>utils.isEnabled\<close> (line 57) and the class
  \<open>TemplateSettings\<close> (lines 64--102). A configuration lives in two places: embedded
  in the current character's card (\<open>data.extensions["xiaobaix-template"]\<close>) and as a
  shadow copy in the extension settings keyed by avatar (\<open>characterBindings\<close>).
  \<open>getCharTemplate\<close> memoises its answer per avatar in \<open>state.caches.template\<close>.

  The record \<open>tsettings\<close> holds what these functions read and write; the host state of
  the message lifecycle extends it. A configuration read from storage may lack
  \<open>customRegex\<close> and \<open>recentMessageCount\<close>: those two fields are options, \<open>None\<close>
  meaning absent, and the count is an integer, since the editor saves \<open>parseInt\<close> of
  its field unchecked; an absent flag or template reads as \<open>false\<close> or \<open>''\<close>, as the
  defaults have it. \<open>writeExtensionField\<close> is taken to update the character in memory
  before it awaits the server, so \<open>saveCurrentChar\<close> is one atomic step.
\<close>

record char_settings =
  cs_enabled :: bool
  cs_template :: string
  cs_regex :: "string option"
  cs_limit :: bool
  cs_recent :: "int option"
  cs_skip_first :: bool

text \<open>\<open>\[([^\]]+)\]([\s\S]*?)\[\/\1\]\<close>, the default variable pattern (line 21).\<close>

definition default_pattern :: string where
  "default_pattern =
     bsl # ''['' @ ''([^'' @ bsl # '']'' @ '']+)'' @ bsl # '']'' @ ''(['' @ bsl # ''s'' @ bsl # ''S'' @
     '']*?)'' @ bsl # ''['' @ bsl # ''/'' @ bsl # ''1'' @ bsl # '']''"

definition DEFAULT_CHAR_SETTINGS :: char_settings where
  "DEFAULT_CHAR_SETTINGS =
     \<lparr>cs_enabled = False, cs_template = [], cs_regex = Some default_pattern, cs_limit = False,
      cs_recent = Some 5, cs_skip_first = False\<rparr>"

text \<open>\<open>{ ...a, ...b }\<close>: the fields present in \<open>b\<close> override those of \<open>a\<close>.\<close>

definition spread :: "char_settings \<Rightarrow> char_settings \<Rightarrow> char_settings" where
  "spread a b =
     b\<lparr>cs_regex := (case cs_regex b of None \<Rightarrow> cs_regex a | r \<Rightarrow> r),
       cs_recent := (case cs_recent b of None \<Rightarrow> cs_recent a | r \<Rightarrow> r)\<rparr>"

record tsettings =
  ts_enabled :: bool
  ts_bindings :: "string \<rightharpoonup> char_settings"
  ts_xb_enabled :: bool
  ts_char :: "(string \<times> char_settings option) option"
  ts_tcache :: "string \<rightharpoonup> char_settings option"

text \<open>\<open>ts_enabled\<close> is \<open>TemplateSettings.get().enabled\<close> (lines 65--69);
  \<open>ts_xb_enabled\<close> is \<open>window.isXiaobaixEnabled ?? true\<close>; \<open>ts_char\<close> is the card of
  \<open>characters[this_chid]\<close> (its avatar and embedded configuration), \<open>None\<close> when no
  character is selected.\<close>

definition isEnabled :: "'a tsettings_scheme \<Rightarrow> bool" where
  "isEnabled st \<longleftrightarrow> ts_xb_enabled st \<and> ts_enabled st"

text \<open>\<open>getCurrentChar\<close>, lines 71--76.\<close>

definition getCurrentChar :: "'a tsettings_scheme \<Rightarrow> char_settings" where
  "getCurrentChar st =
     (case ts_char st of
        None \<Rightarrow> DEFAULT_CHAR_SETTINGS
      | Some (av, Some e) \<Rightarrow> e
      | Some (av, None) \<Rightarrow>
          (case ts_bindings st av of
             None \<Rightarrow> DEFAULT_CHAR_SETTINGS
           | Some b \<Rightarrow> spread DEFAULT_CHAR_SETTINGS b))"

text \<open>\<open>saveCurrentChar\<close>, lines 78--86: the template cache is emptied, the card gets the
  configuration and the shadow copy is merged with it.\<close>

definition saveCurrentChar :: "char_settings \<Rightarrow> 'a tsettings_scheme \<Rightarrow> 'a tsettings_scheme" where
  "saveCurrentChar cs st =
     (case ts_char st of
        None \<Rightarrow> st
      | Some (av, _) \<Rightarrow>
          st\<lparr>ts_tcache := Map.empty, ts_char := Some (av, Some cs),
             ts_bindings := (ts_bindings st)(av \<mapsto> (case ts_bindings st av of None \<Rightarrow> cs | Some old \<Rightarrow> spread old cs))\<rparr>)"

text \<open>Lines 92--98: what \<open>getCharTemplate\<close> computes when the avatar is not cached.\<close>

definition char_template_fresh :: "'a tsettings_scheme \<Rightarrow> string \<Rightarrow> char_settings option" where
  "char_template_fresh st av =
     (case (case ts_char st of
              Some (a, Some e) \<Rightarrow> if a = av \<and> cs_enabled e then Some e else None
            | _ \<Rightarrow> None) of
        Some e \<Rightarrow> Some e
      | None \<Rightarrow> (case ts_bindings st av of
                  Some b \<Rightarrow> if cs_enabled b then Some b else None
                | None \<Rightarrow> None))"

text \<open>\<open>getCharTemplate(avatar)\<close>, lines 88--101, with the cache; the avatar is what
  \<open>utils.getCharAvatar\<close> returned, \<open>None\<close> for \<open>null\<close>.\<close>

definition getCharTemplate :: "string option \<Rightarrow> 'a tsettings_scheme \<Rightarrow> char_settings option \<times> 'a tsettings_scheme" where
  "getCharTemplate avatar st =
     (case avatar of
        None \<Rightarrow> (None, st)
      | Some av \<Rightarrow>
          if av = [] then (None, st)
          else if isEnabled st then
            (case ts_tcache st av of
               Some r \<Rightarrow> (r, st)
             | None \<Rightarrow> let r = char_template_fresh st av in (r, st\<lparr>ts_tcache := (ts_tcache st)(av \<mapsto> r)\<rparr>))
          else (None, st))"

text \<open>What \<open>getCharTemplate\<close> promises: the configuration of the avatar as the
  precedence rule defines it, whatever the cache holds.\<close>

definition char_template_spec :: "string option \<Rightarrow> 'a tsettings_scheme \<Rightarrow> char_settings option" where
  "char_template_spec avatar st =
     (case avatar of
        None \<Rightarrow> None
      | Some av \<Rightarrow> if av \<noteq> [] \<and> isEnabled st then char_template_fresh st av else None)"

text \<open>The cache is coherent when every entry is what a fresh lookup would give.\<close>

definition cache_ok :: "'a tsettings_scheme \<Rightarrow> bool" where
  "cache_ok st \<longleftrightarrow> (\<forall>av r. ts_tcache st av = Some r \<longrightarrow> r = char_template_fresh st av)"

text \<open>The regular expression \<open>extractVars\<close> is given for a configuration:
  \<open>getRegex(customRegex)\<close>, where an absent \<open>customRegex\<close> reaches \<open>getRegex\<close> as
  \<open>null\<close> (the default parameter of line 115), which \<open>new RegExp\<close> reads as the
  pattern \<open>null\<close>.\<close>

type_synonym rx_compiler = "string \<Rightarrow> rx_exec option"

definition regex_of :: "rx_compiler \<Rightarrow> char_settings \<Rightarrow> rx_exec" where
  "regex_of compile cs = getRegex compile (case cs_regex cs of Some p \<Rightarrow> p | None \<Rightarrow> ''null'')"

text \<open>\<open>tmplSettings.recentMessageCount || 5\<close> and the first id kept,
  \<open>Math.max(0, ctx.chat.length - recentCount)\<close> (lines 1036--1037).\<close>

definition min_message_id :: "char_settings \<Rightarrow> nat \<Rightarrow> nat" where
  "min_message_id cs len = nat (int len - (case cs_recent cs of Some n \<Rightarrow> if n = 0 then 5 else n | None \<Rightarrow> 5))"

section \<open>Lemmas\<close>

lemma cache_ok_empty [simp]: "ts_tcache st = Map.empty \<Longrightarrow> cache_ok st"
  by (simp add: cache_ok_def)

lemma getCharTemplate_cases:
  obtains (skip) "getCharTemplate a st = (None, st)" "char_template_spec a st = None"
  | (hit) av r where "a = Some av" "av \<noteq> []" "isEnabled st" "ts_tcache st av = Some r"
      "getCharTemplate a st = (r, st)"
  | (miss) av where "a = Some av" "av \<noteq> []" "isEnabled st" "ts_tcache st av = None"
      "getCharTemplate a st = (char_template_fresh st av, st\<lparr>ts_tcache := (ts_tcache st)(av \<mapsto> char_template_fresh st av)\<rparr>)"
proof (cases a)
  case None
  then show ?thesis using skip by (simp add: getCharTemplate_def char_template_spec_def)
next
  case (Some av)
  show ?thesis
  proof (cases "av \<noteq> [] \<and> isEnabled st")
    case False
    then show ?thesis using skip Some by (auto simp: getCharTemplate_def char_template_spec_def)
  next
    case True
    show ?thesis
    proof (cases "ts_tcache st av")
      case None
      then show ?thesis using miss Some True by (simp add: getCharTemplate_def Let_def)
    next
      case (Some r)
      then show ?thesis using hit \<open>a = Some av\<close> True by (simp add: getCharTemplate_def)
    qed
  qed
qed

lemma char_template_fresh_cache [simp]:
  "char_template_fresh (st\<lparr>ts_tcache := c\<rparr>) av = char_template_fresh st av"
  by (simp add: char_template_fresh_def split: option.split)

lemma getCharTemplate_settings [simp]:
  "ts_enabled (snd (getCharTemplate a st)) = ts_enabled st"
  "ts_xb_enabled (snd (getCharTemplate a st)) = ts_xb_enabled st"
  "ts_bindings (snd (getCharTemplate a st)) = ts_bindings st"
  "ts_char (snd (getCharTemplate a st)) = ts_char st"
  "tsettings.more (snd (getCharTemplate a st)) = tsettings.more st"
  by (cases rule: getCharTemplate_cases [where a = a and st = st]; simp)+

lemma getCharTemplate_refines:
  assumes "cache_ok st"
  shows "fst (getCharTemplate a st) = char_template_spec a st \<and> cache_ok (snd (getCharTemplate a st))"
  using assms
  by (cases rule: getCharTemplate_cases [where a = a and st = st])
     (auto simp: cache_ok_def char_template_spec_def)

end
