(* ===== verification/Render.thy ===== *)
theory Render
  imports JsValue
begin

text \<open>
  The renderer of \<open>src/template-editor.js\<close>: \<open>TemplateProcessor.replaceVars\<close>
  (lines 797--814) is \<open>tmpl.replace(/\[\[([^\]]+)\]\]/g, replacer)\<close>. A global
  \<open>String.prototype.replace\<close> scans left to right; at each position it tries the
  pattern, and either substitutes the match and resumes after it or keeps one
  character. At a position the pattern matches exactly when the text there is
  \<open>[[\<close>, a non-empty run of characters other than \<open>]\<close>, and \<open>]]\<close>
  (\<open>placeholder_at\<close>). The replacer emits a \<open>bdi\<close> element tagged with the
  trimmed name and the value converted by \<open>render_prop\<close>.
  \<open>utils.isCustomTemplate\<close> (line 59) decides whether the rendered text is a
  document to be embedded.

  The token view (\<open>tokenize\<close>, \<open>untok\<close>, \<open>render_tok\<close>) is the specification:
  a template is a sequence of literal characters and placeholders, printing the tokens
  gives the template back, and rendering is the concatenation of the rendered tokens.
\<close>

definition placeholder_at :: "string \<Rightarrow> (string \<times> string) option" where
  "placeholder_at s =
     (case s of
        a # b # r \<Rightarrow>
          if a = CHR ''['' \<and> b = CHR ''['' then
            (case index_of CHR '']'' r of
               None \<Rightarrow> None
             | Some k \<Rightarrow> if 0 < k \<and> take 2 (drop k r) = '']]'' then Some (take k r, drop (k + 2) r) else None)
          else None
      | _ \<Rightarrow> None)"

text \<open>The replacement of line 812.\<close>

definition var_span :: "string \<Rightarrow> string \<Rightarrow> string" where
  "var_span name value = ''<bdi data-xiaobaix-var='' @ [dq] @ name @ [dq] @ ''>'' @ value @ ''</bdi>''"

definition placeholder_value :: "jval \<Rightarrow> string \<Rightarrow> string" where
  "placeholder_value vars raw = var_span (js_trim raw) (render_prop (js_get vars (js_trim raw)))"

function replace_scan :: "jval \<Rightarrow> string \<Rightarrow> string" where
  "replace_scan vars [] = []"
| "replace_scan vars (c # cs) =
     (case placeholder_at (c # cs) of
        Some (raw, rest) \<Rightarrow> placeholder_value vars raw @ replace_scan vars rest
      | None \<Rightarrow> c # replace_scan vars cs)"
  by pat_completeness auto
termination
  by (relation "measure (\<lambda>(vars, s). length s)")
    (auto simp: placeholder_at_def split: list.splits if_splits option.splits)

text \<open>\<open>tmpl?.replace(...) || ''\<close>: a missing template renders as the empty string.\<close>

definition replaceVars :: "string \<Rightarrow> jval \<Rightarrow> string" where
  "replaceVars tmpl vars = replace_scan vars tmpl"

definition isCustomTemplate :: "string \<Rightarrow> bool" where
  "isCustomTemplate content \<longleftrightarrow> (\<exists>tag \<in> set [''<html'', ''<!DOCTYPE'', ''<script'']. contains content tag)"

section \<open>Token specification\<close>

datatype tok = Lit char | Var string

function tokenize :: "string \<Rightarrow> tok list" where
  "tokenize [] = []"
| "tokenize (c # cs) =
     (case placeholder_at (c # cs) of
        Some (raw, rest) \<Rightarrow> Var raw # tokenize rest
      | None \<Rightarrow> Lit c # tokenize cs)"
  by pat_completeness auto
termination
  by (relation "measure length")
    (auto simp: placeholder_at_def split: list.splits if_splits option.splits)

fun untok :: "tok list \<Rightarrow> string" where
  "untok [] = []"
| "untok (Lit c # ts) = c # untok ts"
| "untok (Var n # ts) = ''[['' @ n @ '']]'' @ untok ts"

fun render_tok :: "jval \<Rightarrow> tok \<Rightarrow> string" where
  "render_tok vars (Lit c) = [c]"
| "render_tok vars (Var raw) = placeholder_value vars raw"

section \<open>Lemmas\<close>

lemma placeholder_at_Some:
  assumes "placeholder_at s = Some (raw, rest)"
  shows "s = ''[['' @ raw @ '']]'' @ rest \<and> raw \<noteq> [] \<and> CHR '']'' \<notin> set raw"
proof -
  obtain r k where s: "s = CHR ''['' # CHR ''['' # r" and k: "index_of CHR '']'' r = Some k"
    and k0: "0 < k" and t: "take 2 (drop k r) = '']]''"
    and raw: "raw = take k r" and rest: "rest = drop (k + 2) r"
    using assms by (auto simp: placeholder_at_def split: list.splits if_splits option.splits)
  have "r = take k r @ take 2 (drop k r) @ drop 2 (drop k r)"
    by (metis append_take_drop_id)
  then have "r = raw @ '']]'' @ rest"
    using t raw rest by (simp add: add.commute)
  moreover have "CHR '']'' \<notin> set raw"
    using index_of_Some [OF k] raw by simp
  moreover have "raw \<noteq> []"
    using k0 index_of_Some [OF k] raw by (cases r) auto
  ultimately show ?thesis using s by simp
qed

lemma placeholder_at_intro:
  assumes "raw \<noteq> []" and "CHR '']'' \<notin> set raw"
  shows "placeholder_at (''[['' @ raw @ '']]'' @ rest) = Some (raw, rest)"
proof -
  have "index_of CHR '']'' (raw @ '']]'' @ rest) = Some (length raw)"
    using assms(2) index_of_append_notin [of "CHR '']''" raw] by simp
  then show ?thesis
    using assms(1) by (simp add: placeholder_at_def)
qed

text \<open>Printing the tokens of a template gives the template back: the placeholder
  scan of \<open>replaceVars\<close> loses and invents no text.\<close>

theorem untok_tokenize: "untok (tokenize s) = s"
proof (induction s rule: tokenize.induct)
  case 1
  then show ?case by simp
next
  case (2 c cs)
  show ?case
  proof (cases "placeholder_at (c # cs)")
    case None
    with "2.IH" show ?thesis by simp
  next
    case (Some p)
    obtain raw rest where p: "p = (raw, rest)" by (cases p)
    have ih: "untok (tokenize rest) = rest"
      using "2.IH"(2) [OF Some p [symmetric]] .
    have eq: "c # cs = ''[['' @ raw @ '']]'' @ rest"
      using Some p placeholder_at_Some by blast
    have "untok (tokenize (c # cs)) = untok (Var raw # tokenize rest)"
      using Some p by simp
    also have "\<dots> = ''[['' @ raw @ '']]'' @ untok (tokenize rest)"
      by simp
    also have "\<dots> = c # cs"
      using ih eq by simp
    finally show ?thesis .
  qed
qed

lemma replaceVars_tokens: "replaceVars t vars = concat (map (render_tok vars) (tokenize t))"
  unfolding replaceVars_def
  by (induction vars t rule: replace_scan.induct) (auto split: option.splits)

text \<open>A template with no \<open>[[\<close> is returned unchanged by \<open>replaceVars\<close>.\<close>

theorem replaceVars_no_placeholder:
  "\<not> contains t ''[['' \<Longrightarrow> replaceVars t vars = t"
  unfolding replaceVars_def
proof (induction vars t rule: replace_scan.induct)
  case (1 vars)
  then show ?case by simp
next
  case (2 vars c cs)
  have "placeholder_at (c # cs) = None"
  proof (rule ccontr)
    assume "placeholder_at (c # cs) \<noteq> None"
    then obtain raw rest where "placeholder_at (c # cs) = Some (raw, rest)" by auto
    then have "c # cs = ''[['' @ raw @ '']]'' @ rest" using placeholder_at_Some by blast
    then have "starts_with (c # cs) ''[[''" by (simp add: starts_with_def)
    with "2.prems" show False by simp
  qed
  moreover have "\<not> contains cs ''[[''" using "2.prems" by simp
  ultimately show ?case using "2.IH" by simp
qed

lemma replace_scan_placeholder:
  "placeholder_at s = Some (raw, rest) \<Longrightarrow> replace_scan vars s = placeholder_value vars raw @ replace_scan vars rest"
  by (cases s) (simp_all add: placeholder_at_def)

lemma replaceVars_placeholder:
  "raw \<noteq> [] \<Longrightarrow> CHR '']'' \<notin> set raw \<Longrightarrow>
   replaceVars (''[['' @ raw @ '']]'' @ rest) vars = placeholder_value vars raw @ replaceVars rest vars"
  unfolding replaceVars_def by (rule replace_scan_placeholder) (rule placeholder_at_intro)

lemma replace_scan_literal:
  "\<not> contains (l @ ''['') ''[['' \<Longrightarrow> replace_scan vars (l @ s) = l @ replace_scan vars s"
proof (induction l)
  case (Cons c l)
  have "placeholder_at (c # l @ s) = None"
  proof (rule ccontr)
    assume "placeholder_at (c # l @ s) \<noteq> None"
    then obtain raw rest where "placeholder_at (c # l @ s) = Some (raw, rest)" by auto
    then have e: "c # l @ s = ''[['' @ raw @ '']]'' @ rest" using placeholder_at_Some by blast
    then have "c = CHR ''[''" by simp
    moreover have "starts_with (c # l @ ''['') ''[[''" using e by (cases l) (auto simp: starts_with_def)
    ultimately show False using Cons.prems by simp
  qed
  moreover have "\<not> contains (l @ ''['') ''[[''" using Cons.prems by simp
  ultimately show ?case using Cons.IH by simp
qed simp

text \<open>C5: Rendering is compositional over the template: a literal stretch that opens no
  placeholder (it contains no \<open>[[\<close> and does not end in \<open>[\<close>) is copied unchanged, and a
  following placeholder whose trimmed name is an own key bound to a string is replaced by
  that string inside a \<open>bdi\<close> element carrying the trimmed name; the rest of the template is
  rendered the same way.\<close>

theorem replaceVars_string_var:
  assumes "\<not> contains (l @ ''['') ''[[''" and "raw \<noteq> []" and "CHR '']'' \<notin> set raw"
    and "map_of kvs (js_trim raw) = Some (JStr v)"
  shows "replaceVars (l @ ''[['' @ raw @ '']]'' @ rest) (JObj kvs) =
           l @ ''<bdi data-xiaobaix-var='' @ [dq] @ js_trim raw @ [dq] @ ''>'' @ v @ ''</bdi>'' @
           replaceVars rest (JObj kvs)"
  using replace_scan_literal [OF assms(1), of "JObj kvs" "''[['' @ raw @ '']]'' @ rest"]
    replaceVars_placeholder [OF assms(2,3), of rest "JObj kvs"] assms(4)
  by (simp add: replaceVars_def placeholder_value_def var_span_def js_get_def render_prop_def)


theorem replaceVars_no_placeholder_witness:
  "replaceVars ''<b>plain</b>'' (JObj []) = ''<b>plain</b>''"
  by (rule replaceVars_no_placeholder) (simp add: starts_with_def)


theorem replaceVars_string_var_witness:
  "replaceVars ''Hello [[name]]!'' (JObj [(''name'', JStr ''Aria'')]) =
     ''Hello <bdi data-xiaobaix-var='' @ [dq] @ ''name'' @ [dq] @ ''>Aria</bdi>!''"
proof -
  have h: "\<not> contains (''Hello '' @ ''['') ''[[''" "''name'' \<noteq> []" "CHR '']'' \<notin> set ''name''"
    "map_of [(''name'', JStr ''Aria'')] (js_trim ''name'') = Some (JStr ''Aria'')"
    by (simp_all add: starts_with_def js_trim_def trim_start_def trim_end_def is_ws_def)
  have "replaceVars ''!'' (JObj [(''name'', JStr ''Aria'')]) = ''!''"
    by (simp add: replaceVars_def placeholder_at_def)
  then show ?thesis using replaceVars_string_var [OF h, of "''!''"]
    by (simp add: js_trim_def trim_start_def trim_end_def is_ws_def)
qed


end
