(* ===== verification/Iframe.thy ===== *)
theory Iframe
  imports Render
begin

text \<open>
  The embedding side of \<open>IframeManager\<close> (\<open>src/template-editor.js\<close>, lines 817--1019).
  \<open>createWrapper\<close> (819--846) returns the markup of an empty \<open>iframe\<close> and schedules
  the write of the (macro-substituted) document into it; \<open>writeContentToIframe\<close>
  (848--873) injects the bridge script before the first \<open></body>\<close>, else before the
  first \<open></html>\<close>, else wraps the content in a document skeleton. The bridge's
  \<open>updateTemplateVariables\<close> (lines 887--910, inside the script of
  \<open>getInlineScript\<close>) rewrites the text of every element tagged
  \<open>data-xiaobaix-var\<close> with the variable's value converted to text (lines
  891--899).

  The iframe id (\<open>Date.now()\<close> and \<open>Math.random()\<close>), the host's
  \<open>substituteParams\<close> and the text of the bridge script are parameters. The elements
  an update visits are the document's \<open>[data-xiaobaix-var]\<close> elements in document
  order, as pairs of the attribute and the text.
\<close>

definition spaces :: "nat \<Rightarrow> string" where
  "spaces n = replicate n (CHR '' '')"

text \<open>The template literal of lines 832--838, for the iframe id \<open>fid\<close>.\<close>

definition wrapper_html :: "string \<Rightarrow> string" where
  "wrapper_html fid =
     [nl] @ spaces 8 @ ''<div class=\"xiaobaix-iframe-wrapper\" style=\"margin: 10px 0;\">'' @
     [nl] @ spaces 12 @ ''<iframe id=\"'' @ fid @ ''\" class=\"xiaobaix-iframe\"'' @
     [nl] @ spaces 16 @
       ''style=\"width:100%;border:none;background:transparent;overflow:hidden;margin:0;padding:0;display:block\"'' @
     [nl] @ spaces 16 @ ''frameborder=\"0\" scrolling=\"no\"></iframe>'' @
     [nl] @ spaces 8 @ ''</div>'' @ [nl] @ spaces 4"

text \<open>\<open>createWrapper(content)\<close>: the markup, and the pending write of the document
  into the iframe \<open>fid\<close> (the \<open>setTimeout\<close> of lines 840--843). A
  \<open>substituteParams\<close> that is not a function leaves the content as it is.\<close>

definition createWrapper :: "(string \<Rightarrow> string) option \<Rightarrow> string \<Rightarrow> string \<Rightarrow> string \<times> string \<times> string" where
  "createWrapper subst fid content =
     (wrapper_html fid, fid, case subst of Some f \<Rightarrow> f content | None \<Rightarrow> content)"

definition bridge_tag :: "string \<Rightarrow> string" where
  "bridge_tag src = ''<script type=\"text/javascript\">'' @ src @ ''</script>''"

definition doc_head :: string where
  "doc_head = ''<!DOCTYPE html><html><head><meta charset=\"utf-8\"></head><body>''"

text \<open>Lines 852--864 for the script tag \<open>script\<close>.\<close>

definition insert_bridge :: "string \<Rightarrow> string \<Rightarrow> string" where
  "insert_bridge script content =
     (let wrapped =
        (if contains content ''</body>'' then replace_first content ''</body>'' (script @ ''</body>'')
         else if contains content ''</html>'' then replace_first content ''</html>'' (script @ ''</html>'')
         else content)
      in if wrapped = content then doc_head @ content @ script @ ''</body></html>'' else wrapped)"

text \<open>The document \<open>writeContentToIframe\<close> writes, for the bridge source \<open>src\<close>
  (\<open>getInlineScript()\<close>).\<close>

definition writeContentToIframe :: "string \<Rightarrow> string \<Rightarrow> string" where
  "writeContentToIframe src content = insert_bridge (bridge_tag src) content"

text \<open>The text an element gets for a value, lines 891--899.\<close>

definition el_text :: "jval \<Rightarrow> string" where
  "el_text v =
     (case v of
        JNull \<Rightarrow> []
      | JArr xs \<Rightarrow> join_with '', '' (map join_elem xs)
      | JObj kvs \<Rightarrow> json_stringify (JObj kvs)
      | _ \<Rightarrow> js_string v)"

type_synonym var_elems = "(string \<times> string) list"

text \<open>\<open>window.updateTemplateVariables(variables)\<close>, lines 887--902: for each own
  entry, every element whose attribute is the name gets the value's text.\<close>

definition updateTemplateVariables :: "jval \<Rightarrow> var_elems \<Rightarrow> var_elems" where
  "updateTemplateVariables vars elems =
     foldl (\<lambda>es kv. map (\<lambda>(n, t). if n = fst kv then (n, el_text (snd kv)) else (n, t)) es)
       elems (own_entries vars)"

section \<open>Lemmas\<close>

lemma bridge_tag_not_Nil [simp]: "bridge_tag src \<noteq> []"
  by (simp add: bridge_tag_def)

lemma insert_at_find:
  assumes "find_sub c p = Some k"
  shows "replace_first c p (s @ p) = take k c @ s @ drop k c"
proof -
  have "starts_with (drop k c) p" using assms find_sub_Some by blast
  then have "p @ drop (k + length p) c = drop k c"
    using starts_with_drop [of "drop k c" p] by (simp add: add.commute)
  then show ?thesis using replace_first_find [OF assms] by simp
qed

lemma insert_nonempty_differs: "s \<noteq> [] \<Longrightarrow> take k c @ s @ drop k c \<noteq> c"
  by (metis append.assoc append_take_drop_id append_self_conv2 same_append_eq)

text \<open>C9: The document written into an embedded frame is the content with the bridge
  script inserted right before its first \<open></body>\<close>, else right before its first
  \<open></html>\<close>, else the content wrapped in a document skeleton whose body ends with
  the script.\<close>

theorem writeContentToIframe_spec:
  "writeContentToIframe src c =
     (case find_sub c ''</body>'' of
        Some k \<Rightarrow> take k c @ bridge_tag src @ drop k c
      | None \<Rightarrow>
          (case find_sub c ''</html>'' of
             Some k \<Rightarrow> take k c @ bridge_tag src @ drop k c
           | None \<Rightarrow> doc_head @ c @ bridge_tag src @ ''</body></html>''))"
proof (cases "find_sub c ''</body>''")
  case (Some k)
  then have "contains c ''</body>''" using find_sub_None [of c "''</body>''"] by simp
  with Some show ?thesis
    by (simp add: writeContentToIframe_def insert_bridge_def insert_at_find insert_nonempty_differs)
next
  case None
  then have nb: "\<not> contains c ''</body>''" using find_sub_None by blast
  show ?thesis
  proof (cases "find_sub c ''</html>''")
    case (Some k)
    then have "contains c ''</html>''" using find_sub_None [of c "''</html>''"] by simp
    with Some None nb show ?thesis
      by (simp add: writeContentToIframe_def insert_bridge_def insert_at_find insert_nonempty_differs)
  next
    case None2: None
    then have "\<not> contains c ''</html>''" using find_sub_None by blast
    with None None2 nb show ?thesis by (simp add: writeContentToIframe_def insert_bridge_def)
  qed
qed


end
