(* ===== verification/History.thy ===== *)
theory History
  imports JsValue
begin

text \<open>
  The per-message variable history of \<open>src/template-editor.js\<close>:
  \<open>MessageHandler.updateHistory\<close> (lines 1107--1118) keeps, for every message id and
  variable name, the most recent values seen by successive extraction passes. A value
  is appended when the history is empty or its last entry is not identical
  (\<open>!==\<close>) to the new value, and the oldest entry is dropped once there are more
  than five. The process-wide \<open>state.variableHistory\<close> is a map from message ids to
  maps from names to value lists.
\<close>

type_synonym var_hist = "string \<rightharpoonup> jval list"

type_synonym hist_store = "nat \<rightharpoonup> var_hist"

definition hist_cap :: nat where
  "hist_cap = 5"

text \<open>One variable: lines 1110--1114.\<close>

definition push_value :: "jval list \<Rightarrow> jval \<Rightarrow> jval list" where
  "push_value vh v =
     (if vh = [] \<or> \<not> same_value_fresh (last vh) v then
        (let vh' = vh @ [v] in if length vh' > hist_cap then tl vh' else vh')
      else vh)"

text \<open>\<open>Object.entries(variables).forEach(...)\<close>: lines 1109--1116.\<close>

definition record_entries :: "var_hist \<Rightarrow> jobj \<Rightarrow> var_hist" where
  "record_entries h entries =
     foldl (\<lambda>acc kv. acc(fst kv \<mapsto> push_value (case acc (fst kv) of None \<Rightarrow> [] | Some l \<Rightarrow> l) (snd kv)))
       h entries"

text \<open>The whole handler: lines 1107--1118.\<close>

definition updateHistory :: "hist_store \<Rightarrow> nat \<Rightarrow> jval \<Rightarrow> hist_store" where
  "updateHistory H mid vars =
     H(mid \<mapsto> record_entries (case H mid of None \<Rightarrow> Map.empty | Some h \<Rightarrow> h) (own_entries vars))"

text \<open>Every recorded list is within the cap.\<close>

definition hist_bounded :: "hist_store \<Rightarrow> bool" where
  "hist_bounded H \<longleftrightarrow> (\<forall>mid h. H mid = Some h \<longrightarrow> (\<forall>k l. h k = Some l \<longrightarrow> length l \<le> hist_cap))"

section \<open>Lemmas\<close>

lemma push_value_length: "length vh \<le> hist_cap \<Longrightarrow> length (push_value vh v) \<le> hist_cap"
  by (auto simp: push_value_def Let_def hist_cap_def)

lemma push_value_fresh:
  "vh = [] \<or> \<not> same_value_fresh (last vh) v \<Longrightarrow> length vh \<le> hist_cap \<Longrightarrow>
   push_value vh v = drop (length (vh @ [v]) - hist_cap) (vh @ [v])"
proof -
  assume fresh: "vh = [] \<or> \<not> same_value_fresh (last vh) v" and len: "length vh \<le> hist_cap"
  show ?thesis
  proof (cases "length vh = hist_cap")
    case True
    then have "vh \<noteq> []" by (auto simp: hist_cap_def)
    then have "tl (vh @ [v]) = drop 1 (vh @ [v])" by (cases vh) simp_all
    with True fresh show ?thesis by (simp add: push_value_def Let_def)
  next
    case False
    with fresh len show ?thesis by (simp add: push_value_def Let_def)
  qed
qed

lemma record_entries_bounded:
  "(\<forall>k l. h k = Some l \<longrightarrow> length l \<le> hist_cap) \<Longrightarrow>
   record_entries h es k = Some l \<Longrightarrow> length l \<le> hist_cap"
proof (induction es arbitrary: h)
  case Nil
  then show ?case by (simp add: record_entries_def)
next
  case (Cons kv es)
  let ?h' = "h(fst kv \<mapsto> push_value (case h (fst kv) of None \<Rightarrow> [] | Some l \<Rightarrow> l) (snd kv))"
  have "\<forall>k l. ?h' k = Some l \<longrightarrow> length l \<le> hist_cap"
    using Cons.prems(1) by (auto intro!: push_value_length split: option.splits)
  moreover have "record_entries ?h' es k = Some l"
    using Cons.prems(2) by (simp add: record_entries_def)
  ultimately show ?case by (rule Cons.IH)
qed

lemma record_entries_other: "k \<notin> set (map fst es) \<Longrightarrow> record_entries h es k = h k"
  by (induction es arbitrary: h) (auto simp: record_entries_def)

lemma successively_append_right: "successively P (xs @ ys) \<Longrightarrow> successively P ys"
  by (simp add: successively_append_iff)

lemma push_values_window:
  assumes "successively (\<lambda>a b. \<not> same_value_fresh a b) (vh @ vs)" and "length vh \<le> hist_cap"
  shows "foldl push_value vh vs = drop (length (vh @ vs) - hist_cap) (vh @ vs)"
  using assms
proof (induction vs arbitrary: vh)
  case Nil
  then show ?case by simp
next
  case (Cons v vs)
  have fresh: "vh = [] \<or> \<not> same_value_fresh (last vh) v"
    using Cons.prems(1) by (cases vh rule: rev_cases) (auto simp: successively_append_iff)
  let ?vh' = "drop (length (vh @ [v]) - hist_cap) (vh @ [v])"
  have step: "push_value vh v = ?vh'"
    using fresh Cons.prems(2) by (rule push_value_fresh)
  have len: "length ?vh' \<le> hist_cap" by simp
  have "successively (\<lambda>a b. \<not> same_value_fresh a b) (?vh' @ vs)"
  proof -
    have "vh @ v # vs = take (length (vh @ [v]) - hist_cap) (vh @ [v]) @ (?vh' @ vs)"
      by (simp only: append_assoc [symmetric] append_take_drop_id) simp
    then show ?thesis
      using Cons.prems(1) successively_append_right by metis
  qed
  then have "foldl push_value ?vh' vs = drop (length (?vh' @ vs) - hist_cap) (?vh' @ vs)"
    using len by (rule Cons.IH)
  moreover have "drop (length (?vh' @ vs) - hist_cap) (?vh' @ vs) =
                 drop (length (vh @ v # vs) - hist_cap) (vh @ v # vs)"
  proof -
    let ?n = "length (vh @ [v]) - hist_cap"
    have a: "?vh' @ vs = drop ?n (vh @ v # vs)"
      by (simp add: drop_append hist_cap_def)
    have b: "length (?vh' @ vs) - hist_cap + ?n = length (vh @ v # vs) - hist_cap"
      using Cons.prems(2) by (simp add: hist_cap_def)
    show ?thesis
      by (metis a b drop_drop)
  qed
  ultimately show ?case
    using step by simp
qed


lemma record_entries_single [simp]: "record_entries h [(k, v)] = h(k \<mapsto> push_value (case h k of None \<Rightarrow> [] | Some l \<Rightarrow> l) v)"
  by (simp add: record_entries_def)

lemma own_entries_JObj [simp]: "own_entries (JObj kvs) = kvs"
  by (simp add: own_entries_def)

lemma history_single_var_passes:
  "H mid = Some [k \<mapsto> vh] \<Longrightarrow>
   (foldl (\<lambda>H v. updateHistory H mid (JObj [(k, v)])) H vs) mid = Some [k \<mapsto> foldl push_value vh vs]"
proof (induction vs arbitrary: H vh)
  case Nil
  then show ?case by simp
next
  case (Cons v vs)
  have "(updateHistory H mid (JObj [(k, v)])) mid = Some [k \<mapsto> push_value vh v]"
    using Cons.prems by (simp add: updateHistory_def fun_eq_iff)
  then have "(foldl (\<lambda>H v. updateHistory H mid (JObj [(k, v)])) (updateHistory H mid (JObj [(k, v)])) vs) mid =
             Some [k \<mapsto> foldl push_value (push_value vh v) vs]"
    by (rule Cons.IH)
  then show ?case by (simp add: fun_eq_iff)
qed

lemma updateHistory_bounded:
  assumes "hist_bounded H"
  shows "hist_bounded (updateHistory H mid vars)"
  unfolding hist_bounded_def
proof (intro allI impI)
  fix m h k l
  assume m: "updateHistory H mid vars m = Some h" and l: "h k = Some l"
  show "length l \<le> hist_cap"
  proof (cases "m = mid")
    case True
    let ?h0 = "case H mid of None \<Rightarrow> Map.empty | Some h \<Rightarrow> h"
    have "\<forall>k l. ?h0 k = Some l \<longrightarrow> length l \<le> hist_cap"
      using assms by (auto simp: hist_bounded_def split: option.splits)
    moreover have "record_entries ?h0 (own_entries vars) k = Some l"
      using True m l by (simp add: updateHistory_def)
    ultimately show ?thesis by (rule record_entries_bounded)
  next
    case False
    then show ?thesis
      using assms m l by (auto simp: updateHistory_def hist_bounded_def)
  qed
qed

text \<open>Appending pairwise-distinct values for one variable over successive extraction passes
  keeps exactly the last five, oldest first.\<close>

theorem history_keeps_last_five:
  assumes "H mid = None" and "successively (\<lambda>a b. \<not> same_value_fresh a b) vs" and "vs \<noteq> []"
  shows "(foldl (\<lambda>H v. updateHistory H mid (JObj [(k, v)])) H vs) mid =
         Some [k \<mapsto> drop (length vs - hist_cap) vs]"
proof -
  obtain v vs' where vs: "vs = v # vs'" using assms(3) by (cases vs) auto
  let ?H1 = "updateHistory H mid (JObj [(k, v)])"
  have "?H1 mid = Some [k \<mapsto> push_value [] v]"
    using assms(1) by (simp add: updateHistory_def)
  then have "(foldl (\<lambda>H v. updateHistory H mid (JObj [(k, v)])) ?H1 vs') mid =
             Some [k \<mapsto> foldl push_value (push_value [] v) vs']"
    by (rule history_single_var_passes)
  moreover have "foldl push_value [] vs = drop (length ([] @ vs) - hist_cap) ([] @ vs)"
    using assms(2) by (intro push_values_window) simp_all
  ultimately show ?thesis
    using vs by simp
qed

theorem history_keeps_last_five_witness:
  "(foldl (\<lambda>H v. updateHistory H 3 (JObj [(''hp'', v)])) Map.empty (map (\<lambda>i. JNum i 0) [1..7])) 3 =
   Some [''hp'' \<mapsto> [JNum 3 0, JNum 4 0, JNum 5 0, JNum 6 0, JNum 7 0]]"
proof -
  have "successively (\<lambda>a b. \<not> same_value_fresh a b) (map (\<lambda>i. JNum i 0) [1..7])"
    by (simp add: upto.simps same_value_fresh_def)
  then show ?thesis
    using history_keeps_last_five [of Map.empty 3 "map (\<lambda>i. JNum i 0) [1..7]" "''hp''"]
    by (simp add: upto.simps hist_cap_def)
qed


end
