(* ===== verification/Lifecycle.thy ===== *)
theory Lifecycle
  imports Settings Iframe History
begin

text \<open>
  \<open>MessageHandler\<close> (\<open>src/template-editor.js\<close>, lines 1021--1222) and the
  \<open>innerHTML\<close> interceptor (lines 1224--1296) as functions on one record of the host
  state. The record extends \<open>tsettings\<close> with the chat (\<open>getContext().chat\<close>), the
  process-wide \<open>state\<close> object (lines 27--50: \<open>messageVariables\<close>,
  \<open>variableHistory\<close>, \<open>pendingUpdates\<close>, the streaming flags and the poll), the
  pending timers, the \<open>innerHTML\<close> of each message's \<open>.mes_text\<close> element and the
  documents written into embedded frames. The host's \<open>updateMessageBlock\<close> is
  recorded in \<open>h_rerender\<close>; what the host then writes into the element is an event of
  its own (theory \<open>Events\<close>), which goes through the interceptor.

  A timer is a \<open>task\<close> in \<open>h_timers\<close>; the delays are not modelled, so a task may run
  at any later step, which covers every order the real delays allow. A handler that does
  not return (an \<open>extractVars\<close> loop that never ends) gives \<open>None\<close>; a thrown
  \<open>TypeError\<close> is returned beside the state reached when it was thrown. The iframe id
  of \<open>createWrapper\<close> (\<open>Date.now()\<close> and \<open>Math.random()\<close>) is drawn from a counter.
  The selectors \<open>iframe.xiaobaix-iframe\<close> and \<open>.xiaobaix-iframe-wrapper\<close> are read
  on the element's markup as the class attributes \<open>createWrapper\<close> writes.
\<close>

record message =
  m_mes :: string
  m_is_user :: bool
  m_is_system :: bool
  m_force_avatar :: bool
  m_avatar :: "string option"
  m_display :: "string option"

text \<open>\<open>m_avatar\<close> is what \<open>utils.getCharAvatar(msg)\<close> (lines 53--55) gives for the
  message; \<open>m_display\<close> is \<open>msg.extra.display_text\<close>.\<close>

datatype task =
    TProcess nat
  | TSwipe nat
  | TWrite string string
  | TUpdateVars nat jval
  | TSendUpdate nat jval
  | TReapply bool
  | TEnable
  | TInit
  | TCheck
  | TFlush
  | TBatch "nat list"

datatype push = PushVars nat jval | PostVars nat jval

record hstate = tsettings +
  h_chat :: "message list"
  h_chid :: "nat option"
  h_vars :: "nat \<rightharpoonup> jval"
  h_hist :: hist_store
  h_streaming :: bool
  h_generating :: bool
  h_check_active :: bool
  h_intercepting :: bool
  h_timers :: "task list"
  h_pending :: "nat list"
  h_rerender :: "nat list"
  h_dom :: "nat \<rightharpoonup> string"
  h_docs :: "string \<rightharpoonup> string"
  h_pushes :: "push list"
  h_fresh :: nat

text \<open>The platform: the RegExp compiler, the host's \<open>substituteParams\<close> (\<open>None\<close> when it
  is not a function), the bridge script (\<open>getInlineScript()\<close>) and whether
  \<open>requestIdleCallback\<close> exists.\<close>

record env =
  e_compile :: rx_compiler
  e_subst :: "(string \<Rightarrow> string) option"
  e_bridge :: string
  e_idle :: bool

type_synonym outcome = "(hstate \<times> js_error option) option"

section \<open>Helpers\<close>

definition lookup_msg :: "message list \<Rightarrow> nat \<Rightarrow> message option" where
  "lookup_msg chat i = (if i < length chat then Some (chat ! i) else None)"

definition display_truthy :: "message \<Rightarrow> bool" where
  "display_truthy m \<longleftrightarrow> (case m_display m of Some t \<Rightarrow> t \<noteq> [] | None \<Rightarrow> False)"

definition set_msg :: "nat \<Rightarrow> message \<Rightarrow> hstate \<Rightarrow> hstate" where
  "set_msg i m st = st\<lparr>h_chat := (h_chat st)[i := m]\<rparr>"

definition rerender :: "nat \<Rightarrow> hstate \<Rightarrow> hstate" where
  "rerender i st = st\<lparr>h_rerender := h_rerender st @ [i]\<rparr>"

definition schedule :: "task \<Rightarrow> hstate \<Rightarrow> hstate" where
  "schedule t st = st\<lparr>h_timers := h_timers st @ [t]\<rparr>"

definition frame_id :: "nat \<Rightarrow> string" where
  "frame_id n = ''xiaobaix-'' @ nat_str n"

definition has_iframe :: "string \<Rightarrow> bool" where
  "has_iframe h \<longleftrightarrow> contains h ''class=\"xiaobaix-iframe\"''"

definition has_wrapper :: "string \<Rightarrow> bool" where
  "has_wrapper h \<longleftrightarrow> contains h ''class=\"xiaobaix-iframe-wrapper\"''"

definition dom_has :: "(string \<Rightarrow> bool) \<Rightarrow> hstate \<Rightarrow> nat \<Rightarrow> bool" where
  "dom_has P st i \<longleftrightarrow> (case h_dom st i of Some h \<Rightarrow> P h | None \<Rightarrow> False)"

definition set_dom :: "nat \<Rightarrow> string \<Rightarrow> hstate \<Rightarrow> hstate" where
  "set_dom i v st = st\<lparr>h_dom := (h_dom st)(i \<mapsto> v)\<rparr>"

section \<open>MessageHandler\<close>

text \<open>\<open>clearTemplate(messageId, msg)\<close>, lines 1098--1105.\<close>

definition clearTemplate :: "nat \<Rightarrow> message \<Rightarrow> hstate \<Rightarrow> hstate" where
  "clearTemplate i msg st =
     (let st1 = (if display_truthy msg then rerender i (set_msg i (msg\<lparr>m_display := None\<rparr>) st) else st)
      in st1\<lparr>h_vars := (h_vars st1)(i := None), h_hist := (h_hist st1)(i := None)\<rparr>)"

text \<open>The loop of \<open>clearPreviousIframes\<close> (lines 1075--1095), from \<open>i - 1\<close> down to
  \<open>0\<close>; its body for the message found is that of \<open>clearTemplate\<close>.\<close>

fun clear_prev_loop :: "string option \<Rightarrow> nat \<Rightarrow> hstate \<Rightarrow> hstate" where
  "clear_prev_loop av 0 st = st"
| "clear_prev_loop av (Suc i) st =
     (case lookup_msg (h_chat st) i of
        None \<Rightarrow> clear_prev_loop av i st
      | Some msg \<Rightarrow>
          if m_is_system msg \<or> m_is_user msg then clear_prev_loop av i st
          else if m_avatar msg \<noteq> av then clear_prev_loop av i st
          else if dom_has has_iframe st i then clearTemplate i msg st
          else clear_prev_loop av i st)"

definition clearPreviousIframes :: "nat \<Rightarrow> string option \<Rightarrow> hstate \<Rightarrow> hstate" where
  "clearPreviousIframes cur av st = (if h_chat st = [] then st else clear_prev_loop av cur st)"

text \<open>Lines 1045--1068 of \<open>process\<close>, once the variables are extracted: store them,
  record the history, render, embed a document, commit the display text and schedule the
  pushes into the frame.\<close>

definition render_step :: "env \<Rightarrow> nat \<Rightarrow> message \<Rightarrow> char_settings \<Rightarrow> jval \<Rightarrow> hstate \<Rightarrow> hstate" where
  "render_step env mid msg cs vars st =
     (let st1 = st\<lparr>h_vars := (h_vars st)(mid \<mapsto> vars), h_hist := updateHistory (h_hist st) mid vars\<rparr>;
          txt = replaceVars (cs_template cs) vars;
          (shown, st2) =
            (if isCustomTemplate txt then
               (let fid = frame_id (h_fresh st1);
                    w = createWrapper (e_subst env) fid txt;
                    st3 = schedule (TWrite fid (snd (snd w))) (st1\<lparr>h_fresh := Suc (h_fresh st1)\<rparr>);
                    st4 = (if cs_limit cs then clearPreviousIframes mid (m_avatar msg) st3 else st3)
                in (fst w, schedule (TUpdateVars mid vars) st4))
             else (txt, st1));
          st5 = (if shown \<noteq> [] then rerender mid (set_msg mid (msg\<lparr>m_display := Some shown\<rparr>) st2) else st2)
      in schedule (TSendUpdate mid vars) st5)"

text \<open>\<open>MessageHandler.process(messageId)\<close>, lines 1022--1069.\<close>

definition process :: "env \<Rightarrow> nat \<Rightarrow> hstate \<Rightarrow> outcome" where
  "process env mid st =
     (if \<not> ts_enabled st then Some (st, None) else
      case lookup_msg (h_chat st) mid of
        None \<Rightarrow> Some (st, None)
      | Some msg \<Rightarrow>
          if m_force_avatar msg \<or> m_is_user msg \<or> m_is_system msg then Some (st, None) else
          (case getCharTemplate (m_avatar msg) st of
             (None, st1) \<Rightarrow> Some (st1, None)
           | (Some cs, st1) \<Rightarrow>
               if cs_skip_first cs \<and> mid = 0 then Some (st1, None)
               else if cs_limit cs \<and> mid < min_message_id cs (length (h_chat st1)) then
                 Some (clearTemplate mid msg st1, None)
               else
                 (case extractVars (regex_of (e_compile env) cs) (m_mes msg) of
                    None \<Rightarrow> None
                  | Some (Inl e) \<Rightarrow> Some (st1, Some e)
                  | Some (Inr vars) \<Rightarrow> Some (render_step env mid msg cs vars st1, None))))"

text \<open>A run of \<open>process\<close> calls, as \<open>processBatch\<close> makes them: they are not awaited,
  so a thrown error ends only its own call.\<close>

fun process_seq :: "env \<Rightarrow> nat list \<Rightarrow> hstate \<Rightarrow> hstate option" where
  "process_seq env [] st = Some st"
| "process_seq env (i # is) st =
     (case process env i st of
        None \<Rightarrow> None
      | Some (st', _) \<Rightarrow> process_seq env is st')"

text \<open>\<open>processBatch(messageIds)\<close>, lines 1147--1167: with \<open>requestIdleCallback\<close> the
  whole batch waits for an idle callback; otherwise the first ten are processed at once
  and the rest waits for a timer. \<open>batch_chunk\<close> is one callback that processes \<open>k\<close>
  messages.\<close>

definition batch_chunk :: "env \<Rightarrow> nat \<Rightarrow> nat list \<Rightarrow> hstate \<Rightarrow> hstate option" where
  "batch_chunk env k ids st =
     map_option (\<lambda>st'. if drop k ids = [] then st' else schedule (TBatch (drop k ids)) st')
       (process_seq env (take k ids) st)"

definition processBatch :: "env \<Rightarrow> nat list \<Rightarrow> hstate \<Rightarrow> hstate option" where
  "processBatch env ids st =
     (if e_idle env then Some (schedule (TBatch ids) st) else batch_chunk env 10 ids st)"

text \<open>\<open>clearAll()\<close>, lines 1169--1189: the display texts are deleted, their re-renders
  queued in \<open>pendingUpdates\<close> (a map keyed by id) for one animation frame, and the
  variables and histories dropped.\<close>

definition clearAll :: "hstate \<Rightarrow> hstate" where
  "clearAll st =
     (if h_chat st = [] then st else
      let marked = filter (\<lambda>i. display_truthy (h_chat st ! i)) [0..<length (h_chat st)];
          pend = h_pending st @ filter (\<lambda>i. i \<notin> set (h_pending st)) marked;
          st1 = st\<lparr>h_chat := map (\<lambda>m. if display_truthy m then m\<lparr>m_display := None\<rparr> else m) (h_chat st),
                   h_pending := pend\<rparr>;
          st2 = (if pend \<noteq> [] then schedule TFlush st1 else st1)
      in st2\<lparr>h_vars := Map.empty, h_hist := Map.empty\<rparr>)"

text \<open>One step of the \<open>reduce\<close> of \<open>reapplyAll\<close> (lines 1128--1142), which threads
  the template cache.\<close>

definition reapply_pick :: "nat \<Rightarrow> nat list \<times> hstate \<Rightarrow> nat \<times> message \<Rightarrow> nat list \<times> hstate" where
  "reapply_pick len acc_st im =
     (let (acc, st) = acc_st; (i, msg) = im
      in if m_is_system msg \<or> m_is_user msg then (acc, st)
         else (case getCharTemplate (m_avatar msg) st of
                 (None, st1) \<Rightarrow> (acc, st1)
               | (Some cs, st1) \<Rightarrow>
                   if cs_enabled cs \<and> cs_template cs \<noteq> [] then
                     (if cs_limit cs \<and> i < min_message_id cs len then (acc, st1) else (acc @ [i], st1))
                   else (acc, st1)))"

definition reapply_ids :: "hstate \<Rightarrow> nat list \<times> hstate" where
  "reapply_ids st =
     foldl (reapply_pick (length (h_chat st))) ([], st) (zip [0..<length (h_chat st)] (h_chat st))"

text \<open>\<open>reapplyAll()\<close>, lines 1120--1145.\<close>

definition reapplyAll :: "env \<Rightarrow> hstate \<Rightarrow> hstate option" where
  "reapplyAll env st =
     (if \<not> ts_enabled st then Some st
      else if h_chat st = [] then Some st
      else (let (ids, st1) = reapply_ids (clearAll st) in processBatch env ids st1))"

text \<open>The streaming poll, lines 1191--1221: \<open>h_streaming\<close> is
  \<open>state.observers.streaming\<close> being set; \<open>streaming_tick\<close> is one run of the interval
  callback.\<close>

definition startStreamingCheck :: "hstate \<Rightarrow> hstate" where
  "startStreamingCheck st = (if h_streaming st then st else st\<lparr>h_streaming := True\<rparr>)"

definition stopStreamingCheck :: "hstate \<Rightarrow> hstate" where
  "stopStreamingCheck st = (if h_streaming st then st\<lparr>h_streaming := False, h_generating := False\<rparr> else st)"

definition streaming_tick :: "env \<Rightarrow> hstate \<Rightarrow> outcome" where
  "streaming_tick env st =
     (if \<not> h_generating st then Some (st, None)
      else if h_chat st = [] then Some (st, None)
      else
        (let last_id = length (h_chat st) - 1; msg = h_chat st ! last_id
         in if m_is_system msg \<or> m_is_user msg then Some (st, None)
            else (case getCharTemplate (m_avatar msg) st of
                    (None, st1) \<Rightarrow> Some (st1, None)
                  | (Some _, st1) \<Rightarrow> process env last_id st1)))"

section \<open>The interceptor\<close>

text \<open>The \<open>innerHTML\<close> setter installed by \<open>interceptor.setup\<close> (lines 1236--1290),
  for the \<open>.mes_text\<close> element of message \<open>i\<close> being given \<open>v\<close>. \<open>write\<close> is the
  original setter (line 1289); the branches that \<open>return\<close> before it leave the element
  as it was.\<close>

definition intercept_render :: "env \<Rightarrow> nat \<Rightarrow> string \<Rightarrow> message \<Rightarrow> jval \<Rightarrow> string \<Rightarrow> hstate \<Rightarrow> hstate" where
  "intercept_render env i v msg vars txt st =
     (let st1 = st\<lparr>h_vars := (h_vars st)(i \<mapsto> vars), h_hist := updateHistory (h_hist st) i vars\<rparr>
      in if js_trim txt \<noteq> [] then
           (if isCustomTemplate txt then
              (let fid = frame_id (h_fresh st1);
                   w = createWrapper (e_subst env) fid txt
               in schedule (TUpdateVars i vars)
                    (schedule (TWrite fid (snd (snd w)))
                      (set_dom i (fst w) (st1\<lparr>h_fresh := Suc (h_fresh st1)\<rparr>))))
            else set_dom i v (set_msg i (msg\<lparr>m_display := Some txt\<rparr>) st1))
         else set_dom i v st1)"

definition intercept :: "env \<Rightarrow> nat \<Rightarrow> string \<Rightarrow> hstate \<Rightarrow> outcome" where
  "intercept env i v st =
     (if \<not> (h_intercepting st \<and> ts_enabled st) then Some (set_dom i v st, None) else
      case lookup_msg (h_chat st) i of
        None \<Rightarrow> Some (set_dom i v st, None)
      | Some msg \<Rightarrow>
          if m_is_system msg \<or> m_is_user msg then Some (set_dom i v st, None) else
          (case getCharTemplate (m_avatar msg) st of
             (None, st1) \<Rightarrow> Some (set_dom i v st1, None)
           | (Some cs, st1) \<Rightarrow>
               if cs_skip_first cs \<and> i = 0 then Some (st1, None)
               else if cs_limit cs \<and> i < min_message_id cs (length (h_chat st1)) then
                 Some (set_dom i (m_mes msg)
                         (if display_truthy msg then set_msg i (msg\<lparr>m_display := None\<rparr>) st1 else st1), None)
               else if dom_has has_wrapper st1 i then Some (st1, None)
               else
                 (case extractVars (regex_of (e_compile env) cs) (m_mes msg) of
                    None \<Rightarrow> None
                  | Some (Inl e) \<Rightarrow> Some (st1, Some e)
                  | Some (Inr vars) \<Rightarrow>
                      Some (intercept_render env i v msg vars (replaceVars (cs_template cs) vars) st1, None))))"

text \<open>What \<open>reapplyAll\<close> is meant to select (the spec's "limit to recent
  \<open>N\<close>" rule): a character message whose avatar has an enabled configuration with a
  template, outside the window only when the window is not limited.\<close>

definition reapply_ok :: "hstate \<Rightarrow> message \<Rightarrow> nat \<Rightarrow> bool" where
  "reapply_ok st m i \<longleftrightarrow>
     \<not> m_is_system m \<and> \<not> m_is_user m \<and>
     (case char_template_spec (m_avatar m) st of
        None \<Rightarrow> False
      | Some cs \<Rightarrow> cs_enabled cs \<and> cs_template cs \<noteq> [] \<and>
                   \<not> (cs_limit cs \<and> i < min_message_id cs (length (h_chat st))))"

section \<open>Frame of the handlers\<close>

text \<open>What every handler of this theory leaves alone: the settings, the streaming flags,
  the coherence of the template cache and the bound on the histories.\<close>

definition keeps :: "hstate \<Rightarrow> hstate \<Rightarrow> bool" where
  "keeps st st' \<longleftrightarrow>
     ts_char st' = ts_char st \<and> ts_bindings st' = ts_bindings st \<and> ts_enabled st' = ts_enabled st \<and>
     ts_xb_enabled st' = ts_xb_enabled st \<and> h_streaming st' = h_streaming st \<and>
     h_generating st' = h_generating st \<and> h_check_active st' = h_check_active st \<and>
     (cache_ok st \<longrightarrow> cache_ok st') \<and> (hist_bounded (h_hist st) \<longrightarrow> hist_bounded (h_hist st'))"

section \<open>Lemmas\<close>

lemma hist_bounded_le: "hist_bounded H \<Longrightarrow> H' \<subseteq>\<^sub>m H \<Longrightarrow> hist_bounded H'"
  by (auto simp: hist_bounded_def map_le_def dom_def)

lemma cache_ok_cong:
  "ts_tcache st' = ts_tcache st \<Longrightarrow> ts_char st' = ts_char st \<Longrightarrow> ts_bindings st' = ts_bindings st \<Longrightarrow>
   cache_ok st' = cache_ok st"
  by (simp add: cache_ok_def char_template_fresh_def cong: option.case_cong)

lemma keeps_refl [simp]: "keeps st st"
  by (simp add: keeps_def)

lemma keeps_trans: "keeps a b \<Longrightarrow> keeps b c \<Longrightarrow> keeps a c"
  by (simp add: keeps_def)

lemma keeps_frame:
  assumes "keeps a b" and "ts_char c = ts_char b" "ts_bindings c = ts_bindings b" "ts_tcache c = ts_tcache b"
    "ts_enabled c = ts_enabled b" "ts_xb_enabled c = ts_xb_enabled b" "h_streaming c = h_streaming b"
    "h_generating c = h_generating b" "h_check_active c = h_check_active b" "h_hist c \<subseteq>\<^sub>m h_hist b"
  shows "keeps a c"
  using assms cache_ok_cong [of c b] hist_bounded_le [of "h_hist b" "h_hist c"] by (auto simp: keeps_def)

lemma keeps_schedule [intro!]: "keeps a b \<Longrightarrow> keeps a (schedule t b)"
  by (erule keeps_frame) (simp_all add: schedule_def)

lemma keeps_rerender [intro!]: "keeps a b \<Longrightarrow> keeps a (rerender i b)"
  by (erule keeps_frame) (simp_all add: rerender_def)

lemma keeps_set_msg [intro!]: "keeps a b \<Longrightarrow> keeps a (set_msg i m b)"
  by (erule keeps_frame) (simp_all add: set_msg_def)

lemma keeps_set_dom [intro!]: "keeps a b \<Longrightarrow> keeps a (set_dom i v b)"
  by (erule keeps_frame) (simp_all add: set_dom_def)

lemma keeps_fresh [intro!]: "keeps a b \<Longrightarrow> keeps a (b\<lparr>h_fresh := n\<rparr>)"
  by (erule keeps_frame) simp_all

lemma keeps_push [intro!]: "keeps a b \<Longrightarrow> keeps a (b\<lparr>h_pushes := p\<rparr>)"
  by (erule keeps_frame) simp_all

lemma keeps_docs [intro!]: "keeps a b \<Longrightarrow> keeps a (b\<lparr>h_docs := d\<rparr>)"
  by (erule keeps_frame) simp_all

lemma keeps_drop [intro!]: "keeps a b \<Longrightarrow> keeps a (b\<lparr>h_vars := V, h_hist := (h_hist b)(i := None)\<rparr>)"
  by (erule keeps_frame) (simp_all add: map_le_def)

lemma keeps_store [intro!]:
  "keeps a b \<Longrightarrow> keeps a (b\<lparr>h_vars := V, h_hist := updateHistory (h_hist b) i vars\<rparr>)"
  unfolding keeps_def using updateHistory_bounded cache_ok_cong [of "b\<lparr>h_vars := V, h_hist := updateHistory (h_hist b) i vars\<rparr>" b]
  by auto

lemma keeps_clearTemplate [intro!]: "keeps a b \<Longrightarrow> keeps a (clearTemplate i m b)"
  by (auto simp: clearTemplate_def Let_def)

lemma keeps_clear_prev_loop [intro!]: "keeps a b \<Longrightarrow> keeps a (clear_prev_loop av n b)"
  by (induction av n b rule: clear_prev_loop.induct) (auto split: option.split)

lemma keeps_clearPreviousIframes [intro!]: "keeps a b \<Longrightarrow> keeps a (clearPreviousIframes i av b)"
  by (auto simp: clearPreviousIframes_def)

lemma keeps_getCharTemplate [intro!]:
  assumes ab: "keeps a b"
  shows "keeps a (snd (getCharTemplate av b))"
proof (cases rule: getCharTemplate_cases [where a = av and st = b])
  case skip
  then show ?thesis using ab by simp
next
  case (hit x r)
  then show ?thesis using ab by simp
next
  case (miss x)
  have "cache_ok b \<Longrightarrow> cache_ok (snd (getCharTemplate av b))"
    using getCharTemplate_refines by blast
  with miss ab show ?thesis by (auto simp: keeps_def)
qed

lemma keeps_render_step [intro!]: "keeps a b \<Longrightarrow> keeps a (render_step env i m cs vars b)"
  by (auto simp: render_step_def Let_def split: prod.split)

lemma keeps_gct: "getCharTemplate av b = (r, b') \<Longrightarrow> keeps a b \<Longrightarrow> keeps a b'"
  using keeps_getCharTemplate [of a b av] by simp

lemma keeps_process: "process env i st = Some (st', e) \<Longrightarrow> keeps st st'"
  by (auto simp: process_def intro: keeps_gct split: if_splits option.splits prod.splits sum.splits)

lemma keeps_process_seq: "process_seq env ids st = Some st' \<Longrightarrow> keeps st st'"
proof (induction ids arbitrary: st)
  case Nil
  then show ?case by simp
next
  case (Cons i ids)
  then show ?case
    by (auto split: option.splits prod.splits dest: keeps_process intro: keeps_trans)
qed

lemma keeps_batch_chunk: "batch_chunk env k ids st = Some st' \<Longrightarrow> keeps st st'"
  by (auto simp: batch_chunk_def dest: keeps_process_seq)

lemma keeps_processBatch: "processBatch env ids st = Some st' \<Longrightarrow> keeps st st'"
  by (auto simp: processBatch_def dest: keeps_batch_chunk split: if_splits)

lemma keeps_clearAll [intro!]: "keeps a b \<Longrightarrow> keeps a (clearAll b)"
  by (erule keeps_frame) (simp_all add: clearAll_def Let_def schedule_def)

lemma keeps_reapply_pick: "keeps a (snd acc) \<Longrightarrow> keeps a (snd (reapply_pick len acc im))"
  by (auto simp: reapply_pick_def intro: keeps_gct split: prod.splits option.splits)

lemma keeps_foldl_pick: "keeps a (snd acc) \<Longrightarrow> keeps a (snd (foldl (reapply_pick len) acc ims))"
proof (induction ims arbitrary: acc)
  case Nil
  then show ?case by simp
next
  case (Cons im ims)
  show ?case using Cons.IH [OF keeps_reapply_pick [OF Cons.prems]] by simp
qed

lemma keeps_reapply_ids: "keeps a b \<Longrightarrow> keeps a (snd (reapply_ids b))"
  unfolding reapply_ids_def by (rule keeps_foldl_pick) simp

lemma keeps_reapplyAll: "reapplyAll env st = Some st' \<Longrightarrow> keeps st st'"
proof -
  assume r: "reapplyAll env st = Some st'"
  obtain ids st1 where ri: "reapply_ids (clearAll st) = (ids, st1)" by (cases "reapply_ids (clearAll st)")
  have "keeps st st1" using keeps_reapply_ids [OF keeps_clearAll [OF keeps_refl [of st]]] ri by simp
  then show "keeps st st'"
    using r ri by (auto simp: reapplyAll_def split: if_splits dest: keeps_processBatch intro: keeps_trans)
qed

lemma keeps_gct_process:
  "getCharTemplate av st = (r, st1) \<Longrightarrow> process env i st1 = Some (st', e) \<Longrightarrow> keeps st st'"
  by (meson keeps_gct keeps_process keeps_refl keeps_trans)

lemma keeps_streaming_tick: "streaming_tick env st = Some (st', e) \<Longrightarrow> keeps st st'"
  by (auto simp: streaming_tick_def Let_def intro: keeps_gct keeps_gct_process split: if_splits prod.splits option.splits)

lemma keeps_intercept_render [intro!]: "keeps a b \<Longrightarrow> keeps a (intercept_render env i v m vars txt b)"
  by (auto simp: intercept_render_def Let_def)

lemma keeps_intercept: "intercept env i v st = Some (st', e) \<Longrightarrow> keeps st st'"
  by (auto simp: intercept_def intro: keeps_gct split: if_splits option.splits prod.splits sum.splits)

lemma getCharTemplate_fields [simp]:
  "h_chat (snd (getCharTemplate a st)) = h_chat st"
  "h_vars (snd (getCharTemplate a st)) = h_vars st"
  "h_hist (snd (getCharTemplate a st)) = h_hist st"
  "h_timers (snd (getCharTemplate a st)) = h_timers st"
  "h_rerender (snd (getCharTemplate a st)) = h_rerender st"
  "h_dom (snd (getCharTemplate a st)) = h_dom st"
  "h_fresh (snd (getCharTemplate a st)) = h_fresh st"
  "h_intercepting (snd (getCharTemplate a st)) = h_intercepting st"
  by (cases rule: getCharTemplate_cases [where a = a and st = st]; simp)+

lemma char_template_fresh_gct [simp]:
  "char_template_fresh (snd (getCharTemplate a st)) = char_template_fresh st"
  by (cases rule: getCharTemplate_cases [where a = a and st = st]) (simp_all add: fun_eq_iff)

lemma char_template_spec_gct [simp]:
  "char_template_spec a' (snd (getCharTemplate a st)) = char_template_spec a' st"
  by (simp add: char_template_spec_def isEnabled_def split: option.split)

lemma reapply_fold:
  assumes "cache_ok b" and "length (h_chat b) = len"
  shows "fst (foldl (reapply_pick len) (acc, b) ims) = acc @ map fst (filter (\<lambda>(i, m). reapply_ok b m i) ims)"
  using assms
proof (induction ims arbitrary: acc b)
  case Nil
  then show ?case by simp
next
  case (Cons im ims)
  obtain i m where im: "im = (i, m)" by (cases im)
  obtain r b' where g: "getCharTemplate (m_avatar m) b = (r, b')" by (cases "getCharTemplate (m_avatar m) b")
  have r: "r = char_template_spec (m_avatar m) b" and c': "cache_ok b'"
    using getCharTemplate_refines [OF Cons.prems(1), of "m_avatar m"] g by simp_all
  define b'' where "b'' = (if m_is_system m \<or> m_is_user m then b else b')"
  have c'': "cache_ok b''" using c' Cons.prems(1) by (simp add: b''_def)
  have same: "\<And>j m'. reapply_ok b'' m' j = reapply_ok b m' j"
    using g char_template_spec_gct [of _ "m_avatar m" b] getCharTemplate_fields(1) [of "m_avatar m" b]
    by (simp add: b''_def reapply_ok_def cong: option.case_cong)
  have lb: "length (h_chat b'') = len"
    using Cons.prems(2) g getCharTemplate_fields(1) [of "m_avatar m" b] by (simp add: b''_def)
  have step: "reapply_pick len (acc, b) (i, m) = (if reapply_ok b m i then acc @ [i] else acc, b'')"
    using g r Cons.prems(2) by (auto simp: b''_def reapply_pick_def reapply_ok_def split: option.splits)
  have "fst (foldl (reapply_pick len) (if reapply_ok b m i then acc @ [i] else acc, b'') ims) =
        (if reapply_ok b m i then acc @ [i] else acc) @ map fst (filter (\<lambda>(i, m). reapply_ok b'' m i) ims)"
    by (rule Cons.IH [OF c'' lb])
  then show ?case using step same im by simp
qed

lemma filter_zip_upt:
  "map fst (filter (\<lambda>(i, m). P i m) (zip [a..<a + length xs] xs)) = filter (\<lambda>i. P i (xs ! (i - a))) [a..<a + length xs]"
proof (induction xs arbitrary: a)
  case Nil
  then show ?case by simp
next
  case (Cons x xs)
  have u: "[a..<a + length (x # xs)] = a # [Suc a..<Suc a + length xs]"
    by (metis add_Suc add_Suc_right length_Cons less_add_Suc1 upt_conv_Cons)
  have "filter (\<lambda>i. P i (xs ! (i - Suc a))) [Suc a..<Suc a + length xs] =
        filter (\<lambda>i. P i ((x # xs) ! (i - a))) [Suc a..<Suc a + length xs]"
  proof (rule filter_cong)
    fix i assume "i \<in> set [Suc a..<Suc a + length xs]"
    then have "i - a = Suc (i - Suc a)" by auto
    then show "P i (xs ! (i - Suc a)) = P i ((x # xs) ! (i - a))" by simp
  qed simp
  then show ?case using Cons.IH [of "Suc a"] u by simp
qed

lemma gct_fields_eq:
  "getCharTemplate a st = (r, st') \<Longrightarrow>
   h_chat st' = h_chat st \<and> h_vars st' = h_vars st \<and> h_hist st' = h_hist st \<and> h_timers st' = h_timers st \<and>
   h_rerender st' = h_rerender st \<and> h_dom st' = h_dom st \<and> h_fresh st' = h_fresh st \<and>
   h_intercepting st' = h_intercepting st \<and> ts_enabled st' = ts_enabled st"
  using getCharTemplate_fields [of a st] getCharTemplate_settings(1) [of a st] by simp

lemma reapply_pick_fields:
  "h_chat (snd (reapply_pick len acc im)) = h_chat (snd acc) \<and> h_vars (snd (reapply_pick len acc im)) = h_vars (snd acc) \<and>
   h_hist (snd (reapply_pick len acc im)) = h_hist (snd acc)"
  by (auto simp: reapply_pick_def split: prod.splits option.splits dest: gct_fields_eq)

lemma reapply_fold_fields:
  "h_chat (snd (foldl (reapply_pick len) acc ims)) = h_chat (snd acc) \<and>
   h_vars (snd (foldl (reapply_pick len) acc ims)) = h_vars (snd acc) \<and>
   h_hist (snd (foldl (reapply_pick len) acc ims)) = h_hist (snd acc)"
  by (induction ims arbitrary: acc) (simp_all add: reapply_pick_fields)

lemma clearAll_chat:
  "h_chat st \<noteq> [] \<Longrightarrow> h_chat (clearAll st) = map (\<lambda>m. if display_truthy m then m\<lparr>m_display := None\<rparr> else m) (h_chat st)"
  by (simp add: clearAll_def Let_def schedule_def)

lemma char_template_fresh_cong:
  "ts_char st' = ts_char st \<Longrightarrow> ts_bindings st' = ts_bindings st \<Longrightarrow> char_template_fresh st' = char_template_fresh st"
  by (auto simp: fun_eq_iff char_template_fresh_def split: option.split)

lemma char_template_spec_cong:
  "ts_char st' = ts_char st \<Longrightarrow> ts_bindings st' = ts_bindings st \<Longrightarrow> ts_enabled st' = ts_enabled st \<Longrightarrow>
   ts_xb_enabled st' = ts_xb_enabled st \<Longrightarrow> char_template_spec a st' = char_template_spec a st"
  using char_template_fresh_cong [of st' st] by (auto simp: char_template_spec_def isEnabled_def split: option.split)

lemma clearAll_ts [simp]:
  "ts_char (clearAll st) = ts_char st" "ts_bindings (clearAll st) = ts_bindings st"
  "ts_enabled (clearAll st) = ts_enabled st" "ts_xb_enabled (clearAll st) = ts_xb_enabled st"
  by (simp_all add: clearAll_def Let_def schedule_def)

lemma reapply_ok_clearAll:
  assumes "h_chat st \<noteq> []" and "i < length (h_chat st)"
  shows "reapply_ok (clearAll st) (h_chat (clearAll st) ! i) i = reapply_ok st (h_chat st ! i) i"
proof -
  have "char_template_spec a (clearAll st) = char_template_spec a st" for a
    by (rule char_template_spec_cong) simp_all
  then show ?thesis using assms clearAll_chat [OF assms(1)]
    by (simp add: reapply_ok_def display_truthy_def cong: option.case_cong)
qed

text \<open>C6: \<open>reapplyAll\<close> first clears every display text, variable and history and
  then processes exactly the messages the configuration selects: character messages of
  an avatar with an enabled template, and, when the window is limited to the last
  \<open>N\<close>, only those with an id at least \<open>max(0, L - N)\<close>; the cached
  configuration lookup it threads through the messages gives the same selection as the
  uncached precedence rule.\<close>

theorem reapplyAll_window:
  assumes "cache_ok st" and "ts_enabled st" and "h_chat st \<noteq> []"
  shows "\<exists>st1. reapplyAll env st =
                 processBatch env (filter (\<lambda>i. reapply_ok st (h_chat st ! i) i) [0..<length (h_chat st)]) st1 \<and>
               h_vars st1 = Map.empty \<and> h_hist st1 = Map.empty \<and> list_all (\<lambda>m. \<not> display_truthy m) (h_chat st1)"
proof -
  let ?c = "clearAll st"
  let ?n = "length (h_chat st)"
  have len: "length (h_chat ?c) = ?n" using clearAll_chat [OF assms(3)] by simp
  have cc: "cache_ok ?c" using keeps_clearAll [OF keeps_refl [of st]] assms(1) by (simp add: keeps_def)
  have ids: "fst (reapply_ids ?c) = filter (\<lambda>i. reapply_ok st (h_chat st ! i) i) [0..<?n]"
  proof -
    have "fst (reapply_ids ?c) = map fst (filter (\<lambda>(i, m). reapply_ok ?c m i) (zip [0..<?n] (h_chat ?c)))"
      unfolding reapply_ids_def using reapply_fold [OF cc, of ?n "[]"] len by simp
    also have "\<dots> = filter (\<lambda>i. reapply_ok ?c (h_chat ?c ! i) i) [0..<?n]"
      using filter_zip_upt [of "\<lambda>i m. reapply_ok ?c m i" 0 "h_chat ?c"] len by simp
    also have "\<dots> = filter (\<lambda>i. reapply_ok st (h_chat st ! i) i) [0..<?n]"
      by (rule filter_cong) (simp_all add: reapply_ok_clearAll [OF assms(3)])
    finally show ?thesis .
  qed
  have fields: "h_vars (snd (reapply_ids ?c)) = Map.empty \<and> h_hist (snd (reapply_ids ?c)) = Map.empty \<and>
                list_all (\<lambda>m. \<not> display_truthy m) (h_chat (snd (reapply_ids ?c)))"
    using reapply_fold_fields [of "length (h_chat ?c)" "([], ?c)"] clearAll_chat [OF assms(3)] assms(3)
    by (auto simp: reapply_ids_def clearAll_def Let_def schedule_def list_all_iff display_truthy_def)
  have "reapplyAll env st = processBatch env (fst (reapply_ids ?c)) (snd (reapply_ids ?c))"
    using assms(2,3) by (simp add: reapplyAll_def case_prod_beta)
  then show ?thesis using ids fields by auto
qed

text \<open>C3: \<open>process\<close> on a character message whose template renders to plain text
  stores the variables, records their history, commits the rendered text as the
  message's display text, asks the host to re-render it and schedules the push of the
  variables into the message's frame.\<close>

theorem process_renders:
  assumes "ts_enabled st" and "lookup_msg (h_chat st) i = Some msg"
    and "\<not> m_force_avatar msg" and "\<not> m_is_user msg" and "\<not> m_is_system msg"
    and "getCharTemplate (m_avatar msg) st = (Some cs, st1)"
    and "\<not> (cs_skip_first cs \<and> i = 0)" and "\<not> (cs_limit cs \<and> i < min_message_id cs (length (h_chat st)))"
    and "extractVars (regex_of (e_compile env) cs) (m_mes msg) = Some (Inr vars)"
    and "\<not> isCustomTemplate (replaceVars (cs_template cs) vars)" and "replaceVars (cs_template cs) vars \<noteq> []"
  shows "\<exists>st'. process env i st = Some (st', None) \<and>
           h_chat st' = (h_chat st)[i := msg\<lparr>m_display := Some (replaceVars (cs_template cs) vars)\<rparr>] \<and>
           h_vars st' = (h_vars st)(i \<mapsto> vars) \<and> h_hist st' = updateHistory (h_hist st) i vars \<and>
           h_rerender st' = h_rerender st @ [i] \<and> h_timers st' = h_timers st @ [TSendUpdate i vars]"
proof -
  have f: "h_chat st1 = h_chat st \<and> h_vars st1 = h_vars st \<and> h_hist st1 = h_hist st \<and>
           h_timers st1 = h_timers st \<and> h_rerender st1 = h_rerender st"
    using gct_fields_eq [OF assms(6)] by simp
  have "process env i st = Some (render_step env i msg cs vars st1, None)"
    using assms f by (auto simp: process_def)
  then show ?thesis
    using assms(10,11) f by (simp add: render_step_def set_msg_def rerender_def schedule_def Let_def)
qed

text \<open>C25: With "skip first message" set, \<open>process\<close> on message 0 writes no display
  text, stores no variables or history, creates no frame and schedules nothing.\<close>

theorem process_skip_first:
  assumes "ts_enabled st" and "lookup_msg (h_chat st) 0 = Some msg"
    and "\<not> m_force_avatar msg" and "\<not> m_is_user msg" and "\<not> m_is_system msg"
    and "getCharTemplate (m_avatar msg) st = (Some cs, st1)" and "cs_skip_first cs"
  shows "process env 0 st = Some (st1, None) \<and> h_chat st1 = h_chat st \<and> h_vars st1 = h_vars st \<and>
         h_hist st1 = h_hist st \<and> h_timers st1 = h_timers st \<and> h_dom st1 = h_dom st \<and> h_fresh st1 = h_fresh st"
  using assms gct_fields_eq [OF assms(6)] by (simp add: process_def)

text \<open>C29: With "skip first message" set, the \<open>innerHTML\<close> interceptor returns before
  the original setter for message 0 (line 1250): the host's own rendering of that message
  is dropped and the element keeps its previous content.\<close>

theorem intercept_skip_first_drops:
  assumes "h_intercepting st" and "ts_enabled st" and "lookup_msg (h_chat st) 0 = Some msg"
    and "\<not> m_is_user msg" and "\<not> m_is_system msg"
    and "getCharTemplate (m_avatar msg) st = (Some cs, st1)" and "cs_skip_first cs"
  shows "intercept env 0 v st = Some (st1, None) \<and> h_dom st1 0 = h_dom st 0"
  using assms gct_fields_eq [OF assms(6)] by (simp add: intercept_def)

text \<open>C35: A negative \<open>recentMessageCount\<close> (which the editor saves unchecked, line 1435)
  with "limit to recent messages" set makes \<open>Math.max(0, chat.length - count)\<close> exceed
  every message id: \<open>process\<close> clears every message of the character instead of
  rendering the most recent ones.\<close>

theorem process_negative_count_clears:
  assumes "ts_enabled st" and "lookup_msg (h_chat st) i = Some msg"
    and "\<not> m_force_avatar msg" and "\<not> m_is_user msg" and "\<not> m_is_system msg"
    and "getCharTemplate (m_avatar msg) st = (Some cs, st1)" and "\<not> (cs_skip_first cs \<and> i = 0)"
    and "cs_limit cs" and "cs_recent cs = Some n" and "n < 0"
  shows "process env i st = Some (clearTemplate i msg st1, None)"
proof -
  have "i < length (h_chat st1)" using assms(2) gct_fields_eq [OF assms(6)] by (simp add: lookup_msg_def split: if_splits)
  then have "i < min_message_id cs (length (h_chat st1))" using assms(9,10) by (simp add: min_message_id_def)
  then show ?thesis using assms by (auto simp: process_def)
qed

theorem process_renders_witness:
  "\<exists>st'. process \<lparr>e_compile = \<lambda>p. if p = default_pattern then Some tag_exec else None, e_subst = None, e_bridge = [], e_idle = False\<rparr> 0
     \<lparr>ts_enabled = True, ts_bindings = [''a.png'' \<mapsto> \<lparr>cs_enabled = True, cs_template = ''<b>[[hp]]</b>'', cs_regex = Some default_pattern, cs_limit = False,
         cs_recent = Some 5, cs_skip_first = False\<rparr>], ts_xb_enabled = True, ts_char = None, ts_tcache = Map.empty,
      h_chat = [\<lparr>m_mes = ''[hp]10[/hp]'', m_is_user = False, m_is_system = False, m_force_avatar = False,
                 m_avatar = Some ''a.png'', m_display = None\<rparr>],
      h_chid = None, h_vars = Map.empty, h_hist = Map.empty, h_streaming = False,
      h_generating = False, h_check_active = False, h_intercepting = True, h_timers = [], h_pending = [],
      h_rerender = [], h_dom = Map.empty, h_docs = Map.empty, h_pushes = [], h_fresh = 0\<rparr> = Some (st', None) \<and>
     h_chat st' = [\<lparr>m_mes = ''[hp]10[/hp]'', m_is_user = False, m_is_system = False, m_force_avatar = False,
                 m_avatar = Some ''a.png'', m_display = None\<rparr>\<lparr>m_display := Some ''<b><bdi data-xiaobaix-var=\"hp\">10</bdi></b>''\<rparr>] \<and>
     h_vars st' = [0 \<mapsto> JObj [(''hp'', JStr ''10'')]] \<and>
     h_hist st' = updateHistory Map.empty 0 (JObj [(''hp'', JStr ''10'')]) \<and>
     h_rerender st' = [0] \<and> h_timers st' = [TSendUpdate 0 (JObj [(''hp'', JStr ''10'')])]"
proof -
  let ?st = "\<lparr>ts_enabled = True, ts_bindings = [''a.png'' \<mapsto> \<lparr>cs_enabled = True, cs_template = ''<b>[[hp]]</b>'', cs_regex = Some default_pattern, cs_limit = False,
         cs_recent = Some 5, cs_skip_first = False\<rparr>], ts_xb_enabled = True, ts_char = None, ts_tcache = Map.empty,
      h_chat = [\<lparr>m_mes = ''[hp]10[/hp]'', m_is_user = False, m_is_system = False, m_force_avatar = False,
                 m_avatar = Some ''a.png'', m_display = None\<rparr>],
      h_chid = None, h_vars = Map.empty, h_hist = Map.empty, h_streaming = False,
      h_generating = False, h_check_active = False, h_intercepting = True, h_timers = [], h_pending = [],
      h_rerender = [], h_dom = Map.empty, h_docs = Map.empty, h_pushes = [], h_fresh = 0\<rparr>"
  have g: "getCharTemplate (m_avatar \<lparr>m_mes = ''[hp]10[/hp]'', m_is_user = False, m_is_system = False, m_force_avatar = False,
                 m_avatar = Some ''a.png'', m_display = None\<rparr>) ?st = (Some \<lparr>cs_enabled = True, cs_template = ''<b>[[hp]]</b>'', cs_regex = Some default_pattern, cs_limit = False,
         cs_recent = Some 5, cs_skip_first = False\<rparr>, snd (getCharTemplate (Some ''a.png'') ?st))"
    by (simp add: getCharTemplate_def isEnabled_def char_template_fresh_def Let_def)
  have x: "extractVars (regex_of (e_compile \<lparr>e_compile = \<lambda>p. if p = default_pattern then Some tag_exec else None, e_subst = None, e_bridge = [], e_idle = False\<rparr>) \<lparr>cs_enabled = True, cs_template = ''<b>[[hp]]</b>'', cs_regex = Some default_pattern, cs_limit = False,
         cs_recent = Some 5, cs_skip_first = False\<rparr>) (m_mes \<lparr>m_mes = ''[hp]10[/hp]'', m_is_user = False, m_is_system = False, m_force_avatar = False,
                 m_avatar = Some ''a.png'', m_display = None\<rparr>) = Some (Inr (JObj [(''hp'', JStr ''10'')]))"
    by code_simp
  have r: "replaceVars ''<b>[[hp]]</b>'' (JObj [(''hp'', JStr ''10'')]) = ''<b><bdi data-xiaobaix-var=\"hp\">10</bdi></b>''" by code_simp
  have c: "\<not> isCustomTemplate ''<b><bdi data-xiaobaix-var=\"hp\">10</bdi></b>''" by code_simp
  show ?thesis
    using process_renders [where st = ?st and i = 0 and env = "\<lparr>e_compile = \<lambda>p. if p = default_pattern then Some tag_exec else None, e_subst = None, e_bridge = [], e_idle = False\<rparr>", OF _ _ _ _ _ g _ _ x] r c by (simp add: lookup_msg_def min_message_id_def)
qed

theorem process_skip_first_witness:
  "process \<lparr>e_compile = \<lambda>p. if p = default_pattern then Some tag_exec else None, e_subst = None, e_bridge = [], e_idle = False\<rparr> 0 \<lparr>ts_enabled = True, ts_bindings = [''a.png'' \<mapsto> \<lparr>cs_enabled = True, cs_template = ''<b>[[hp]]</b>'', cs_regex = Some default_pattern, cs_limit = False,
         cs_recent = Some 5, cs_skip_first = True\<rparr>], ts_xb_enabled = True, ts_char = None, ts_tcache = Map.empty,
      h_chat = [\<lparr>m_mes = ''[hp]10[/hp]'', m_is_user = False, m_is_system = False, m_force_avatar = False,
                 m_avatar = Some ''a.png'', m_display = None\<rparr>],
      h_chid = None, h_vars = Map.empty, h_hist = Map.empty, h_streaming = False,
      h_generating = False, h_check_active = False, h_intercepting = True, h_timers = [], h_pending = [],
      h_rerender = [], h_dom = Map.empty, h_docs = Map.empty, h_pushes = [], h_fresh = 0\<rparr> =
     Some (snd (getCharTemplate (Some ''a.png'') \<lparr>ts_enabled = True, ts_bindings = [''a.png'' \<mapsto> \<lparr>cs_enabled = True, cs_template = ''<b>[[hp]]</b>'', cs_regex = Some default_pattern, cs_limit = False,
         cs_recent = Some 5, cs_skip_first = True\<rparr>], ts_xb_enabled = True, ts_char = None, ts_tcache = Map.empty,
      h_chat = [\<lparr>m_mes = ''[hp]10[/hp]'', m_is_user = False, m_is_system = False, m_force_avatar = False,
                 m_avatar = Some ''a.png'', m_display = None\<rparr>],
      h_chid = None, h_vars = Map.empty, h_hist = Map.empty, h_streaming = False,
      h_generating = False, h_check_active = False, h_intercepting = True, h_timers = [], h_pending = [],
      h_rerender = [], h_dom = Map.empty, h_docs = Map.empty, h_pushes = [], h_fresh = 0\<rparr>), None)"
proof -
  let ?st = "\<lparr>ts_enabled = True, ts_bindings = [''a.png'' \<mapsto> \<lparr>cs_enabled = True, cs_template = ''<b>[[hp]]</b>'', cs_regex = Some default_pattern, cs_limit = False,
         cs_recent = Some 5, cs_skip_first = True\<rparr>], ts_xb_enabled = True, ts_char = None, ts_tcache = Map.empty,
      h_chat = [\<lparr>m_mes = ''[hp]10[/hp]'', m_is_user = False, m_is_system = False, m_force_avatar = False,
                 m_avatar = Some ''a.png'', m_display = None\<rparr>],
      h_chid = None, h_vars = Map.empty, h_hist = Map.empty, h_streaming = False,
      h_generating = False, h_check_active = False, h_intercepting = True, h_timers = [], h_pending = [],
      h_rerender = [], h_dom = Map.empty, h_docs = Map.empty, h_pushes = [], h_fresh = 0\<rparr>"
  have g: "getCharTemplate (m_avatar \<lparr>m_mes = ''[hp]10[/hp]'', m_is_user = False, m_is_system = False, m_force_avatar = False,
                 m_avatar = Some ''a.png'', m_display = None\<rparr>) ?st = (Some \<lparr>cs_enabled = True, cs_template = ''<b>[[hp]]</b>'', cs_regex = Some default_pattern, cs_limit = False,
         cs_recent = Some 5, cs_skip_first = True\<rparr>, snd (getCharTemplate (Some ''a.png'') ?st))"
    by (simp add: getCharTemplate_def isEnabled_def char_template_fresh_def Let_def)
  show ?thesis using process_skip_first [OF _ _ _ _ _ g] by (simp add: lookup_msg_def)
qed

theorem intercept_skip_first_drops_witness:
  "intercept \<lparr>e_compile = \<lambda>p. if p = default_pattern then Some tag_exec else None, e_subst = None, e_bridge = [], e_idle = False\<rparr> 0 ''<p>hello</p>'' \<lparr>ts_enabled = True, ts_bindings = [''a.png'' \<mapsto> \<lparr>cs_enabled = True, cs_template = ''<b>[[hp]]</b>'', cs_regex = Some default_pattern, cs_limit = False,
         cs_recent = Some 5, cs_skip_first = True\<rparr>], ts_xb_enabled = True, ts_char = None, ts_tcache = Map.empty,
      h_chat = [\<lparr>m_mes = ''[hp]10[/hp]'', m_is_user = False, m_is_system = False, m_force_avatar = False,
                 m_avatar = Some ''a.png'', m_display = None\<rparr>],
      h_chid = None, h_vars = Map.empty, h_hist = Map.empty, h_streaming = False,
      h_generating = False, h_check_active = False, h_intercepting = True, h_timers = [], h_pending = [],
      h_rerender = [], h_dom = Map.empty, h_docs = Map.empty, h_pushes = [], h_fresh = 0\<rparr> =
     Some (snd (getCharTemplate (Some ''a.png'') \<lparr>ts_enabled = True, ts_bindings = [''a.png'' \<mapsto> \<lparr>cs_enabled = True, cs_template = ''<b>[[hp]]</b>'', cs_regex = Some default_pattern, cs_limit = False,
         cs_recent = Some 5, cs_skip_first = True\<rparr>], ts_xb_enabled = True, ts_char = None, ts_tcache = Map.empty,
      h_chat = [\<lparr>m_mes = ''[hp]10[/hp]'', m_is_user = False, m_is_system = False, m_force_avatar = False,
                 m_avatar = Some ''a.png'', m_display = None\<rparr>],
      h_chid = None, h_vars = Map.empty, h_hist = Map.empty, h_streaming = False,
      h_generating = False, h_check_active = False, h_intercepting = True, h_timers = [], h_pending = [],
      h_rerender = [], h_dom = Map.empty, h_docs = Map.empty, h_pushes = [], h_fresh = 0\<rparr>), None)"
proof -
  let ?st = "\<lparr>ts_enabled = True, ts_bindings = [''a.png'' \<mapsto> \<lparr>cs_enabled = True, cs_template = ''<b>[[hp]]</b>'', cs_regex = Some default_pattern, cs_limit = False,
         cs_recent = Some 5, cs_skip_first = True\<rparr>], ts_xb_enabled = True, ts_char = None, ts_tcache = Map.empty,
      h_chat = [\<lparr>m_mes = ''[hp]10[/hp]'', m_is_user = False, m_is_system = False, m_force_avatar = False,
                 m_avatar = Some ''a.png'', m_display = None\<rparr>],
      h_chid = None, h_vars = Map.empty, h_hist = Map.empty, h_streaming = False,
      h_generating = False, h_check_active = False, h_intercepting = True, h_timers = [], h_pending = [],
      h_rerender = [], h_dom = Map.empty, h_docs = Map.empty, h_pushes = [], h_fresh = 0\<rparr>"
  have g: "getCharTemplate (m_avatar \<lparr>m_mes = ''[hp]10[/hp]'', m_is_user = False, m_is_system = False, m_force_avatar = False,
                 m_avatar = Some ''a.png'', m_display = None\<rparr>) ?st = (Some \<lparr>cs_enabled = True, cs_template = ''<b>[[hp]]</b>'', cs_regex = Some default_pattern, cs_limit = False,
         cs_recent = Some 5, cs_skip_first = True\<rparr>, snd (getCharTemplate (Some ''a.png'') ?st))"
    by (simp add: getCharTemplate_def isEnabled_def char_template_fresh_def Let_def)
  show ?thesis using intercept_skip_first_drops [where v = "''<p>hello</p>''", OF _ _ _ _ _ g] by (simp add: lookup_msg_def)
qed

theorem reapplyAll_window_witness:
  "\<exists>st1. reapplyAll \<lparr>e_compile = \<lambda>p. if p = default_pattern then Some tag_exec else None, e_subst = None, e_bridge = [], e_idle = False\<rparr> \<lparr>ts_enabled = True, ts_bindings = [''a.png'' \<mapsto> \<lparr>cs_enabled = True, cs_template = ''<b>[[hp]]</b>'', cs_regex = Some default_pattern, cs_limit = False,
         cs_recent = Some 5, cs_skip_first = False\<rparr>], ts_xb_enabled = True, ts_char = None, ts_tcache = Map.empty,
      h_chat = [\<lparr>m_mes = ''[hp]10[/hp]'', m_is_user = False, m_is_system = False, m_force_avatar = False,
                 m_avatar = Some ''a.png'', m_display = None\<rparr>],
      h_chid = None, h_vars = Map.empty, h_hist = Map.empty, h_streaming = False,
      h_generating = False, h_check_active = False, h_intercepting = True, h_timers = [], h_pending = [],
      h_rerender = [], h_dom = Map.empty, h_docs = Map.empty, h_pushes = [], h_fresh = 0\<rparr> =
     processBatch \<lparr>e_compile = \<lambda>p. if p = default_pattern then Some tag_exec else None, e_subst = None, e_bridge = [], e_idle = False\<rparr> [0] st1 \<and> h_vars st1 = Map.empty \<and> h_hist st1 = Map.empty"
proof -
  let ?st = "\<lparr>ts_enabled = True, ts_bindings = [''a.png'' \<mapsto> \<lparr>cs_enabled = True, cs_template = ''<b>[[hp]]</b>'', cs_regex = Some default_pattern, cs_limit = False,
         cs_recent = Some 5, cs_skip_first = False\<rparr>], ts_xb_enabled = True, ts_char = None, ts_tcache = Map.empty,
      h_chat = [\<lparr>m_mes = ''[hp]10[/hp]'', m_is_user = False, m_is_system = False, m_force_avatar = False,
                 m_avatar = Some ''a.png'', m_display = None\<rparr>],
      h_chid = None, h_vars = Map.empty, h_hist = Map.empty, h_streaming = False,
      h_generating = False, h_check_active = False, h_intercepting = True, h_timers = [], h_pending = [],
      h_rerender = [], h_dom = Map.empty, h_docs = Map.empty, h_pushes = [], h_fresh = 0\<rparr>"
  have "cache_ok ?st" by simp
  moreover have "filter (\<lambda>i. reapply_ok ?st (h_chat ?st ! i) i) [0..<length (h_chat ?st)] = [0]"
    by (simp add: reapply_ok_def char_template_spec_def isEnabled_def char_template_fresh_def min_message_id_def)
  ultimately show ?thesis using reapplyAll_window [of ?st "\<lparr>e_compile = \<lambda>p. if p = default_pattern then Some tag_exec else None, e_subst = None, e_bridge = [], e_idle = False\<rparr>"] by auto
qed

text \<open>C30: \<open>getCharTemplate\<close> returns a stored configuration without merging
  \<open>DEFAULT_CHAR_SETTINGS\<close>; for one without \<open>customRegex\<close> (an imported or hand-made
  binding), \<open>extractVars\<close> is called with \<open>null\<close>, \<open>getRegex(null)\<close> compiles the
  pattern \<open>null\<close>. Whatever the RegExp engine, when the first match of that
  pattern in the message has no second group (as \<open>/null/g\<close>, which has no groups, on any
  message containing \<open>null\<close>), \<open>process\<close> throws a \<open>TypeError\<close> at
  \<open>match[1].trim()\<close> and stores nothing.\<close>

theorem process_missing_regex_type_error:
  assumes "ts_enabled st" and "lookup_msg (h_chat st) i = Some msg"
    and "\<not> m_force_avatar msg" and "\<not> m_is_user msg" and "\<not> m_is_system msg"
    and "getCharTemplate (m_avatar msg) st = (Some cs, st1)"
    and "\<not> (cs_skip_first cs \<and> i = 0)" and "\<not> (cs_limit cs \<and> i < min_message_id cs (length (h_chat st)))"
    and "cs_regex cs = None" and "e_compile env ''null'' = Some rx"
    and "m_mes msg \<noteq> []" and "rx (m_mes msg) 0 = Some (b, e, gs)" and "grp gs 2 = None"
  shows "process env i st = Some (st1, Some TypeError)"
proof -
  have "regex_of (e_compile env) cs = rx" using assms(9,10) by (simp add: regex_of_def getRegex_def)
  then have "extractVars (regex_of (e_compile env) cs) (m_mes msg) = Some (Inl TypeError)"
    using regex_loop_type_error [where rx = rx and s = "m_mes msg" and i = 0 and vars = "[]", OF assms(12) disjI2 [OF assms(13)]] assms(11)
    by (simp add: extractVars_def extractRegex_def try_next_def)
  then show ?thesis using assms(1-8) gct_fields_eq [OF assms(6)] by (auto simp: process_def)
qed

theorem process_missing_regex_type_error_witness:
  "process
     \<lparr>e_compile = \<lambda>p. if p = ''null'' then Some (exec_of (\<lambda>s i. if starts_with (drop i s) ''null'' then Some (i + 4, []) else None))
                      else if p = default_pattern then Some tag_exec else None,
      e_subst = None, e_bridge = [], e_idle = False\<rparr> 0 \<lparr>ts_enabled = True, ts_bindings = [''a.png'' \<mapsto> \<lparr>cs_enabled = True, cs_template = ''<b>[[hp]]</b>'', cs_regex = None, cs_limit = False, cs_recent = None, cs_skip_first = False\<rparr>], ts_xb_enabled = True, ts_char = None, ts_tcache = Map.empty,
      h_chat = [\<lparr>m_mes = ''{\"hp\": null}'', m_is_user = False, m_is_system = False, m_force_avatar = False, m_avatar = Some ''a.png'', m_display = None\<rparr>],
      h_chid = None, h_vars = Map.empty, h_hist = Map.empty, h_streaming = False,
      h_generating = False, h_check_active = False, h_intercepting = True, h_timers = [], h_pending = [],
      h_rerender = [], h_dom = Map.empty, h_docs = Map.empty, h_pushes = [], h_fresh = 0\<rparr> =
   Some (snd (getCharTemplate (Some ''a.png'') \<lparr>ts_enabled = True, ts_bindings = [''a.png'' \<mapsto> \<lparr>cs_enabled = True, cs_template = ''<b>[[hp]]</b>'', cs_regex = None, cs_limit = False, cs_recent = None, cs_skip_first = False\<rparr>], ts_xb_enabled = True, ts_char = None, ts_tcache = Map.empty,
      h_chat = [\<lparr>m_mes = ''{\"hp\": null}'', m_is_user = False, m_is_system = False, m_force_avatar = False, m_avatar = Some ''a.png'', m_display = None\<rparr>],
      h_chid = None, h_vars = Map.empty, h_hist = Map.empty, h_streaming = False,
      h_generating = False, h_check_active = False, h_intercepting = True, h_timers = [], h_pending = [],
      h_rerender = [], h_dom = Map.empty, h_docs = Map.empty, h_pushes = [], h_fresh = 0\<rparr>), Some TypeError)"
proof -
  have g: "getCharTemplate (m_avatar \<lparr>m_mes = ''{\"hp\": null}'', m_is_user = False, m_is_system = False, m_force_avatar = False, m_avatar = Some ''a.png'', m_display = None\<rparr>) \<lparr>ts_enabled = True, ts_bindings = [''a.png'' \<mapsto> \<lparr>cs_enabled = True, cs_template = ''<b>[[hp]]</b>'', cs_regex = None, cs_limit = False, cs_recent = None, cs_skip_first = False\<rparr>], ts_xb_enabled = True, ts_char = None, ts_tcache = Map.empty,
      h_chat = [\<lparr>m_mes = ''{\"hp\": null}'', m_is_user = False, m_is_system = False, m_force_avatar = False, m_avatar = Some ''a.png'', m_display = None\<rparr>],
      h_chid = None, h_vars = Map.empty, h_hist = Map.empty, h_streaming = False,
      h_generating = False, h_check_active = False, h_intercepting = True, h_timers = [], h_pending = [],
      h_rerender = [], h_dom = Map.empty, h_docs = Map.empty, h_pushes = [], h_fresh = 0\<rparr> = (Some \<lparr>cs_enabled = True, cs_template = ''<b>[[hp]]</b>'', cs_regex = None, cs_limit = False, cs_recent = None, cs_skip_first = False\<rparr>, snd (getCharTemplate (Some ''a.png'') \<lparr>ts_enabled = True, ts_bindings = [''a.png'' \<mapsto> \<lparr>cs_enabled = True, cs_template = ''<b>[[hp]]</b>'', cs_regex = None, cs_limit = False, cs_recent = None, cs_skip_first = False\<rparr>], ts_xb_enabled = True, ts_char = None, ts_tcache = Map.empty,
      h_chat = [\<lparr>m_mes = ''{\"hp\": null}'', m_is_user = False, m_is_system = False, m_force_avatar = False, m_avatar = Some ''a.png'', m_display = None\<rparr>],
      h_chid = None, h_vars = Map.empty, h_hist = Map.empty, h_streaming = False,
      h_generating = False, h_check_active = False, h_intercepting = True, h_timers = [], h_pending = [],
      h_rerender = [], h_dom = Map.empty, h_docs = Map.empty, h_pushes = [], h_fresh = 0\<rparr>))"
    by (simp add: getCharTemplate_def isEnabled_def char_template_fresh_def Let_def)
  have x: "exec_of (\<lambda>s i. if starts_with (drop i s) ''null'' then Some (i + 4, []) else None) (m_mes \<lparr>m_mes = ''{\"hp\": null}'', m_is_user = False, m_is_system = False, m_force_avatar = False, m_avatar = Some ''a.png'', m_display = None\<rparr>) 0 = Some (7, 11, [])"
    by code_simp
  show ?thesis
    using process_missing_regex_type_error [where env = "\<lparr>e_compile = \<lambda>p. if p = ''null'' then Some (exec_of (\<lambda>s i. if starts_with (drop i s) ''null'' then Some (i + 4, []) else None)) else if p = default_pattern then Some tag_exec else None, e_subst = None, e_bridge = [], e_idle = False\<rparr>" and rx = "exec_of (\<lambda>s i. if starts_with (drop i s) ''null'' then Some (i + 4, []) else None)", OF _ _ _ _ _ g _ _ _ _ _ x]
    by (simp add: lookup_msg_def grp_def)
qed

theorem process_negative_count_clears_witness:
  "process \<lparr>e_compile = \<lambda>p. if p = default_pattern then Some tag_exec else None, e_subst = None, e_bridge = [], e_idle = False\<rparr> 1 \<lparr>ts_enabled = True, ts_bindings = [''a.png'' \<mapsto> \<lparr>cs_enabled = True, cs_template = ''<b>[[hp]]</b>'', cs_regex = Some default_pattern, cs_limit = True, cs_recent = Some (-3), cs_skip_first = False\<rparr>], ts_xb_enabled = True, ts_char = None, ts_tcache = Map.empty,
      h_chat = [\<lparr>m_mes = ''[hp]10[/hp]'', m_is_user = False, m_is_system = False, m_force_avatar = False, m_avatar = Some ''a.png'', m_display = None\<rparr>, \<lparr>m_mes = ''[hp]10[/hp]'', m_is_user = False, m_is_system = False, m_force_avatar = False, m_avatar = Some ''a.png'', m_display = None\<rparr>],
      h_chid = None, h_vars = Map.empty, h_hist = Map.empty, h_streaming = False,
      h_generating = False, h_check_active = False, h_intercepting = True, h_timers = [], h_pending = [],
      h_rerender = [], h_dom = Map.empty, h_docs = Map.empty, h_pushes = [], h_fresh = 0\<rparr> =
     Some (clearTemplate 1 \<lparr>m_mes = ''[hp]10[/hp]'', m_is_user = False, m_is_system = False, m_force_avatar = False, m_avatar = Some ''a.png'', m_display = None\<rparr> (snd (getCharTemplate (Some ''a.png'') \<lparr>ts_enabled = True, ts_bindings = [''a.png'' \<mapsto> \<lparr>cs_enabled = True, cs_template = ''<b>[[hp]]</b>'', cs_regex = Some default_pattern, cs_limit = True, cs_recent = Some (-3), cs_skip_first = False\<rparr>], ts_xb_enabled = True, ts_char = None, ts_tcache = Map.empty,
      h_chat = [\<lparr>m_mes = ''[hp]10[/hp]'', m_is_user = False, m_is_system = False, m_force_avatar = False, m_avatar = Some ''a.png'', m_display = None\<rparr>, \<lparr>m_mes = ''[hp]10[/hp]'', m_is_user = False, m_is_system = False, m_force_avatar = False, m_avatar = Some ''a.png'', m_display = None\<rparr>],
      h_chid = None, h_vars = Map.empty, h_hist = Map.empty, h_streaming = False,
      h_generating = False, h_check_active = False, h_intercepting = True, h_timers = [], h_pending = [],
      h_rerender = [], h_dom = Map.empty, h_docs = Map.empty, h_pushes = [], h_fresh = 0\<rparr>)), None)"
proof -
  have g: "getCharTemplate (m_avatar \<lparr>m_mes = ''[hp]10[/hp]'', m_is_user = False, m_is_system = False, m_force_avatar = False, m_avatar = Some ''a.png'', m_display = None\<rparr>) \<lparr>ts_enabled = True, ts_bindings = [''a.png'' \<mapsto> \<lparr>cs_enabled = True, cs_template = ''<b>[[hp]]</b>'', cs_regex = Some default_pattern, cs_limit = True, cs_recent = Some (-3), cs_skip_first = False\<rparr>], ts_xb_enabled = True, ts_char = None, ts_tcache = Map.empty,
      h_chat = [\<lparr>m_mes = ''[hp]10[/hp]'', m_is_user = False, m_is_system = False, m_force_avatar = False, m_avatar = Some ''a.png'', m_display = None\<rparr>, \<lparr>m_mes = ''[hp]10[/hp]'', m_is_user = False, m_is_system = False, m_force_avatar = False, m_avatar = Some ''a.png'', m_display = None\<rparr>],
      h_chid = None, h_vars = Map.empty, h_hist = Map.empty, h_streaming = False,
      h_generating = False, h_check_active = False, h_intercepting = True, h_timers = [], h_pending = [],
      h_rerender = [], h_dom = Map.empty, h_docs = Map.empty, h_pushes = [], h_fresh = 0\<rparr> = (Some \<lparr>cs_enabled = True, cs_template = ''<b>[[hp]]</b>'', cs_regex = Some default_pattern, cs_limit = True, cs_recent = Some (-3), cs_skip_first = False\<rparr>, snd (getCharTemplate (Some ''a.png'') \<lparr>ts_enabled = True, ts_bindings = [''a.png'' \<mapsto> \<lparr>cs_enabled = True, cs_template = ''<b>[[hp]]</b>'', cs_regex = Some default_pattern, cs_limit = True, cs_recent = Some (-3), cs_skip_first = False\<rparr>], ts_xb_enabled = True, ts_char = None, ts_tcache = Map.empty,
      h_chat = [\<lparr>m_mes = ''[hp]10[/hp]'', m_is_user = False, m_is_system = False, m_force_avatar = False, m_avatar = Some ''a.png'', m_display = None\<rparr>, \<lparr>m_mes = ''[hp]10[/hp]'', m_is_user = False, m_is_system = False, m_force_avatar = False, m_avatar = Some ''a.png'', m_display = None\<rparr>],
      h_chid = None, h_vars = Map.empty, h_hist = Map.empty, h_streaming = False,
      h_generating = False, h_check_active = False, h_intercepting = True, h_timers = [], h_pending = [],
      h_rerender = [], h_dom = Map.empty, h_docs = Map.empty, h_pushes = [], h_fresh = 0\<rparr>))"
    by (simp add: getCharTemplate_def isEnabled_def char_template_fresh_def Let_def)
  show ?thesis using process_negative_count_clears [where env = "\<lparr>e_compile = \<lambda>p. if p = default_pattern then Some tag_exec else None, e_subst = None, e_bridge = [], e_idle = False\<rparr>", OF _ _ _ _ _ g] by (simp add: lookup_msg_def)
qed

end
