(* ===== verification/Events.thy ===== *)
theory Events
  imports Lifecycle
begin

text \<open>
  The event side of \<open>src/template-editor.js\<close>: the host events the module subscribes
  to (\<open>eventHandlers\<close>, lines 1298--1346), the timers they start, the enable toggles
  and \<open>cleanup\<close> (lines 1486--1569), \<open>checkEmbeddedTemplate\<close> (lines 1472--1484)
  and the message observer (lines 1515--1528). A click on the module's checkbox also runs
  the \<open>change\<close> handler \<open>src/index.js\<close> installs on it (lines 840--849). \<open>step\<close> runs one event on the host
  state of \<open>Lifecycle\<close>; \<open>reach\<close> is the set of states reachable from a fresh page by
  any sequence of events, timers firing in any order. A host event that changes the chat
  or the character carries the new chat or character, as the host has updated them when
  it emits the event.

  The invariant \<open>host_inv\<close> holds of every reachable state: every recorded variable
  history has at most five entries, and generation is marked active only while the poll
  runs, which only runs while a stream is marked active. Every event but the import of the
  global settings keeps the template cache coherent (\<open>cache_ok\<close>); the import does
  not.
\<close>

datatype event =
    EUpdated nat
  | ESwiped nat
  | EToken
  | EGenEnded
  | EChatChanged "message list"
  | ECharSelected "nat option" "(string \<times> char_settings option) option" "message list"
  | ETick
  | EFire nat nat
  | ERender nat string
  | EHostChat "message list"
  | ENodes "nat list"
  | ESave string string bool "int option" bool
  | EToggle bool
  | EXbToggle bool
  | EImport "bool option" "(string \<rightharpoonup> char_settings) option"

text \<open>\<open>state.clear()\<close>, lines 36--40: the variables and the template cache (the DOM
  cache is not modelled). The histories are not cleared.\<close>

definition state_clear :: "hstate \<Rightarrow> hstate" where
  "state_clear st = st\<lparr>h_vars := Map.empty, ts_tcache := Map.empty\<rparr>"

text \<open>\<open>cleanup()\<close>, lines 1486--1504: the poll stops, the interceptor and the
  observer are removed, the caches and histories are cleared.\<close>

definition cleanup :: "hstate \<Rightarrow> hstate" where
  "cleanup st = (state_clear (stopStreamingCheck st))\<lparr>h_intercepting := False, h_hist := Map.empty\<rparr>"

text \<open>\<open>checkEmbeddedTemplate()\<close>, lines 1472--1484: \<open>!this_chid\<close> is also true of
  the character at index 0.\<close>

definition checkEmbeddedTemplate :: "hstate \<Rightarrow> hstate" where
  "checkEmbeddedTemplate st =
     (case (h_chid st, ts_char st) of
        (Some (Suc _), Some (_, Some e)) \<Rightarrow>
          if cs_enabled e \<and> cs_template e \<noteq> [] then schedule (TReapply False) st else st
      | _ \<Rightarrow> st)"

text \<open>The configuration the editor saves (lines 1430--1437) from its fields: the
  template, the pattern (empty for none), the two flags and \<open>parseInt\<close> of the count
  (\<open>None\<close> for \<open>NaN\<close>).\<close>

definition editor_settings :: "string \<Rightarrow> string \<Rightarrow> bool \<Rightarrow> int option \<Rightarrow> bool \<Rightarrow> char_settings" where
  "editor_settings tmpl rx lim cnt skip =
     \<lparr>cs_enabled = True, cs_template = tmpl,
      cs_regex = Some (if rx = [] then default_pattern else rx), cs_limit = lim,
      cs_recent = Some (case cnt of Some n \<Rightarrow> if n = 0 then 5 else n | None \<Rightarrow> 5),
      cs_skip_first = skip\<rparr>"

text \<open>\<open>importGlobal\<close>, lines 1455--1462: \<open>Object.assign(TemplateSettings.get(), data)\<close>
  for a file that may carry \<open>enabled\<close> and \<open>characterBindings\<close>, then a re-apply
  after 150 ms. The template cache is left as it is.\<close>

definition importGlobal :: "bool option \<Rightarrow> (string \<rightharpoonup> char_settings) option \<Rightarrow> hstate \<Rightarrow> hstate" where
  "importGlobal en binds st =
     schedule (TReapply False)
       (st\<lparr>ts_enabled := (case en of Some b \<Rightarrow> b | None \<Rightarrow> ts_enabled st),
           ts_bindings := (case binds of Some b \<Rightarrow> b | None \<Rightarrow> ts_bindings st)\<rparr>)"

text \<open>The body of the \<open>MESSAGE_SWIPED\<close> timer after \<open>process\<close> (lines 1305--1313).\<close>

definition swipe_tail :: "env \<Rightarrow> nat \<Rightarrow> hstate \<Rightarrow> outcome" where
  "swipe_tail env i st =
     (case lookup_msg (h_chat st) i of
        None \<Rightarrow> Some (st, None)
      | Some msg \<Rightarrow>
          if m_is_system msg \<or> m_is_user msg then Some (st, None) else
          (case getCharTemplate (m_avatar msg) st of
             (None, st1) \<Rightarrow> Some (st1, None)
           | (Some cs, st1) \<Rightarrow>
               (case extractVars (regex_of (e_compile env) cs) (m_mes msg) of
                  None \<Rightarrow> None
                | Some (Inl e) \<Rightarrow> Some (st1, Some e)
                | Some (Inr vars) \<Rightarrow> Some (schedule (TUpdateVars i vars) st1, None))))"

definition frame_in_dom :: "hstate \<Rightarrow> string \<Rightarrow> bool" where
  "frame_in_dom st fid \<longleftrightarrow>
     list_ex (dom_has (\<lambda>h. contains h (''id=\"'' @ fid @ ''\"'')) st) [0..<length (h_chat st)]"

definition no_error :: "hstate option \<Rightarrow> outcome" where
  "no_error r = map_option (\<lambda>st. (st, None)) r"

text \<open>A timer firing. \<open>TWrite\<close> is the write of lines 840--843 (the frame must be in
  the document); \<open>TUpdateVars\<close> and \<open>TSendUpdate\<close> reach the frame of the message when
  it has one (\<open>updateVariables\<close>, \<open>sendUpdate\<close>, lines 942--1018); \<open>TReapply\<close> is
  the timer of \<open>CHAT_CHANGED\<close> and \<open>CHARACTER_SELECTED\<close>; \<open>TEnable\<close> that of the
  global toggle (lines 1546--1552); \<open>TInit\<close> and \<open>TCheck\<close> the timers of
  \<open>initTemplateEditor\<close> (lines 1582--1589: the first is set only when \<open>isEnabled\<close>
  holds at that moment and does not look again when it fires); \<open>TFlush\<close> the animation frame of \<open>clearAll\<close>;
  \<open>TBatch\<close> a callback of \<open>processBatch\<close> that processes \<open>k\<close> messages.\<close>

fun fire :: "env \<Rightarrow> nat \<Rightarrow> task \<Rightarrow> hstate \<Rightarrow> outcome" where
  "fire env k (TProcess i) st = process env i st"
| "fire env k (TSwipe i) st =
     (case process env i st of None \<Rightarrow> None | Some (st1, _) \<Rightarrow> swipe_tail env i st1)"
| "fire env k (TWrite fid doc) st =
     Some (if frame_in_dom st fid then st\<lparr>h_docs := (h_docs st)(fid \<mapsto> writeContentToIframe (e_bridge env) doc)\<rparr> else st, None)"
| "fire env k (TUpdateVars i vars) st =
     Some (if dom_has has_iframe st i then st\<lparr>h_pushes := h_pushes st @ [PushVars i vars]\<rparr> else st, None)"
| "fire env k (TSendUpdate i vars) st =
     Some (if dom_has has_iframe st i then st\<lparr>h_pushes := h_pushes st @ [PostVars i vars]\<rparr> else st, None)"
| "fire env k (TReapply sel) st =
     no_error (map_option (\<lambda>st'. if sel then checkEmbeddedTemplate st' else st') (reapplyAll env st))"
| "fire env k TEnable st =
     (if ts_enabled st then no_error (reapplyAll env (st\<lparr>h_intercepting := True\<rparr>)) else Some (st, None))"
| "fire env k TInit st = no_error (reapplyAll env (st\<lparr>h_intercepting := True\<rparr>))"
| "fire env k TCheck st = Some (checkEmbeddedTemplate st, None)"
| "fire env k TFlush st = Some (st\<lparr>h_rerender := h_rerender st @ h_pending st, h_pending := []\<rparr>, None)"
| "fire env k (TBatch ids) st = no_error (batch_chunk env k ids st)"

text \<open>The module's checkbox has two handlers, run in the order the browser fires their
  events. The \<open>input\<close> handler of \<open>src/template-editor.js\<close>, lines 1556--1569: on, the
  interceptor and the observer are installed and a re-apply follows; off, \<open>cleanup\<close>.
  The \<open>change\<close> handler of \<open>src/index.js\<close>, lines 840--849: when the extension is
  enabled, the module's registered cleanup (\<open>cleanup\<close>, line 1580) runs, and when the
  box is on \<open>initTemplateEditor\<close> runs again (lines 1506--1590); of the latter, the
  model keeps its two timers (\<open>TInit\<close> when \<open>isEnabled\<close>, then \<open>TCheck\<close>).\<close>

definition toggle_input :: "bool \<Rightarrow> hstate \<Rightarrow> hstate" where
  "toggle_input b st =
     (if b then schedule (TReapply False) (st\<lparr>ts_enabled := True, h_intercepting := True\<rparr>)
      else cleanup (st\<lparr>ts_enabled := False\<rparr>))"

definition initTemplateEditor :: "hstate \<Rightarrow> hstate" where
  "initTemplateEditor st = schedule TCheck (if isEnabled st then schedule TInit st else st)"

definition toggle_change :: "bool \<Rightarrow> hstate \<Rightarrow> hstate" where
  "toggle_change b st =
     (if \<not> ts_xb_enabled st then st
      else let st1 = cleanup st in if b then initTemplateEditor st1 else st1)"

definition toggleTemplate :: "bool \<Rightarrow> hstate \<Rightarrow> hstate" where
  "toggleTemplate b st = toggle_change b (toggle_input b st)"

text \<open>The \<open>xiaobaixEnabledChanged\<close> listener, lines 1539--1554.\<close>

definition xbEnabledChanged :: "bool \<Rightarrow> hstate \<Rightarrow> hstate" where
  "xbEnabledChanged b st =
     (if b then schedule TEnable (st\<lparr>ts_xb_enabled := True\<rparr>) else cleanup (st\<lparr>ts_xb_enabled := False\<rparr>))"

text \<open>The message observer, lines 1515--1528: new message elements are processed as a
  batch.\<close>

definition observeNodes :: "env \<Rightarrow> nat list \<Rightarrow> hstate \<Rightarrow> hstate option" where
  "observeNodes env ids st =
     (if h_intercepting st \<and> ts_enabled st \<and> ids \<noteq> [] then processBatch env ids st else Some st)"

definition remove_nth :: "nat \<Rightarrow> 'a list \<Rightarrow> 'a list" where
  "remove_nth i xs = take i xs @ drop (Suc i) xs"

text \<open>One event. \<open>EFire i k\<close> fires the \<open>i\<close>-th pending timer (a batch callback
  processes \<open>k\<close> messages: any number with \<open>requestIdleCallback\<close>, ten without);
  \<open>ETick\<close> is one run of the 2-second interval; \<open>ERender i v\<close> is the host setting the
  \<open>innerHTML\<close> of message \<open>i\<close>; \<open>EHostChat\<close> a change of the chat by the host (a
  new, edited or streamed message); \<open>ENodes\<close> new message elements seen by the observer;
  \<open>ESave\<close> the editor saving a configuration (built by \<open>editor_settings\<close>) for
  the current character and re-applying after 150 ms (lines 1427--1442, which need a
  character); \<open>EToggle\<close> the module's checkbox (lines 1556--1569); \<open>EXbToggle\<close>
  the extension-wide \<open>xiaobaixEnabledChanged\<close> event (lines 1539--1554);
  \<open>EImport\<close> the import of the global settings.\<close>

fun step :: "env \<Rightarrow> event \<Rightarrow> hstate \<Rightarrow> outcome" where
  "step env (EUpdated i) st = Some (schedule (TProcess i) st, None)"
| "step env (ESwiped i) st = Some (schedule (TSwipe i) ((stopStreamingCheck st)\<lparr>h_check_active := False\<rparr>), None)"
| "step env EToken st =
     Some (if h_check_active st then st else startStreamingCheck (st\<lparr>h_check_active := True, h_generating := True\<rparr>), None)"
| "step env EGenEnded st =
     (let st1 = (stopStreamingCheck st)\<lparr>h_check_active := False\<rparr>
      in Some (if h_chat st1 = [] then st1 else schedule (TProcess (length (h_chat st1) - 1)) st1, None))"
| "step env (EChatChanged chat) st = Some (schedule (TReapply False) (state_clear (st\<lparr>h_chat := chat\<rparr>)), None)"
| "step env (ECharSelected chid ch chat) st =
     Some (schedule (TReapply True) (state_clear (st\<lparr>h_chid := chid, ts_char := ch, h_chat := chat\<rparr>)), None)"
| "step env ETick st = (if h_streaming st then streaming_tick env st else Some (st, None))"
| "step env (EFire i k) st =
     (if i < length (h_timers st) \<and> (e_idle env \<or> k = 10) then
        fire env k (h_timers st ! i) (st\<lparr>h_timers := remove_nth i (h_timers st)\<rparr>)
      else Some (st, None))"
| "step env (ERender i v) st = intercept env i v st"
| "step env (EHostChat chat) st = Some (st\<lparr>h_chat := chat\<rparr>, None)"
| "step env (ENodes ids) st = no_error (observeNodes env ids st)"
| "step env (ESave tmpl rx lim cnt skip) st =
     Some (if ts_char st = None then st
           else schedule (TReapply False) (saveCurrentChar (editor_settings tmpl rx lim cnt skip) st), None)"
| "step env (EToggle b) st = Some (toggleTemplate b st, None)"
| "step env (EXbToggle b) st = Some (xbEnabledChanged b st, None)"
| "step env (EImport en binds) st = Some (importGlobal en binds st, None)"

text \<open>A freshly loaded page: empty caches and histories, no poll, no pending work.\<close>

definition initial :: "hstate \<Rightarrow> bool" where
  "initial st \<longleftrightarrow>
     ts_tcache st = Map.empty \<and> h_vars st = Map.empty \<and> h_hist st = Map.empty \<and>
     \<not> h_streaming st \<and> \<not> h_generating st \<and> \<not> h_check_active st \<and> h_timers st = [] \<and> h_pending st = []"

inductive reach :: "env \<Rightarrow> hstate \<Rightarrow> bool" for env where
  init: "initial st \<Longrightarrow> reach env st"
| step: "reach env st \<Longrightarrow> step env ev st = Some (st', e) \<Longrightarrow> reach env st'"

definition host_inv :: "hstate \<Rightarrow> bool" where
  "host_inv st \<longleftrightarrow>
     hist_bounded (h_hist st) \<and> (h_generating st \<longrightarrow> h_streaming st) \<and> (h_streaming st \<longrightarrow> h_check_active st)"

fun is_import :: "event \<Rightarrow> bool" where
  "is_import (EImport _ _) = True"
| "is_import _ = False"

text \<open>A run of events from a state, stopping at the first that does not return.\<close>

fun run :: "env \<Rightarrow> event list \<Rightarrow> hstate \<Rightarrow> hstate option" where
  "run env [] st = Some st"
| "run env (ev # evs) st = (case step env ev st of None \<Rightarrow> None | Some (st', _) \<Rightarrow> run env evs st')"

section \<open>Lemmas\<close>

lemma inv_keeps: "host_inv st \<Longrightarrow> keeps st st' \<Longrightarrow> host_inv st'"
  by (auto simp: host_inv_def keeps_def)

lemma keeps_swipe_tail: "swipe_tail env i st = Some (st', e) \<Longrightarrow> keeps st st'"
  by (auto simp: swipe_tail_def intro: keeps_gct split: if_splits option.splits prod.splits sum.splits)

lemma keeps_checkEmbeddedTemplate [intro!]: "keeps a b \<Longrightarrow> keeps a (checkEmbeddedTemplate b)"
  by (auto simp: checkEmbeddedTemplate_def split: option.split nat.split prod.split)

lemma keeps_fire: "fire env k t st = Some (st', e) \<Longrightarrow> keeps st st'"
proof (cases t)
  case (TSwipe i)
  assume f: "fire env k t st = Some (st', e)"
  then show ?thesis using TSwipe
    by (auto split: option.splits dest: keeps_process keeps_swipe_tail intro: keeps_trans)
next
  case (TReapply sel)
  assume f: "fire env k t st = Some (st', e)"
  then show ?thesis using TReapply
    by (auto simp: no_error_def dest: keeps_reapplyAll)
next
  case TEnable
  assume f: "fire env k t st = Some (st', e)"
  have "keeps st (st\<lparr>h_intercepting := True\<rparr>)" by (rule keeps_frame [OF keeps_refl]) simp_all
  with f TEnable show ?thesis
    by (auto simp: no_error_def split: if_splits dest: keeps_reapplyAll intro: keeps_trans)
next
  case TInit
  assume f: "fire env k t st = Some (st', e)"
  have "keeps st (st\<lparr>h_intercepting := True\<rparr>)" by (rule keeps_frame [OF keeps_refl]) simp_all
  with f TInit show ?thesis
    by (auto simp: no_error_def dest: keeps_reapplyAll intro: keeps_trans)
next
  case TFlush
  assume f: "fire env k t st = Some (st', e)"
  then show ?thesis using TFlush by (auto intro: keeps_frame [OF keeps_refl])
qed (auto simp: no_error_def dest: keeps_process keeps_batch_chunk)

lemma inv_cleared:
  "host_inv st \<Longrightarrow> h_hist st' \<subseteq>\<^sub>m h_hist st \<Longrightarrow>
   (h_generating st' \<longrightarrow> h_streaming st') \<Longrightarrow> (h_streaming st' \<longrightarrow> h_check_active st') \<Longrightarrow> host_inv st'"
  using hist_bounded_le by (simp add: host_inv_def) blast

lemma inv_flags_only:
  "host_inv st \<Longrightarrow> h_hist st' = h_hist st \<Longrightarrow> (h_generating st' \<longrightarrow> h_streaming st') \<Longrightarrow>
   (h_streaming st' \<longrightarrow> h_check_active st') \<Longrightarrow> host_inv st'"
  by (simp add: host_inv_def)

lemma inv_cleanup: assumes "host_inv st" shows "host_inv (cleanup st)"
  by (rule inv_cleared [OF assms])
    (use assms in \<open>auto simp: host_inv_def cleanup_def state_clear_def stopStreamingCheck_def\<close>)

lemma inv_schedule: "host_inv st \<Longrightarrow> host_inv (schedule t st)"
  by (simp add: host_inv_def schedule_def)

lemma inv_step:
  assumes I: "host_inv st" and s: "step env ev st = Some (st', e)"
  shows "host_inv st'"
proof (cases ev)
  case (EFire i k)
  let ?st = "st\<lparr>h_timers := remove_nth i (h_timers st)\<rparr>"
  have "keeps st ?st" by (rule keeps_frame [OF keeps_refl]) simp_all
  with s EFire I show ?thesis
    by (auto split: if_splits dest!: keeps_fire intro: inv_keeps keeps_trans)
next
  case ETick
  with s I show ?thesis by (auto split: if_splits dest: keeps_streaming_tick intro: inv_keeps)
next
  case (ERender i v)
  with s I show ?thesis by (auto dest: keeps_intercept intro: inv_keeps)
next
  case (ENodes ids)
  with s I show ?thesis
    by (auto simp: no_error_def observeNodes_def split: if_splits dest: keeps_processBatch intro: inv_keeps)
next
  case (EUpdated i)
  with s I show ?thesis by (auto intro: inv_keeps)
next
  case (EHostChat chat)
  have "keeps st (st\<lparr>h_chat := chat\<rparr>)" by (rule keeps_frame [OF keeps_refl]) simp_all
  with s I EHostChat show ?thesis by (auto intro: inv_keeps)
next
  case (ESwiped i)
  with s have st'_eq: "st' = schedule (TSwipe i) ((stopStreamingCheck st)\<lparr>h_check_active := False\<rparr>)" by simp
  show ?thesis unfolding st'_eq
    by (rule inv_flags_only [OF I];
        use I in \<open>auto simp: host_inv_def schedule_def stopStreamingCheck_def\<close>)
next
  case EGenEnded
  with s have st'_eq: "st' = (if h_chat st = [] then (stopStreamingCheck st)\<lparr>h_check_active := False\<rparr>
                      else schedule (TProcess (length (h_chat st) - 1)) ((stopStreamingCheck st)\<lparr>h_check_active := False\<rparr>))"
    by (auto simp: stopStreamingCheck_def Let_def split: if_splits)
  show ?thesis unfolding st'_eq
    by (rule inv_flags_only [OF I];
        use I in \<open>auto simp: host_inv_def schedule_def stopStreamingCheck_def\<close>)
next
  case EToken
  with s have st'_eq: "st' = (if h_check_active st then st else startStreamingCheck (st\<lparr>h_check_active := True, h_generating := True\<rparr>))"
    by simp
  show ?thesis unfolding st'_eq
    by (rule inv_flags_only [OF I];
        use I in \<open>auto simp: host_inv_def startStreamingCheck_def\<close>)
next
  case (EChatChanged chat)
  with s have st'_eq: "st' = schedule (TReapply False) (state_clear (st\<lparr>h_chat := chat\<rparr>))" by simp
  show ?thesis unfolding st'_eq
    by (rule inv_cleared [OF I]; use I in \<open>auto simp: host_inv_def schedule_def state_clear_def\<close>)
next
  case (ECharSelected chid ch chat)
  with s have st'_eq: "st' = schedule (TReapply True) (state_clear (st\<lparr>h_chid := chid, ts_char := ch, h_chat := chat\<rparr>))" by simp
  show ?thesis unfolding st'_eq
    by (rule inv_cleared [OF I]; use I in \<open>auto simp: host_inv_def schedule_def state_clear_def\<close>)
next
  case (ESave tmpl rx lim cnt skip)
  with s have st'_eq: "st' = (if ts_char st = None then st
     else schedule (TReapply False) (saveCurrentChar (editor_settings tmpl rx lim cnt skip) st))" by simp
  show ?thesis unfolding st'_eq
    by (rule inv_flags_only [OF I]; use I in \<open>auto simp: host_inv_def schedule_def saveCurrentChar_def split: option.splits\<close>)
next
  case (EImport en binds)
  with s have st'_eq: "st' = importGlobal en binds st" by simp
  show ?thesis unfolding st'_eq
    by (rule inv_flags_only [OF I]; use I in \<open>auto simp: host_inv_def importGlobal_def schedule_def\<close>)
next
  case (EToggle b)
  have "host_inv (st\<lparr>ts_enabled := True, h_intercepting := True\<rparr>)" "host_inv (st\<lparr>ts_enabled := False\<rparr>)"
    using I by (simp_all add: host_inv_def)
  then have "host_inv (toggle_input b st)" by (simp add: toggle_input_def inv_schedule inv_cleanup)
  then show ?thesis using s EToggle
    by (auto simp: toggleTemplate_def toggle_change_def initTemplateEditor_def Let_def intro!: inv_schedule inv_cleanup)
next
  case (EXbToggle b)
  show ?thesis
  proof (cases b)
    case True
    with s EXbToggle have st'_eq: "st' = schedule TEnable (st\<lparr>ts_xb_enabled := True\<rparr>)" by (simp add: xbEnabledChanged_def)
    show ?thesis unfolding st'_eq
      by (rule inv_flags_only [OF I]; use I in \<open>auto simp: host_inv_def schedule_def\<close>)
  next
    case False
    with s EXbToggle have st'_eq: "st' = cleanup (st\<lparr>ts_xb_enabled := False\<rparr>)" by (simp add: xbEnabledChanged_def)
    show ?thesis unfolding st'_eq
      by (rule inv_cleared [OF I];
          use I in \<open>auto simp: host_inv_def cleanup_def state_clear_def stopStreamingCheck_def\<close>)
  qed
qed

lemma cache_step:
  assumes C: "cache_ok st" and ni: "\<not> is_import ev" and s: "step env ev st = Some (st', e)"
  shows "cache_ok st'"
proof -
  have K: "keeps st st' \<Longrightarrow> cache_ok st'" using C by (simp add: keeps_def)
  have F: "ts_tcache st' = ts_tcache st \<Longrightarrow> ts_char st' = ts_char st \<Longrightarrow> ts_bindings st' = ts_bindings st \<Longrightarrow> cache_ok st'"
    using C cache_ok_cong [of st' st] by simp
  show ?thesis
  proof (cases ev)
    case (EFire i k)
    let ?st = "st\<lparr>h_timers := remove_nth i (h_timers st)\<rparr>"
    have "keeps st ?st" by (rule keeps_frame [OF keeps_refl]) simp_all
    with s EFire show ?thesis by (auto split: if_splits dest!: keeps_fire intro: K keeps_trans)
  next
    case ETick
    with s show ?thesis by (auto split: if_splits dest: keeps_streaming_tick intro: K)
  next
    case (ERender i v)
    with s show ?thesis by (auto dest: keeps_intercept intro: K)
  next
    case (ENodes ids)
    with s show ?thesis
      by (auto simp: no_error_def observeNodes_def split: if_splits dest: keeps_processBatch intro: K)
  next
    case (ESave tmpl rx lim cnt skip)
    with s C show ?thesis by (auto simp: saveCurrentChar_def schedule_def split: if_splits option.splits)
  qed (use s ni F in \<open>auto simp: schedule_def stopStreamingCheck_def startStreamingCheck_def state_clear_def
          cleanup_def toggleTemplate_def toggle_input_def toggle_change_def initTemplateEditor_def
          xbEnabledChanged_def Let_def split: if_splits\<close>)
qed

text \<open>C2: In every state reachable from a fresh page by any sequence of host events,
  handler runs and timer firings, every recorded variable history has at most five
  entries, generation is marked active only while the 2-second poll runs, and the poll
  only runs while a token stream is marked active.\<close>

theorem reach_inv:
  assumes "reach env st"
  shows "host_inv st"
  using assms
proof (induction rule: reach.induct)
  case (init st)
  then show ?case by (simp add: initial_def host_inv_def hist_bounded_def)
next
  case (step st ev st' e)
  then show ?case using inv_step by blast
qed

theorem reach_inv_witness:
  "reach \<lparr>e_compile = \<lambda>_. None, e_subst = None, e_bridge = [], e_idle = False\<rparr>
     \<lparr>ts_enabled = True, ts_bindings = Map.empty, ts_xb_enabled = True, ts_char = None, ts_tcache = Map.empty,
      h_chat = [], h_chid = None, h_vars = Map.empty, h_hist = Map.empty, h_streaming = True,
      h_generating = True, h_check_active = True, h_intercepting = False, h_timers = [], h_pending = [],
      h_rerender = [], h_dom = Map.empty, h_docs = Map.empty, h_pushes = [], h_fresh = 0\<rparr> \<and>
   host_inv
     \<lparr>ts_enabled = True, ts_bindings = Map.empty, ts_xb_enabled = True, ts_char = None, ts_tcache = Map.empty,
      h_chat = [], h_chid = None, h_vars = Map.empty, h_hist = Map.empty, h_streaming = True,
      h_generating = True, h_check_active = True, h_intercepting = False, h_timers = [], h_pending = [],
      h_rerender = [], h_dom = Map.empty, h_docs = Map.empty, h_pushes = [], h_fresh = 0\<rparr>"
  (is "reach ?E ?S1 \<and> host_inv ?S1")
proof -
  let ?S0 = "?S1\<lparr>h_streaming := False, h_generating := False, h_check_active := False\<rparr>"
  have "reach ?E ?S0" by (rule reach.init) (simp add: initial_def)
  moreover have "step ?E EToken ?S0 = Some (?S1, None)" by (simp add: startStreamingCheck_def)
  ultimately have r: "reach ?E ?S1" by (rule reach.step)
  then show ?thesis using reach_inv [OF r] by simp
qed

text \<open>C7: Every event other than the import of global settings keeps the template cache
  coherent: after it, the cached \<open>getCharTemplate\<close> returns what the precedence
  rule (embedded configuration first, then the enabled shadow copy) gives.\<close>

theorem getCharTemplate_coherent:
  assumes "cache_ok st" and "\<not> is_import ev" and "step env ev st = Some (st', e)"
  shows "fst (getCharTemplate a st') = char_template_spec a st'"
  using getCharTemplate_refines [OF cache_step [OF assms]] by blast

text \<open>C26: Turning the template module off and on while a token stream is active leaves
  \<open>isStreamingCheckActive\<close> set with no poll running (\<open>cleanup\<close> stops the poll
  but does not reset the flag), so the tokens that follow do not restart it and no tick
  re-renders the streamed message until the generation ends.\<close>

theorem poll_lost_after_toggle:
  assumes "h_check_active st"
  shows "\<exists>st'. run env [EToggle False, EToggle True, EToken] st = Some st' \<and>
           \<not> h_streaming st' \<and> h_check_active st' \<and> step env ETick st' = Some (st', None)"
  using assms
  by (simp add: toggleTemplate_def toggle_input_def toggle_change_def initTemplateEditor_def Let_def
      cleanup_def state_clear_def stopStreamingCheck_def schedule_def)

text \<open>C28: When the template module is disabled, switching to another conversation clears
  the cached variables but not the variable histories: \<open>state.clear()\<close> leaves
  \<open>variableHistory\<close> alone and the re-apply that would clear it returns at once.\<close>

theorem chat_change_keeps_history:
  assumes "\<not> ts_enabled st" and "h_timers st = []"
  shows "\<exists>st'. run env [EChatChanged chat, EFire 0 10] st = Some st' \<and> h_hist st' = h_hist st \<and> h_timers st' = []"
  using assms
  by (simp add: schedule_def state_clear_def remove_nth_def reapplyAll_def no_error_def)

lemma gct_caches:
  "isEnabled st \<Longrightarrow> av \<noteq> [] \<Longrightarrow> getCharTemplate (Some av) st = (r, st1) \<Longrightarrow> ts_tcache st1 av = Some r"
  by (auto simp: getCharTemplate_def Let_def split: option.splits)

text \<open>C27: Importing global settings does not clear the template cache: once
  \<open>getCharTemplate\<close> has found no configuration for an avatar, an imported binding that
  enables a template for it is not seen. The lookup still answers \<open>null\<close> while the
  precedence rule gives the imported configuration, so \<open>process\<close> (and the re-apply the
  import schedules) leaves that avatar's messages unrendered.\<close>

theorem import_stale_cache:
  assumes "getCharTemplate (Some av) st = (None, st1)" and "isEnabled st" and "av \<noteq> []"
    and "binds av = Some cs" and "cs_enabled cs" and "\<forall>e. ts_char st \<noteq> Some (av, Some e)"
    and "en \<noteq> Some False"
    and "lookup_msg (h_chat st) i = Some msg" and "m_avatar msg = Some av"
    and "\<not> m_force_avatar msg" and "\<not> m_is_user msg" and "\<not> m_is_system msg"
  shows "fst (getCharTemplate (Some av) (importGlobal en (Some binds) st1)) = None \<and>
         char_template_spec (Some av) (importGlobal en (Some binds) st1) = Some cs \<and>
         process env i (importGlobal en (Some binds) st1) = Some (importGlobal en (Some binds) st1, None)"
proof -
  let ?st2 = "importGlobal en (Some binds) st1"
  have c: "ts_tcache st1 av = Some None" using gct_caches [OF assms(2,3,1)] .
  have f: "h_chat st1 = h_chat st \<and> ts_char st1 = ts_char st \<and> ts_xb_enabled st1 = ts_xb_enabled st \<and>
           ts_enabled st1 = ts_enabled st"
    using assms(1) gct_fields_eq [OF assms(1)] by (auto simp: getCharTemplate_def Let_def split: option.splits if_splits)
  have en: "isEnabled ?st2" using assms(2,7) f by (cases en) (auto simp: importGlobal_def isEnabled_def schedule_def)
  have g: "getCharTemplate (Some av) ?st2 = (None, ?st2)"
    using en c assms(3) by (simp add: getCharTemplate_def importGlobal_def schedule_def)
  moreover have "char_template_spec (Some av) ?st2 = Some cs"
    using en assms(3-6) f by (auto simp: char_template_spec_def char_template_fresh_def importGlobal_def schedule_def
        split: option.split prod.split)
  moreover have "process env i ?st2 = Some (?st2, None)"
    using g en assms(8-12) f by (simp add: process_def isEnabled_def importGlobal_def schedule_def)
  ultimately show ?thesis by simp
qed

theorem getCharTemplate_coherent_witness:
  "fst (getCharTemplate (Some ''a.png'')
     \<lparr>ts_enabled = True, ts_bindings = Map.empty, ts_xb_enabled = True, ts_char = None, ts_tcache = Map.empty,
      h_chat = [\<lparr>m_mes = ''[hp]10[/hp]'', m_is_user = False, m_is_system = False, m_force_avatar = False,
                 m_avatar = Some ''a.png'', m_display = None\<rparr>],
      h_chid = None, h_vars = Map.empty, h_hist = Map.empty, h_streaming = False,
      h_generating = False, h_check_active = False, h_intercepting = True, h_timers = [TProcess 0], h_pending = [],
      h_rerender = [], h_dom = Map.empty, h_docs = Map.empty, h_pushes = [], h_fresh = 0\<rparr>) = None"
  using getCharTemplate_coherent [of "\<lparr>ts_enabled = True, ts_bindings = Map.empty, ts_xb_enabled = True, ts_char = None, ts_tcache = Map.empty,
      h_chat = [\<lparr>m_mes = ''[hp]10[/hp]'', m_is_user = False, m_is_system = False, m_force_avatar = False,
                 m_avatar = Some ''a.png'', m_display = None\<rparr>],
      h_chid = None, h_vars = Map.empty, h_hist = Map.empty, h_streaming = False,
      h_generating = False, h_check_active = False, h_intercepting = True, h_timers = [], h_pending = [],
      h_rerender = [], h_dom = Map.empty, h_docs = Map.empty, h_pushes = [], h_fresh = 0\<rparr>" "EUpdated 0" "\<lparr>e_compile = \<lambda>p. if p = default_pattern then Some tag_exec else None, e_subst = None, e_bridge = [], e_idle = False\<rparr>"
      "\<lparr>ts_enabled = True, ts_bindings = Map.empty, ts_xb_enabled = True, ts_char = None, ts_tcache = Map.empty,
      h_chat = [\<lparr>m_mes = ''[hp]10[/hp]'', m_is_user = False, m_is_system = False, m_force_avatar = False,
                 m_avatar = Some ''a.png'', m_display = None\<rparr>],
      h_chid = None, h_vars = Map.empty, h_hist = Map.empty, h_streaming = False,
      h_generating = False, h_check_active = False, h_intercepting = True, h_timers = [TProcess 0], h_pending = [],
      h_rerender = [], h_dom = Map.empty, h_docs = Map.empty, h_pushes = [], h_fresh = 0\<rparr>" None "Some ''a.png''"]
  by (simp add: schedule_def char_template_spec_def isEnabled_def char_template_fresh_def)

theorem poll_lost_after_toggle_witness:
  "\<exists>st'. run \<lparr>e_compile = \<lambda>p. if p = default_pattern then Some tag_exec else None, e_subst = None, e_bridge = [], e_idle = False\<rparr> [EToggle False, EToggle True, EToken]
     \<lparr>ts_enabled = True, ts_bindings = Map.empty, ts_xb_enabled = True, ts_char = None, ts_tcache = Map.empty,
      h_chat = [\<lparr>m_mes = ''[hp]10[/hp]'', m_is_user = False, m_is_system = False, m_force_avatar = False,
                 m_avatar = Some ''a.png'', m_display = None\<rparr>],
      h_chid = None, h_vars = Map.empty, h_hist = Map.empty, h_streaming = True,
      h_generating = True, h_check_active = True, h_intercepting = True, h_timers = [], h_pending = [],
      h_rerender = [], h_dom = Map.empty, h_docs = Map.empty, h_pushes = [], h_fresh = 0\<rparr> = Some st' \<and>
     \<not> h_streaming st' \<and> h_check_active st' \<and> step \<lparr>e_compile = \<lambda>p. if p = default_pattern then Some tag_exec else None, e_subst = None, e_bridge = [], e_idle = False\<rparr> ETick st' = Some (st', None)"
  using poll_lost_after_toggle [of "\<lparr>ts_enabled = True, ts_bindings = Map.empty, ts_xb_enabled = True, ts_char = None, ts_tcache = Map.empty,
      h_chat = [\<lparr>m_mes = ''[hp]10[/hp]'', m_is_user = False, m_is_system = False, m_force_avatar = False,
                 m_avatar = Some ''a.png'', m_display = None\<rparr>],
      h_chid = None, h_vars = Map.empty, h_hist = Map.empty, h_streaming = True,
      h_generating = True, h_check_active = True, h_intercepting = True, h_timers = [], h_pending = [],
      h_rerender = [], h_dom = Map.empty, h_docs = Map.empty, h_pushes = [], h_fresh = 0\<rparr>" "\<lparr>e_compile = \<lambda>p. if p = default_pattern then Some tag_exec else None, e_subst = None, e_bridge = [], e_idle = False\<rparr>"] by simp

theorem chat_change_keeps_history_witness:
  "\<exists>st'. run \<lparr>e_compile = \<lambda>p. if p = default_pattern then Some tag_exec else None, e_subst = None, e_bridge = [], e_idle = False\<rparr> [EChatChanged [], EFire 0 10]
     \<lparr>ts_enabled = False, ts_bindings = Map.empty, ts_xb_enabled = True, ts_char = None, ts_tcache = Map.empty,
      h_chat = [\<lparr>m_mes = ''[hp]10[/hp]'', m_is_user = False, m_is_system = False, m_force_avatar = False,
                 m_avatar = Some ''a.png'', m_display = None\<rparr>],
      h_chid = None, h_vars = Map.empty, h_hist = [0 \<mapsto> [''hp'' \<mapsto> [JStr ''10'']]], h_streaming = False,
      h_generating = False, h_check_active = False, h_intercepting = True, h_timers = [], h_pending = [],
      h_rerender = [], h_dom = Map.empty, h_docs = Map.empty, h_pushes = [], h_fresh = 0\<rparr> = Some st' \<and>
     h_hist st' = [0 \<mapsto> [''hp'' \<mapsto> [JStr ''10'']]] \<and> h_timers st' = []"
  using chat_change_keeps_history [of "\<lparr>ts_enabled = False, ts_bindings = Map.empty, ts_xb_enabled = True, ts_char = None, ts_tcache = Map.empty,
      h_chat = [\<lparr>m_mes = ''[hp]10[/hp]'', m_is_user = False, m_is_system = False, m_force_avatar = False,
                 m_avatar = Some ''a.png'', m_display = None\<rparr>],
      h_chid = None, h_vars = Map.empty, h_hist = [0 \<mapsto> [''hp'' \<mapsto> [JStr ''10'']]], h_streaming = False,
      h_generating = False, h_check_active = False, h_intercepting = True, h_timers = [], h_pending = [],
      h_rerender = [], h_dom = Map.empty, h_docs = Map.empty, h_pushes = [], h_fresh = 0\<rparr>" "\<lparr>e_compile = \<lambda>p. if p = default_pattern then Some tag_exec else None, e_subst = None, e_bridge = [], e_idle = False\<rparr>" "[]"] by simp

theorem import_stale_cache_witness:
  "fst (getCharTemplate (Some ''a.png'') (importGlobal None (Some [''a.png'' \<mapsto> \<lparr>cs_enabled = True, cs_template = ''<b>[[hp]]</b>'', cs_regex = Some default_pattern, cs_limit = False, cs_recent = Some 5, cs_skip_first = False\<rparr>]) (snd (getCharTemplate (Some ''a.png'') \<lparr>ts_enabled = True, ts_bindings = Map.empty, ts_xb_enabled = True, ts_char = None, ts_tcache = Map.empty,
      h_chat = [\<lparr>m_mes = ''[hp]10[/hp]'', m_is_user = False, m_is_system = False, m_force_avatar = False,
                 m_avatar = Some ''a.png'', m_display = None\<rparr>],
      h_chid = None, h_vars = Map.empty, h_hist = Map.empty, h_streaming = False,
      h_generating = False, h_check_active = False, h_intercepting = True, h_timers = [], h_pending = [],
      h_rerender = [], h_dom = Map.empty, h_docs = Map.empty, h_pushes = [], h_fresh = 0\<rparr>)))) = None \<and>
   char_template_spec (Some ''a.png'') (importGlobal None (Some [''a.png'' \<mapsto> \<lparr>cs_enabled = True, cs_template = ''<b>[[hp]]</b>'', cs_regex = Some default_pattern, cs_limit = False, cs_recent = Some 5, cs_skip_first = False\<rparr>]) (snd (getCharTemplate (Some ''a.png'') \<lparr>ts_enabled = True, ts_bindings = Map.empty, ts_xb_enabled = True, ts_char = None, ts_tcache = Map.empty,
      h_chat = [\<lparr>m_mes = ''[hp]10[/hp]'', m_is_user = False, m_is_system = False, m_force_avatar = False,
                 m_avatar = Some ''a.png'', m_display = None\<rparr>],
      h_chid = None, h_vars = Map.empty, h_hist = Map.empty, h_streaming = False,
      h_generating = False, h_check_active = False, h_intercepting = True, h_timers = [], h_pending = [],
      h_rerender = [], h_dom = Map.empty, h_docs = Map.empty, h_pushes = [], h_fresh = 0\<rparr>))) = Some \<lparr>cs_enabled = True, cs_template = ''<b>[[hp]]</b>'', cs_regex = Some default_pattern, cs_limit = False, cs_recent = Some 5, cs_skip_first = False\<rparr> \<and>
   process \<lparr>e_compile = \<lambda>p. if p = default_pattern then Some tag_exec else None, e_subst = None, e_bridge = [], e_idle = False\<rparr> 0 (importGlobal None (Some [''a.png'' \<mapsto> \<lparr>cs_enabled = True, cs_template = ''<b>[[hp]]</b>'', cs_regex = Some default_pattern, cs_limit = False, cs_recent = Some 5, cs_skip_first = False\<rparr>]) (snd (getCharTemplate (Some ''a.png'') \<lparr>ts_enabled = True, ts_bindings = Map.empty, ts_xb_enabled = True, ts_char = None, ts_tcache = Map.empty,
      h_chat = [\<lparr>m_mes = ''[hp]10[/hp]'', m_is_user = False, m_is_system = False, m_force_avatar = False,
                 m_avatar = Some ''a.png'', m_display = None\<rparr>],
      h_chid = None, h_vars = Map.empty, h_hist = Map.empty, h_streaming = False,
      h_generating = False, h_check_active = False, h_intercepting = True, h_timers = [], h_pending = [],
      h_rerender = [], h_dom = Map.empty, h_docs = Map.empty, h_pushes = [], h_fresh = 0\<rparr>))) = Some ((importGlobal None (Some [''a.png'' \<mapsto> \<lparr>cs_enabled = True, cs_template = ''<b>[[hp]]</b>'', cs_regex = Some default_pattern, cs_limit = False, cs_recent = Some 5, cs_skip_first = False\<rparr>]) (snd (getCharTemplate (Some ''a.png'') \<lparr>ts_enabled = True, ts_bindings = Map.empty, ts_xb_enabled = True, ts_char = None, ts_tcache = Map.empty,
      h_chat = [\<lparr>m_mes = ''[hp]10[/hp]'', m_is_user = False, m_is_system = False, m_force_avatar = False,
                 m_avatar = Some ''a.png'', m_display = None\<rparr>],
      h_chid = None, h_vars = Map.empty, h_hist = Map.empty, h_streaming = False,
      h_generating = False, h_check_active = False, h_intercepting = True, h_timers = [], h_pending = [],
      h_rerender = [], h_dom = Map.empty, h_docs = Map.empty, h_pushes = [], h_fresh = 0\<rparr>))), None)"
proof -
  have g: "getCharTemplate (Some ''a.png'') \<lparr>ts_enabled = True, ts_bindings = Map.empty, ts_xb_enabled = True, ts_char = None, ts_tcache = Map.empty,
      h_chat = [\<lparr>m_mes = ''[hp]10[/hp]'', m_is_user = False, m_is_system = False, m_force_avatar = False,
                 m_avatar = Some ''a.png'', m_display = None\<rparr>],
      h_chid = None, h_vars = Map.empty, h_hist = Map.empty, h_streaming = False,
      h_generating = False, h_check_active = False, h_intercepting = True, h_timers = [], h_pending = [],
      h_rerender = [], h_dom = Map.empty, h_docs = Map.empty, h_pushes = [], h_fresh = 0\<rparr> = (None, snd (getCharTemplate (Some ''a.png'') \<lparr>ts_enabled = True, ts_bindings = Map.empty, ts_xb_enabled = True, ts_char = None, ts_tcache = Map.empty,
      h_chat = [\<lparr>m_mes = ''[hp]10[/hp]'', m_is_user = False, m_is_system = False, m_force_avatar = False,
                 m_avatar = Some ''a.png'', m_display = None\<rparr>],
      h_chid = None, h_vars = Map.empty, h_hist = Map.empty, h_streaming = False,
      h_generating = False, h_check_active = False, h_intercepting = True, h_timers = [], h_pending = [],
      h_rerender = [], h_dom = Map.empty, h_docs = Map.empty, h_pushes = [], h_fresh = 0\<rparr>))"
    by (simp add: getCharTemplate_def isEnabled_def char_template_fresh_def Let_def)
  show ?thesis
    using import_stale_cache [where env = "\<lparr>e_compile = \<lambda>p. if p = default_pattern then Some tag_exec else None, e_subst = None, e_bridge = [], e_idle = False\<rparr>" and i = 0 and en = None and cs = "\<lparr>cs_enabled = True, cs_template = ''<b>[[hp]]</b>'', cs_regex = Some default_pattern, cs_limit = False, cs_recent = Some 5, cs_skip_first = False\<rparr>" and binds = "[''a.png'' \<mapsto> \<lparr>cs_enabled = True, cs_template = ''<b>[[hp]]</b>'', cs_regex = Some default_pattern, cs_limit = False, cs_recent = Some 5, cs_skip_first = False\<rparr>]", OF g]
    by (simp add: isEnabled_def lookup_msg_def)
qed

end
