(* ===== verification/Channel.thy ===== *)
theory Channel
  imports Json
begin

text \<open>
  The command channel between an embedded document and the host. Inside the frame,
  \<open>STscript(command)\<close> posts \<open>{source: 'xiaobaix-iframe', type: 'runCommand', command, id}\<close>
  to the host and waits for the reply carrying the same id; the script of
  \<open>createIframeApi\<close> (\<open>src/index.js\<close> 391--423) and the bridge of the template frames
  (\<open>src/template-editor.js\<close> 912--930) do this with different listeners. In the host,
  \<open>handleIframeMessage\<close> (\<open>src/index.js\<close> 501--523) sizes the frame a \<open>resize\<close> comes
  from and answers a \<open>runCommand\<close> with the outcome of \<open>executeSlashCommand\<close> (470--499).

  The host's \<open>executeSlashCommands\<close> and \<open>substituteParams\<close> are parameters; a JavaScript
  value is \<open>undefined\<close> or a JSON-like value, and a thrown error is its message. Frames
  are identified by their windows; the reply is posted to the window the request came
  from. The asynchrony of the reply is not modelled: each request gets its reply as one
  step, and what matters is which listener it settles.
\<close>

datatype cmd_value = Undefined | Value jval

record slash_ctx =
  sc_exec :: "(string \<Rightarrow> string + cmd_value) option"
  sc_subst :: "string \<Rightarrow> string"

text \<open>The messages of lines 472 and 477, as their UTF-8 bytes.\<close>

definition msg_empty_command :: string where
  "msg_empty_command = map char_of [229::nat, 145, 189, 228, 187, 164, 228, 184, 186, 231, 169, 186]"

definition msg_no_exec :: string where
  "msg_no_exec = ''executeSlashCommands '' @
     map char_of [229::nat, 135, 189, 230, 149, 176, 228, 184, 141, 229, 143, 175, 231, 148, 168]"

text \<open>\<open>try { return JSON.parse(s); } catch { return s; }\<close>\<close>

definition parse_or_raw :: "string \<Rightarrow> jval" where
  "parse_or_raw s = (case JSON_parse s of Some v \<Rightarrow> v | None \<Rightarrow> JStr s)"

definition is_object :: "jval \<Rightarrow> bool" where
  "is_object v \<longleftrightarrow> (case v of JObj _ \<Rightarrow> True | JArr _ \<Rightarrow> True | _ \<Rightarrow> False)"

text \<open>Lines 483--495: the value returned for the result of \<open>executeSlashCommands\<close>.\<close>

definition slash_result :: "cmd_value \<Rightarrow> cmd_value" where
  "slash_result r =
     (case r of
        Undefined \<Rightarrow> Value (JStr [])
      | Value v \<Rightarrow>
          (case (if is_object v then js_get v ''pipe'' else Absent) of
             Own (JStr s) \<Rightarrow> Value (parse_or_raw s)
           | Own p \<Rightarrow> Value p
           | _ \<Rightarrow>
               (case v of
                  JStr s \<Rightarrow> if js_trim s \<noteq> [] then Value (parse_or_raw s) else r
                | _ \<Rightarrow> r)))"

text \<open>\<open>executeSlashCommand(command)\<close>: \<open>Inl\<close> is the message of the error it throws.\<close>

definition executeSlashCommand :: "slash_ctx \<Rightarrow> string \<Rightarrow> string + cmd_value" where
  "executeSlashCommand ctx command =
     (if command = [] then Inr (Value (JObj [(''error'', JStr msg_empty_command)]))
      else
        let command = (if starts_with command ''/'' then command else CHR ''/'' # command)
        in case sc_exec ctx of
             None \<Rightarrow> Inl msg_no_exec
           | Some exec \<Rightarrow>
               (case exec (sc_subst ctx command) of
                  Inl e \<Rightarrow> Inl e
                | Inr r \<Rightarrow> Inr (slash_result r)))"

text \<open>The data of a message a frame posts to the host (the fields \<open>handleIframeMessage\<close>
  reads); \<open>im_height\<close> is \<open>None\<close> when the message has no height.\<close>

record iframe_msg =
  im_source :: string
  im_type :: string
  im_height :: "int option"
  im_command :: string
  im_id :: string

datatype reply = CommandResult string cmd_value | CommandError string string

text \<open>\<open>err.message || String(err)\<close> for an \<open>Error\<close>.\<close>

definition err_text :: "string \<Rightarrow> string" where
  "err_text e = (if e = [] then ''Error'' else e)"

definition command_reply :: "string \<Rightarrow> string + cmd_value \<Rightarrow> reply" where
  "command_reply i r = (case r of Inr v \<Rightarrow> CommandResult i v | Inl e \<Rightarrow> CommandError i (err_text e))"

definition height_px :: "int option \<Rightarrow> string" where
  "height_px h = (case h of Some n \<Rightarrow> int_str n @ ''px'' | None \<Rightarrow> ''undefinedpx'')"

text \<open>The frames of the page as pairs of their window and their \<open>style.height\<close>.\<close>

type_synonym frames = "(nat \<times> string) list"

fun set_height :: "nat \<Rightarrow> string \<Rightarrow> frames \<Rightarrow> frames" where
  "set_height w h [] = []"
| "set_height w h ((v, x) # fs) = (if v = w then (v, h) # fs else (v, x) # set_height w h fs)"

text \<open>\<open>handleIframeMessage(event)\<close> for a message from window \<open>w\<close> with data \<open>d\<close>
  (\<open>None\<close>: no data): the new frames and the reply posted back to \<open>w\<close>.\<close>

definition handleIframeMessage ::
  "slash_ctx \<Rightarrow> frames \<Rightarrow> nat \<Rightarrow> iframe_msg option \<Rightarrow> frames \<times> (nat \<times> reply) option" where
  "handleIframeMessage ctx fs w d =
     (case d of
        None \<Rightarrow> (fs, None)
      | Some m \<Rightarrow>
          if im_source m \<noteq> ''xiaobaix-iframe'' then (fs, None)
          else if im_type m = ''resize'' then (set_height w (height_px (im_height m)) fs, None)
          else if im_type m = ''runCommand'' then
            (fs, Some (w, command_reply (im_id m) (executeSlashCommand ctx (im_command m))))
          else (fs, None))"

text \<open>\<open>STBridge.sendMessageToST('runCommand', { command, id })\<close>.\<close>

definition command_request :: "string \<Rightarrow> string \<Rightarrow> iframe_msg option" where
  "command_request cmd i =
     Some \<lparr>im_source = ''xiaobaix-iframe'', im_type = ''runCommand'', im_height = None,
           im_command = cmd, im_id = i\<rparr>"

text \<open>The data a frame's window receives from the host: source, type, id (\<open>None\<close>:
  absent), result and error. \<open>reply_data\<close> is the data of a reply; \<open>update_data\<close> that of
  \<open>IframeManager.sendUpdate\<close> (\<open>src/template-editor.js\<close> 947--953), which has no id.\<close>

datatype host_data = NoData | HostData string string "string option" cmd_value "string option"

definition reply_data :: "reply \<Rightarrow> host_data" where
  "reply_data r =
     (case r of
        CommandResult i v \<Rightarrow> HostData ''xiaobaix-host'' ''commandResult'' (Some i) v None
      | CommandError i e \<Rightarrow> HostData ''xiaobaix-host'' ''commandError'' (Some i) Undefined (Some e))"

definition update_data :: host_data where
  "update_data = HostData ''xiaobaix-host'' ''VARIABLE_UPDATE'' None Undefined None"

datatype settle = Resolve cmd_value | Reject string

definition error_message :: "string option \<Rightarrow> string" where
  "error_message e = (case e of Some m \<Rightarrow> m | None \<Rightarrow> [])"

text \<open>The listener of \<open>createIframeApi\<close>'s \<open>STscript\<close> (\<open>src/index.js\<close> 398--411):
  \<open>None\<close> leaves the promise pending and the listener installed.\<close>

definition listen_api :: "string \<Rightarrow> host_data \<Rightarrow> settle option" where
  "listen_api i d =
     (case d of
        NoData \<Rightarrow> None
      | HostData s t j r e \<Rightarrow>
          if s \<noteq> ''xiaobaix-host'' then None
          else if (t = ''commandResult'' \<or> t = ''commandError'') \<and> j = Some i then
            Some (if t = ''commandResult'' then Resolve r else Reject (error_message e))
          else None)"

text \<open>The listener of the template bridge's \<open>STscript\<close> (\<open>src/template-editor.js\<close>
  917--922).\<close>

definition listen_tpl :: "string \<Rightarrow> host_data \<Rightarrow> settle option" where
  "listen_tpl i d =
     (case d of
        NoData \<Rightarrow> None
      | HostData s t j r e \<Rightarrow>
          if j = Some i \<and> s = ''xiaobaix-host'' then
            Some (if t = ''commandResult'' then Resolve r else Reject (error_message e))
          else None)"

text \<open>How \<open>STscript\<close>'s promise settles for the outcome of \<open>executeSlashCommand\<close>.\<close>

definition settle_of :: "string + cmd_value \<Rightarrow> settle" where
  "settle_of r = (case r of Inr v \<Rightarrow> Resolve v | Inl e \<Rightarrow> Reject (err_text e))"

section \<open>Lemmas\<close>

lemma listen_reply:
  "listen_api j (reply_data (command_reply i r)) = (if j = i then Some (settle_of r) else None) \<and>
   listen_tpl j (reply_data (command_reply i r)) = (if j = i then Some (settle_of r) else None)"
  by (cases r) (auto simp: listen_api_def listen_tpl_def reply_data_def command_reply_def settle_of_def error_message_def)

lemma update_never_settles: "listen_api i update_data = None \<and> listen_tpl i update_data = None"
  by (simp add: listen_api_def listen_tpl_def update_data_def)

text \<open>C10: The command channel round trip: the host answers a frame's \<open>runCommand\<close>
  request with one reply to the requesting window, leaving the frames as they are, and that
  reply settles the pending \<open>STscript\<close> call with the same id, in either bridge, with
  the outcome of \<open>executeSlashCommand\<close>, while it leaves every call with another id
  pending.\<close>

theorem command_channel_roundtrip:
  "\<exists>rep. handleIframeMessage ctx fs w (command_request cmd i) = (fs, Some (w, rep)) \<and>
     (\<forall>j. listen_api j (reply_data rep) = (if j = i then Some (settle_of (executeSlashCommand ctx cmd)) else None) \<and>
          listen_tpl j (reply_data rep) = (if j = i then Some (settle_of (executeSlashCommand ctx cmd)) else None))"
  by (simp add: handleIframeMessage_def command_request_def listen_reply)


lemma pipe_json_decoded:
  assumes "sc_exec ctx = Some exec" "cmd \<noteq> []" "\<not> starts_with cmd ''/''"
    and "exec (sc_subst ctx (CHR ''/'' # cmd)) = Inr (Value (JObj [(''pipe'', JStr s)]))"
    and "JSON_parse s = Some v"
  shows "executeSlashCommand ctx cmd = Inr (Value v)"
  using assms by (simp add: executeSlashCommand_def slash_result_def is_object_def js_get_def parse_or_raw_def)

theorem pipe_json_decoded_witness:
  "executeSlashCommand \<lparr>sc_exec = Some (\<lambda>c. if c = ''/getvar x'' then Inr (Value (JObj [(''pipe'', JStr ''[1,2]'')])) else Inl ''no''),
                        sc_subst = id\<rparr> ''getvar x'' = Inr (Value (JArr [JNum 1 0, JNum 2 0]))"
proof -
  have "JSON_parse ''[1,2]'' = Some (JArr [JNum 1 0, JNum 2 0])" by code_simp
  moreover have "\<not> starts_with ''getvar x'' ''/''" by (simp add: starts_with_def)
  ultimately show ?thesis
    by (rule_tac pipe_json_decoded [where exec = "\<lambda>c. if c = ''/getvar x'' then Inr (Value (JObj [(''pipe'', JStr ''[1,2]'')])) else Inl ''no''" and s = "''[1,2]''"]) simp_all
qed

end
