(* ===== verification/CodeBlocks.thy ===== *)
theory CodeBlocks
  imports Iframe
begin

text \<open>
  The code-block renderer of the host extension (\<open>src/index.js\<close>).
  \<open>shouldRenderContent\<close> (lines 352--356) decides whether a code block holds HTML;
  \<open>prepareHtmlContent\<close> (525--546) puts the bridge script (the text of
  \<open>createIframeApi()\<close>, a parameter here) into the document;
  \<open>renderHtmlInIframe\<close> (548--581) inserts a wrapper holding a fresh iframe before
  the \<open>pre\<close> element and hides the \<open>pre\<close>; \<open>processCodeBlocks\<close> (694--714) runs
  over the \<open>pre > code\<close> blocks of one message text.

  A message text is modelled as the list of its children: a \<open>pre\<close> block with its
  \<open>data-xiaobaix-bound\<close> flag, its hidden flag and the text of its \<open>code\<close>, a wrapper
  with its iframe (the \<open>sandbox\<close> attribute and the document written into it; \<open>None\<close>
  once the iframe was removed), or another node. \<open>parentNode.querySelector\<close> searches
  this list in document order. The code blocks are children of the message text, as the
  markdown renderer emits them; nested blocks are not modelled.
\<close>

definition shouldRenderContent :: "string \<Rightarrow> bool" where
  "shouldRenderContent content \<longleftrightarrow>
     content \<noteq> [] \<and> list_ex (contains content) [''<html'', ''<!DOCTYPE'', ''<script'']"

definition api_script :: "string \<Rightarrow> string" where
  "api_script api = ''<script>'' @ api @ ''</script>''"

text \<open>The template literal of lines 532--539.\<close>

definition base_template :: "string \<Rightarrow> string" where
  "base_template api =
     ''<!DOCTYPE html>'' @ [nl] @ ''<html>'' @ [nl] @ ''<head>'' @
     [nl] @ spaces 4 @ ''<meta charset=\"UTF-8\">'' @
     [nl] @ spaces 4 @ ''<meta name=\"viewport\" content=\"width=device-width, initial-scale=1.0\">'' @
     [nl] @ spaces 4 @
       ''<style>body { margin: 0; padding: 10px; font-family: inherit; color: inherit; background: transparent; }</style>'' @
     [nl] @ spaces 4 @ api_script api @ [nl] @ ''</head>''"

definition prepareHtmlContent :: "string \<Rightarrow> string \<Rightarrow> string" where
  "prepareHtmlContent api htmlContent =
     (if contains htmlContent ''<html'' \<and> contains htmlContent ''</html>'' then
        replace_first htmlContent ''</head>'' (api_script api @ ''</head>'')
      else if contains htmlContent ''<body'' \<and> contains htmlContent ''</body>'' then
        base_template api @ htmlContent @ ''</html>''
      else base_template api @ ''<body>'' @ htmlContent @ ''</body></html>'')"

datatype node =
    Pre bool bool string
  | Wrapper bool "string option"
  | Other

text \<open>The \<open>pre > code\<close> blocks in document order: bound flag, hidden flag, text.\<close>

fun pres :: "node list \<Rightarrow> (bool \<times> bool \<times> string) list" where
  "pres [] = []"
| "pres (Pre b h c # ns) = (b, h, c) # pres ns"
| "pres (_ # ns) = pres ns"

text \<open>Replace the \<open>k\<close>-th block by the nodes \<open>f b h c\<close>.\<close>

fun update_pre :: "nat \<Rightarrow> (bool \<Rightarrow> bool \<Rightarrow> string \<Rightarrow> node list) \<Rightarrow> node list \<Rightarrow> node list" where
  "update_pre k f [] = []"
| "update_pre k f (Pre b h c # ns) = (if k = 0 then f b h c @ ns else Pre b h c # update_pre (k - 1) f ns)"
| "update_pre k f (n # ns) = n # update_pre k f ns"

text \<open>\<open>parentNode.querySelector('iframe.xiaobaix-iframe')?.remove()\<close> (line 702--703)
  and \<open>parentNode.querySelector('.xiaobaix-iframe-wrapper')?.remove()\<close> (704--705).\<close>

fun remove_first_iframe :: "node list \<Rightarrow> node list" where
  "remove_first_iframe [] = []"
| "remove_first_iframe (Wrapper sb (Some d) # ns) = Wrapper sb None # ns"
| "remove_first_iframe (n # ns) = n # remove_first_iframe ns"

fun remove_first_wrapper :: "node list \<Rightarrow> node list" where
  "remove_first_wrapper [] = []"
| "remove_first_wrapper (Wrapper sb d # ns) = ns"
| "remove_first_wrapper (n # ns) = n # remove_first_wrapper ns"

text \<open>\<open>renderHtmlInIframe\<close> for the block \<open>c\<close> (lines 548--577): a wrapper with an
  iframe holding \<open>prepareHtmlContent(c)\<close>, sandboxed when \<open>settings.sandboxMode\<close>,
  inserted before the block, which is hidden. Writing the document does not fail in the
  model, so the fallback document of line 574 is not reached.\<close>

definition renderHtmlInIframe :: "bool \<Rightarrow> string \<Rightarrow> string \<Rightarrow> node list" where
  "renderHtmlInIframe sb api c = [Wrapper sb (Some (prepareHtmlContent api c)), Pre True True c]"

text \<open>The body of the \<open>forEach\<close> of lines 698--712 for the \<open>k\<close>-th block.\<close>

definition process_block :: "bool \<Rightarrow> string \<Rightarrow> node list \<Rightarrow> nat \<Rightarrow> node list" where
  "process_block sb api ns k =
     (if k < length (pres ns) \<and> \<not> fst (pres ns ! k) then
        update_pre k
          (\<lambda>b h c. if shouldRenderContent c then renderHtmlInIframe sb api c else [Pre True h c])
          (remove_first_wrapper (remove_first_iframe ns))
      else ns)"

text \<open>\<open>processCodeBlocks(messageElement)\<close>: nothing unless both \<open>settings.enabled\<close> and
  \<open>isXiaobaixEnabled\<close> hold; the blocks are those of the static node list taken first.\<close>

definition processCodeBlocks :: "bool \<Rightarrow> bool \<Rightarrow> bool \<Rightarrow> string \<Rightarrow> node list \<Rightarrow> node list" where
  "processCodeBlocks enabled xb_enabled sb api ns =
     (if \<not> enabled \<or> \<not> xb_enabled then ns
      else foldl (process_block sb api) ns [0..<length (pres ns)])"

text \<open>The number of iframe wrappers among the children.\<close>

fun wrappers :: "node list \<Rightarrow> nat" where
  "wrappers [] = 0"
| "wrappers (Wrapper sb d # ns) = Suc (wrappers ns)"
| "wrappers (_ # ns) = wrappers ns"

section \<open>Lemmas\<close>

lemma pres_append [simp]: "pres (xs @ ys) = pres xs @ pres ys"
  by (induction xs rule: pres.induct) auto

lemma wrappers_append [simp]: "wrappers (xs @ ys) = wrappers xs + wrappers ys"
  by (induction xs rule: wrappers.induct) auto

lemma pres_remove_first_iframe [simp]: "pres (remove_first_iframe ns) = pres ns"
  by (induction ns rule: remove_first_iframe.induct) auto

lemma pres_remove_first_wrapper [simp]: "pres (remove_first_wrapper ns) = pres ns"
  by (induction ns rule: remove_first_wrapper.induct) auto

lemma wrappers_remove_first_iframe [simp]: "wrappers (remove_first_iframe ns) = wrappers ns"
  by (induction ns rule: remove_first_iframe.induct) auto

lemma wrappers_remove_first_wrapper [simp]: "wrappers (remove_first_wrapper ns) = wrappers ns - 1"
  by (induction ns rule: remove_first_wrapper.induct) auto

lemma pres_update_pre:
  assumes "\<And>b h c. pres (f b h c) = [g b h c]"
  shows "pres (update_pre k f ns) =
           (if k < length (pres ns) then (pres ns)[k := (case pres ns ! k of (b, h, c) \<Rightarrow> g b h c)] else pres ns)"
  using assms by (induction k f ns rule: update_pre.induct) (auto simp: nth_Cons' split: nat.split)

lemma wrappers_update_pre:
  assumes "\<And>b h c. wrappers (f b h c) \<le> 1"
  shows "wrappers (update_pre k f ns) \<le> wrappers ns + 1"
  using assms by (induction k f ns rule: update_pre.induct) (auto simp: add_mono)

lemma pres_render_step:
  "pres (if shouldRenderContent c then renderHtmlInIframe sb api c else [Pre True h c]) =
   [(True, shouldRenderContent c \<or> h, c)]"
  by (simp add: renderHtmlInIframe_def)

lemma pres_process_block_upd:
  assumes "k < length (pres ns)" "\<not> fst (pres ns ! k)"
  shows "pres (process_block sb api ns k) =
           (pres ns)[k := (case pres ns ! k of (b, h, c) \<Rightarrow> (True, shouldRenderContent c \<or> h, c))]"
proof -
  note eq = pres_update_pre [of "\<lambda>b h c. if shouldRenderContent c then renderHtmlInIframe sb api c else [Pre True h c]"
      "\<lambda>b h c. (True, shouldRenderContent c \<or> h, c)", OF pres_render_step]
  show ?thesis using assms unfolding process_block_def by (simp only: eq if_True pres_remove_first_wrapper pres_remove_first_iframe simp_thms)
qed

lemma bound_process_block:
  "map fst (pres (process_block sb api ns k)) = (map fst (pres ns))[k := True]"
proof (cases "k < length (pres ns) \<and> \<not> fst (pres ns ! k)")
  case True
  then show ?thesis by (simp add: pres_process_block_upd map_update split: prod.split)
next
  case False
  then have "(map fst (pres ns))[k := True] = map fst (pres ns)"
    by (cases "k < length (pres ns)") (simp_all add: list_update_beyond list_update_same_conv)
  with False show ?thesis by (auto simp: process_block_def)
qed

lemma length_pres_process_block [simp]:
  "length (pres (process_block sb api ns k)) = length (pres ns)"
  using bound_process_block [of sb api ns k] by (metis length_list_update length_map)

lemma bound_foldl:
  "map fst (pres (foldl (process_block sb api) ns ks)) = foldl (\<lambda>B k. B[k := True]) (map fst (pres ns)) ks"
  by (induction ks arbitrary: ns) (simp_all add: bound_process_block)

lemma nth_update_True: "i < length B \<Longrightarrow> B[a := True] ! i = (a = i \<or> B ! i)"
  by (cases "a = i") simp_all

lemma foldl_set_True:
  "i < length B \<Longrightarrow> foldl (\<lambda>B k. B[k := True]) B ks ! i = (i \<in> set ks \<or> B ! i)"
  by (induction ks arbitrary: B) (auto simp: nth_update_True)

lemma length_foldl_set_True [simp]: "length (foldl (\<lambda>B k. B[k := True]) B ks) = length B"
  by (induction ks arbitrary: B) simp_all

lemma wrappers_process_block:
  "wrappers ns \<le> 1 \<Longrightarrow> wrappers (process_block sb api ns k) \<le> 1"
  unfolding process_block_def
  using wrappers_update_pre [of "\<lambda>b h c. if shouldRenderContent c then renderHtmlInIframe sb api c else [Pre True h c]"
      k "remove_first_wrapper (remove_first_iframe ns)"]
  by (auto simp: renderHtmlInIframe_def)

lemma all_bound_processCodeBlocks:
  assumes "enabled" "xb"
  shows "\<forall>p \<in> set (pres (processCodeBlocks enabled xb sb api ns)). fst p"
proof -
  let ?B = "map fst (pres ns)"
  have "\<forall>x \<in> set (foldl (\<lambda>B k. B[k := True]) ?B [0..<length ?B]). x"
    by (auto simp: in_set_conv_nth foldl_set_True)
  then have "\<forall>x \<in> set (map fst (pres (processCodeBlocks enabled xb sb api ns))). x"
    using assms by (simp add: processCodeBlocks_def bound_foldl)
  then show ?thesis by simp
qed

lemma process_block_fixed:
  "\<forall>p \<in> set (pres ns). fst p \<Longrightarrow> process_block sb api ns k = ns"
  by (auto simp: process_block_def)

text \<open>C12: Processing the code blocks of a message is idempotent: a second pass (the
  5-second poll, a re-render event) changes nothing, because the first marks every block
  bound.\<close>

theorem processCodeBlocks_idem:
  "processCodeBlocks e x sb api (processCodeBlocks e x sb api ns) = processCodeBlocks e x sb api ns"
proof (cases "e \<and> x")
  case True
  then have "\<forall>p \<in> set (pres (processCodeBlocks e x sb api ns)). fst p"
    using all_bound_processCodeBlocks by blast
  then show ?thesis
    unfolding processCodeBlocks_def [of e x sb api "processCodeBlocks e x sb api ns"]
    by (simp add: foldl_fixed process_block_fixed)
next
  case False
  then show ?thesis by (auto simp: processCodeBlocks_def)
qed

text \<open>C14: A message never holds more than one code-block frame: whatever order the
  blocks are processed in, each render first removes the wrapper already among the
  siblings, so a message that starts with at most one wrapper keeps at most one.\<close>

theorem processCodeBlocks_one_wrapper:
  "wrappers ns \<le> 1 \<Longrightarrow> wrappers (processCodeBlocks e x sb api ns) \<le> 1"
proof -
  assume "wrappers ns \<le> 1"
  then have "wrappers (foldl (process_block sb api) ns ks) \<le> 1" for ks
  proof (induction ks arbitrary: ns)
    case (Cons k ks)
    then show ?case using wrappers_process_block [of ns sb api k] by simp
  qed simp
  with \<open>wrappers ns \<le> 1\<close> show ?thesis by (simp add: processCodeBlocks_def)
qed

lemma processCodeBlocks_single:
  "processCodeBlocks True True sb api [Pre False h c] =
     (if shouldRenderContent c then [Wrapper sb (Some (prepareHtmlContent api c)), Pre True True c] else [Pre True h c])"
  by (simp add: processCodeBlocks_def process_block_def renderHtmlInIframe_def)

text \<open>C16: In a message with two HTML code blocks, rendering the second removes the
  iframe of the first (\<open>parentNode.querySelector\<close> finds the sibling's frame): the
  first block ends bound and hidden with no frame, so its content is shown nowhere.\<close>

theorem second_block_removes_first:
  assumes "shouldRenderContent a" "shouldRenderContent b"
  shows "processCodeBlocks True True sb api [Pre False False a, Pre False False b] =
           [Pre True True a, Wrapper sb (Some (prepareHtmlContent api b)), Pre True True b]"
  using assms by (simp add: processCodeBlocks_def process_block_def renderHtmlInIframe_def numeral_2_eq_2)

lemma contains_mid [simp]: "contains (u @ p @ v) p"
  by (auto simp: contains_iff)

lemma base_template_api: "\<exists>u v. base_template api = u @ api_script api @ v"
  unfolding base_template_def by (metis append.assoc)

text \<open>C19: The document written into a code-block frame holds the bridge script exactly
  when the content is not a full \<open><html>...</html>\<close> document, or has a
  \<open></head>\<close>, or already holds the script: a full document without \<open></head>\<close>
  gets no bridge, so its frame never reports a height and \<open>STscript\<close> is undefined.\<close>

theorem prepareHtmlContent_api:
  "contains (prepareHtmlContent api c) (api_script api) \<longleftrightarrow>
     \<not> (contains c ''<html'' \<and> contains c ''</html>'') \<or> contains c ''</head>'' \<or> contains c (api_script api)"
proof (cases "contains c ''<html'' \<and> contains c ''</html>''")
  case full: True
  show ?thesis
  proof (cases "find_sub c ''</head>''")
    case None
    then show ?thesis using full by (simp add: prepareHtmlContent_def find_sub_None replace_first_absent)
  next
    case (Some k)
    then have "contains c ''</head>''" using find_sub_None [of c "''</head>''"] by simp
    with Some full show ?thesis by (simp add: prepareHtmlContent_def replace_first_find)
  qed
next
  case False
  obtain u v where "base_template api = u @ api_script api @ v" using base_template_api by blast
  with False show ?thesis by (auto simp: prepareHtmlContent_def)
qed

lemma full_document_without_head:
  assumes "contains c ''<html''" "contains c ''</html>''" "\<not> contains c ''</head>''"
  shows "prepareHtmlContent api c = c"
  using assms by (simp add: prepareHtmlContent_def replace_first_absent)

theorem second_block_removes_first_witness:
  "shouldRenderContent ''<script>1</script>'' \<and> shouldRenderContent ''<html>2</html>'' \<and>
   processCodeBlocks True True False ''API'' [Pre False False ''<script>1</script>'', Pre False False ''<html>2</html>''] =
     [Pre True True ''<script>1</script>'', Wrapper False (Some (prepareHtmlContent ''API'' ''<html>2</html>'')),
      Pre True True ''<html>2</html>'']"
proof -
  have h: "shouldRenderContent ''<script>1</script>''" "shouldRenderContent ''<html>2</html>''" by code_simp+
  show ?thesis using h second_block_removes_first [OF h] by blast
qed

theorem prepareHtmlContent_api_witness:
  "\<not> contains (prepareHtmlContent ''API'' ''<html><body>hi</body></html>'') (api_script ''API'')"
proof -
  have h: "contains ''<html><body>hi</body></html>'' ''<html''" "contains ''<html><body>hi</body></html>'' ''</html>''"
    "\<not> contains ''<html><body>hi</body></html>'' ''</head>''"
    "\<not> contains ''<html><body>hi</body></html>'' (api_script ''API'')"
    unfolding api_script_def by code_simp+
  then show ?thesis using prepareHtmlContent_api [of "''API''" "''<html><body>hi</body></html>''"] by blast
qed

theorem processCodeBlocks_one_wrapper_witness:
  "wrappers [Wrapper False None, Pre False False ''<script>1</script>'', Pre False False ''<html>2</html>''] \<le> 1 \<and>
   wrappers (processCodeBlocks True True False ''API''
     [Wrapper False None, Pre False False ''<script>1</script>'', Pre False False ''<html>2</html>'']) \<le> 1"
proof -
  have h: "wrappers [Wrapper False None, Pre False False ''<script>1</script>'', Pre False False ''<html>2</html>''] \<le> 1"
    by simp
  show ?thesis using h processCodeBlocks_one_wrapper [OF h] by blast
qed

end
