(* ===== verification/Host.thy ===== *)
theory Host
  imports CodeBlocks
begin

text \<open>
  The host extension's resource registry and master switch (\<open>src/index.js\<close>): the
  module-level registries (lines 33--39) of listeners, timers and module cleanups with
  \<open>registerModuleCleanup\<close>, \<open>addGlobalTimer\<close> and \<open>cleanupAllResources\<close> (279--336); the
  settings snapshot \<open>saveCurrentSettings\<close>/\<open>restoreSettings\<close> (608--646);
  \<open>toggleAllFeatures\<close> (648--692); \<open>processExistingMessages\<close> (716--726);
  \<open>setupEventListeners\<close> (897--992); the checkbox handlers of \<open>setupSettings\<close>
  (737--875); and the start-up of lines 1000--1068.

  The state holds the flags of \<open>settings\<close> (= \<open>extension_settings[EXT_ID]\<close>) that these
  functions read and write, the \<open>enabled\<close> flag of each sub-module object (\<open>None\<close>: the
  object or the flag is undefined), \<open>savedSettings\<close>, the checked state of the settings
  checkboxes, the registries, the timers still to fire, the log of cleanup functions called
  and the message texts of the chat (as in \<open>CodeBlocks\<close>). Timers and listeners are named by
  the code that installs them; a timer fires as an event of its own, in any order. Module
  initialisers (\<open>initTasks\<close>, \<open>initTemplateEditor\<close>, ...), the statistics tracker, the
  memory prompt and \<open>saveSettingsDebounced\<close> belong to other files or to storage and are
  not modelled; the memory-depth field is left out.
\<close>

datatype lsn =
    LMessageReceived | LUserRendered | LCharRendered | LSwiped | LEdited | LUpdated
  | LChatChanged | LWindowMessage

datatype tmr =
    TMenuTabs | TRegisterPreview | TInitialRender | TPoll | TPreviewInit
  | TChatRender | TChatStats | TToggleRender | TMessage nat

record xstate =
  x_enabled :: bool
  x_xb :: bool
  x_sandbox :: bool
  x_memory :: bool
  x_inject :: bool
  x_modules :: "string \<Rightarrow> bool option"
  x_saved :: "string \<Rightarrow> bool option"
  x_ui :: "string \<Rightarrow> bool option"
  x_controls :: bool
  x_listeners :: "lsn list"
  x_timers :: "tmr list"
  x_pending :: "tmr list"
  x_cleanups :: "(string \<times> nat) list"
  x_ran :: "nat list"
  x_msgs :: "node list list"

text \<open>The host: the bridge script text, which optional event types it defines
  (\<open>MESSAGE_SWIPED\<close>, \<open>MESSAGE_EDITED\<close>, \<open>MESSAGE_UPDATED\<close>), and
  \<open>window.messagePreviewCleanup\<close> when the preview module defined it.\<close>

record xenv =
  xe_api :: string
  xe_has_ev :: "lsn \<Rightarrow> bool"
  xe_preview_cleanup :: "nat option"

text \<open>\<open>moduleCleanupFunctions.set(name, f)\<close>: a \<open>Map\<close> keeps the position of a key it
  already has.\<close>

fun map_set :: "'k \<Rightarrow> 'v \<Rightarrow> ('k \<times> 'v) list \<Rightarrow> ('k \<times> 'v) list" where
  "map_set k v [] = [(k, v)]"
| "map_set k v ((k', v') # kvs) = (if k = k' then (k, v) # kvs else (k', v') # map_set k v kvs)"

definition registerModuleCleanup :: "string \<Rightarrow> nat \<Rightarrow> xstate \<Rightarrow> xstate" where
  "registerModuleCleanup name f st = st\<lparr>x_cleanups := map_set name f (x_cleanups st)\<rparr>"

definition addGlobalTimer :: "tmr \<Rightarrow> xstate \<Rightarrow> xstate" where
  "addGlobalTimer t st = st\<lparr>x_timers := x_timers st @ [t]\<rparr>"

definition schedule_timer :: "tmr \<Rightarrow> xstate \<Rightarrow> xstate" where
  "schedule_timer t st = addGlobalTimer t (st\<lparr>x_pending := x_pending st @ [t]\<rparr>)"

definition is_frame :: "node \<Rightarrow> bool" where
  "is_frame n \<longleftrightarrow> (case n of Wrapper _ _ \<Rightarrow> True | _ \<Rightarrow> False)"

text \<open>\<open>cleanupAllResources()\<close>: listeners removed, registered timers cleared, every
  registered cleanup called in insertion order, every frame and wrapper removed.\<close>

definition cleanupAllResources :: "xstate \<Rightarrow> xstate" where
  "cleanupAllResources st =
     st\<lparr>x_listeners := [],
        x_pending := filter (\<lambda>t. t \<notin> set (x_timers st)) (x_pending st),
        x_timers := [],
        x_ran := x_ran st @ map snd (x_cleanups st),
        x_cleanups := [],
        x_msgs := map (filter (\<lambda>n. \<not> is_frame n)) (x_msgs st)\<rparr>"

definition processExistingMessages :: "xenv \<Rightarrow> xstate \<Rightarrow> xstate" where
  "processExistingMessages env st =
     (if \<not> x_enabled st \<or> \<not> x_xb st then st
      else st\<lparr>x_msgs := map (processCodeBlocks (x_enabled st) (x_xb st) (x_sandbox st) (xe_api env)) (x_msgs st)\<rparr>)"

text \<open>The module table of \<open>restoreSettings\<close> (lines 629--636): saved key, module,
  checkbox.\<close>

definition module_settings :: "(string \<times> string \<times> string) list" where
  "module_settings =
     [(''recordedEnabled'', ''recorded'', ''xiaobaix_recorded_enabled''),
      (''previewEnabled'', ''preview'', ''xiaobaix_preview_enabled''),
      (''scriptAssistantEnabled'', ''scriptAssistant'', ''xiaobaix_script_assistant''),
      (''scheduledTasksEnabled'', ''tasks'', ''scheduled_tasks_enabled''),
      (''templateEnabled'', ''templateEditor'', ''xiaobaix_template_enabled''),
      (''characterUpdaterEnabled'', ''characterUpdater'', ''character_updater_enabled'')]"

definition saveCurrentSettings :: "xstate \<Rightarrow> xstate" where
  "saveCurrentSettings st =
     st\<lparr>x_saved :=
        (\<lambda>k. case map_of module_settings k of Some (m, c) \<Rightarrow> x_modules st m | None \<Rightarrow> None)
          (''sandboxMode'' \<mapsto> x_sandbox st, ''memoryEnabled'' \<mapsto> x_memory st,
           ''memoryInjectEnabled'' \<mapsto> x_inject st)\<rparr>"

definition restore_check :: "string \<Rightarrow> string \<Rightarrow> xstate \<Rightarrow> xstate" where
  "restore_check k c st = (case x_saved st k of None \<Rightarrow> st | Some v \<Rightarrow> st\<lparr>x_ui := (x_ui st)(c \<mapsto> v)\<rparr>)"

definition restore_module :: "xstate \<Rightarrow> string \<times> string \<times> string \<Rightarrow> xstate" where
  "restore_module st kmc =
     (case kmc of (k, m, c) \<Rightarrow>
        (case x_saved st k of
           None \<Rightarrow> st
         | Some v \<Rightarrow> st\<lparr>x_modules := (x_modules st)(m \<mapsto> v), x_ui := (x_ui st)(c \<mapsto> v)\<rparr>))"

definition restoreSettings :: "xstate \<Rightarrow> xstate" where
  "restoreSettings st =
     foldl restore_module
       (restore_check ''memoryInjectEnabled'' ''xiaobaix_memory_inject''
         (restore_check ''memoryEnabled'' ''xiaobaix_memory_enabled''
           (restore_check ''sandboxMode'' ''xiaobaix_sandbox'' st)))
       module_settings"

text \<open>The lists of lines 670 and 675--678.\<close>

definition modules_off :: "string list" where
  "modules_off = [''recorded'', ''preview'', ''scriptAssistant'', ''tasks'', ''immersive'', ''templateEditor'',
                  ''wallhaven'', ''characterUpdater'']"

definition controls_off :: "string list" where
  "controls_off =
     [''xiaobaix_sandbox'', ''xiaobaix_memory_enabled'', ''xiaobaix_memory_inject'',
      ''xiaobaix_recorded_enabled'', ''xiaobaix_preview_enabled'', ''xiaobaix_script_assistant'',
      ''scheduled_tasks_enabled'', ''xiaobaix_template_enabled'', ''wallhaven_enabled'',
      ''xiaobaix_immersive_enabled'', ''character_updater_enabled'']"

definition toggleSettingsControls :: "bool \<Rightarrow> xstate \<Rightarrow> xstate" where
  "toggleSettingsControls b st = st\<lparr>x_controls := b\<rparr>"

text \<open>Lines 682--685: every bound block is shown again and unmarked.\<close>

definition unbind_pre :: "node \<Rightarrow> node" where
  "unbind_pre n = (case n of Pre True h c \<Rightarrow> Pre False False c | _ \<Rightarrow> n)"

definition std_listeners :: "xenv \<Rightarrow> lsn list" where
  "std_listeners env =
     [LMessageReceived, LUserRendered, LCharRendered] @ filter (xe_has_ev env) [LSwiped, LEdited, LUpdated] @
     [LChatChanged, LWindowMessage]"

definition setupEventListeners :: "xenv \<Rightarrow> xstate \<Rightarrow> xstate" where
  "setupEventListeners env st =
     (if \<not> x_xb st then st else st\<lparr>x_listeners := x_listeners st @ std_listeners env\<rparr>)"

definition toggleAllFeatures :: "xenv \<Rightarrow> bool \<Rightarrow> xstate \<Rightarrow> xstate" where
  "toggleAllFeatures env enabled st =
     (if enabled then
        (let st1 = toggleSettingsControls True (restoreSettings st);
             st2 = st1\<lparr>x_pending := x_pending st1 @ [TToggleRender]\<rparr>
         in setupEventListeners env st2)
      else
        (let st1 = cleanupAllResources (saveCurrentSettings st);
             st2 = st1\<lparr>x_sandbox := False, x_memory := False, x_inject := False,
                       x_modules := foldl (\<lambda>m k. m(k \<mapsto> False)) (x_modules st1) modules_off,
                       x_ui := foldl (\<lambda>u c. u(c \<mapsto> False)) (x_ui st1) controls_off\<rparr>;
             st3 = toggleSettingsControls False st2
         in st3\<lparr>x_msgs := map (map unbind_pre) (x_msgs st3)\<rparr>))"

text \<open>The change handler of \<open>#xiaobaix_enabled\<close> (lines 737--746).\<close>

definition enable_change :: "xenv \<Rightarrow> bool \<Rightarrow> xstate \<Rightarrow> xstate" where
  "enable_change env checked st =
     (let st1 = st\<lparr>x_enabled := checked, x_xb := checked, x_ui := (x_ui st)(''xiaobaix_enabled'' \<mapsto> checked)\<rparr>
      in if checked \<noteq> x_enabled st then toggleAllFeatures env checked st1 else st1)"

text \<open>The module checkboxes of lines 787--875: checkbox, module, registered cleanup.\<close>

definition module_checks :: "(string \<times> string \<times> string option) list" where
  "module_checks =
     [(''xiaobaix_recorded_enabled'', ''recorded'', None),
      (''xiaobaix_immersive_enabled'', ''immersive'', Some ''immersiveMode''),
      (''xiaobaix_preview_enabled'', ''preview'', Some ''messagePreview''),
      (''xiaobaix_script_assistant'', ''scriptAssistant'', Some ''scriptAssistant''),
      (''scheduled_tasks_enabled'', ''tasks'', Some ''scheduledTasks''),
      (''xiaobaix_template_enabled'', ''templateEditor'', Some ''templateEditor''),
      (''wallhaven_enabled'', ''wallhaven'', Some ''wallhavenBackground''),
      (''character_updater_enabled'', ''characterUpdater'', Some ''characterUpdater'')]"

text \<open>\<open>if (moduleCleanupFunctions.has(n)) moduleCleanupFunctions.get(n)()\<close>; the
  character updater's handler also deletes the entry (line 872).\<close>

definition call_cleanup :: "string \<Rightarrow> xstate \<Rightarrow> xstate" where
  "call_cleanup n st =
     (case map_of (x_cleanups st) n of
        None \<Rightarrow> st
      | Some f \<Rightarrow>
          st\<lparr>x_ran := x_ran st @ [f],
             x_cleanups := (if n = ''characterUpdater'' then filter (\<lambda>kv. fst kv \<noteq> n) (x_cleanups st)
                            else x_cleanups st)\<rparr>)"

text \<open>A click on checkbox \<open>c\<close>: the box takes the value; the handler returns at once
  unless \<open>isXiaobaixEnabled\<close> (lines 750--875).\<close>

definition check_change :: "string \<Rightarrow> bool \<Rightarrow> xstate \<Rightarrow> xstate" where
  "check_change c v st =
     (let st1 = st\<lparr>x_ui := (x_ui st)(c \<mapsto> v)\<rparr>
      in if \<not> x_xb st then st1
         else if c = ''xiaobaix_sandbox'' then st1\<lparr>x_sandbox := v\<rparr>
         else if c = ''xiaobaix_memory_enabled'' then st1\<lparr>x_memory := v\<rparr>
         else if c = ''xiaobaix_memory_inject'' then st1\<lparr>x_inject := v\<rparr>
         else (case map_of module_checks c of
                 None \<Rightarrow> st1
               | Some (m, cl) \<Rightarrow>
                   (let st2 = st1\<lparr>x_modules := (x_modules st1)(m \<mapsto> v)\<rparr>
                    in case cl of None \<Rightarrow> st2 | Some n \<Rightarrow> call_cleanup n st2)))"

text \<open>\<open>handleMessage(data)\<close> (lines 902--923): when enabled, schedules the processing of
  the message's code blocks; the timer's body returns for a falsy message id.\<close>

definition handleMessage :: "nat \<Rightarrow> xstate \<Rightarrow> xstate" where
  "handleMessage n st =
     (if \<not> x_enabled st \<or> \<not> x_xb st then st else st\<lparr>x_pending := x_pending st @ [TMessage n]\<rparr>)"

definition message_render :: "xenv \<Rightarrow> nat \<Rightarrow> xstate \<Rightarrow> xstate" where
  "message_render env n st =
     (if n = 0 \<or> length (x_msgs st) \<le> n then st
      else st\<lparr>x_msgs := (x_msgs st)[n := processCodeBlocks (x_enabled st) (x_xb st) (x_sandbox st) (xe_api env) (x_msgs st ! n)]\<rparr>)"

text \<open>\<open>chatChangedHandler\<close> (lines 948--986); the statistics timer's work is not modelled.\<close>

definition chatChangedHandler :: "xstate \<Rightarrow> xstate" where
  "chatChangedHandler st =
     (if \<not> x_xb st then st
      else let st1 = schedule_timer TChatRender st in if x_memory st1 then schedule_timer TChatStats st1 else st1)"

text \<open>A pending timer fires; the interval of line 1062 stays pending.\<close>

definition fire_timer :: "xenv \<Rightarrow> tmr \<Rightarrow> xstate \<Rightarrow> xstate" where
  "fire_timer env t st =
     (if t \<notin> set (x_pending st) then st
      else
        let st1 = (if t = TPoll then st else st\<lparr>x_pending := remove1 t (x_pending st)\<rparr>)
        in case t of
             TPoll \<Rightarrow> if x_xb st1 then processExistingMessages env st1 else st1
           | TInitialRender \<Rightarrow> if x_xb st1 then processExistingMessages env st1 else st1
           | TChatRender \<Rightarrow> processExistingMessages env st1
           | TToggleRender \<Rightarrow> processExistingMessages env st1
           | TMessage n \<Rightarrow> message_render env n st1
           | TRegisterPreview \<Rightarrow>
               (case xe_preview_cleanup env of Some f \<Rightarrow> registerModuleCleanup ''messagePreview'' f st1 | None \<Rightarrow> st1)
           | _ \<Rightarrow> st1)"

text \<open>The checkboxes as \<open>setupSettings\<close> initialises them (lines 737--862).\<close>

definition settings_ui :: "xstate \<Rightarrow> string \<Rightarrow> bool option" where
  "settings_ui st =
     (\<lambda>c. case map_of module_checks c of
            Some (m, _) \<Rightarrow> Some (case x_modules st m of Some b \<Rightarrow> b | None \<Rightarrow> m = ''characterUpdater'')
          | None \<Rightarrow> None)
       (''xiaobaix_enabled'' \<mapsto> x_enabled st, ''xiaobaix_sandbox'' \<mapsto> x_sandbox st,
        ''xiaobaix_memory_enabled'' \<mapsto> x_memory st, ''xiaobaix_memory_inject'' \<mapsto> x_inject st)"

text \<open>The start-up of lines 1000--1068.\<close>

definition init :: "xenv \<Rightarrow> xstate \<Rightarrow> xstate" where
  "init env st =
     (let st1 = st\<lparr>x_xb := x_enabled st\<rparr>;
          st2 = st1\<lparr>x_ui := settings_ui st1\<rparr>;
          st3 = (if \<not> x_enabled st2 then toggleSettingsControls False st2 else st2);
          st4 = (if x_xb st3 then setupEventListeners env st3 else st3);
          st5 = (if x_xb st4 \<and> (x_modules st4 ''preview'' = Some True \<or> x_modules st4 ''recorded'' = Some True)
                 then schedule_timer TPreviewInit st4 else st4)
      in schedule_timer TPoll (schedule_timer TInitialRender (schedule_timer TRegisterPreview
           (schedule_timer TMenuTabs st5))))"

datatype xevent =
    XToggle bool
  | XCheck string bool
  | XMessage "node list"
  | XChat "node list list"
  | XFire tmr
  | XRegister string nat

text \<open>One event: a click on the master switch or on a checkbox, a new message rendered
  by the host (\<open>CHARACTER_MESSAGE_RENDERED\<close>), a chat switch (\<open>CHAT_CHANGED\<close>), a timer,
  or another module registering its cleanup. The host's events reach the handlers only
  while their listeners are installed.\<close>

fun xstep :: "xenv \<Rightarrow> xevent \<Rightarrow> xstate \<Rightarrow> xstate" where
  "xstep env (XToggle c) st = enable_change env c st"
| "xstep env (XCheck c v) st = check_change c v st"
| "xstep env (XMessage ns) st =
     (let st1 = st\<lparr>x_msgs := x_msgs st @ [ns]\<rparr>
      in if LCharRendered \<in> set (x_listeners st) then handleMessage (length (x_msgs st)) st1 else st1)"
| "xstep env (XChat ms) st =
     (let st1 = st\<lparr>x_msgs := ms\<rparr> in if LChatChanged \<in> set (x_listeners st) then chatChangedHandler st1 else st1)"
| "xstep env (XFire t) st = fire_timer env t st"
| "xstep env (XRegister n f) st = registerModuleCleanup n f st"

definition xrun :: "xenv \<Rightarrow> xevent list \<Rightarrow> xstate \<Rightarrow> xstate" where
  "xrun env evs st = foldl (\<lambda>s e. xstep env e s) st evs"

text \<open>The states reachable from the start-up of a page whose registries are empty.\<close>

inductive xreach :: "xenv \<Rightarrow> xstate \<Rightarrow> bool" for env where
  start: "x_listeners st = [] \<Longrightarrow> x_timers st = [] \<Longrightarrow> x_pending st = [] \<Longrightarrow> x_cleanups st = [] \<Longrightarrow>
          xreach env (init env st)"
| step: "xreach env st \<Longrightarrow> xreach env (xstep env e st)"

text \<open>The default settings object of lines 17--32 and a host defining every event type.\<close>

definition default_modules :: "string \<Rightarrow> bool option" where
  "default_modules =
     [''recorded'' \<mapsto> True, ''templateEditor'' \<mapsto> True, ''tasks'' \<mapsto> True, ''scriptAssistant'' \<mapsto> False,
      ''preview'' \<mapsto> False, ''wallhaven'' \<mapsto> False, ''immersive'' \<mapsto> False, ''characterUpdater'' \<mapsto> True]"

definition default_state :: xstate where
  "default_state =
     \<lparr>x_enabled = True, x_xb = True, x_sandbox = False, x_memory = True, x_inject = False,
      x_modules = default_modules, x_saved = Map.empty, x_ui = Map.empty, x_controls = True,
      x_listeners = [], x_timers = [], x_pending = [], x_cleanups = [], x_ran = [], x_msgs = []\<rparr>"

definition demo_env :: xenv where
  "demo_env = \<lparr>xe_api = ''API'', xe_has_ev = (\<lambda>_. True), xe_preview_cleanup = None\<rparr>"

text \<open>The invariant of the host state: the page flag follows the setting, the listeners
  are installed once each exactly while enabled, and the poll is pending only while
  registered.\<close>

definition host_inv :: "xenv \<Rightarrow> xstate \<Rightarrow> bool" where
  "host_inv env st \<longleftrightarrow>
     x_xb st = x_enabled st \<and> x_listeners st = (if x_xb st then std_listeners env else []) \<and>
     (TPoll \<in> set (x_pending st) \<longrightarrow> TPoll \<in> set (x_timers st))"

section \<open>Lemmas\<close>

lemma restore_module_fields [simp]:
  "x_enabled (restore_module st kmc) = x_enabled st"
  "x_xb (restore_module st kmc) = x_xb st"
  "x_sandbox (restore_module st kmc) = x_sandbox st"
  "x_memory (restore_module st kmc) = x_memory st"
  "x_inject (restore_module st kmc) = x_inject st"
  "x_saved (restore_module st kmc) = x_saved st"
  "x_controls (restore_module st kmc) = x_controls st"
  "x_listeners (restore_module st kmc) = x_listeners st"
  "x_timers (restore_module st kmc) = x_timers st"
  "x_pending (restore_module st kmc) = x_pending st"
  "x_cleanups (restore_module st kmc) = x_cleanups st"
  "x_ran (restore_module st kmc) = x_ran st"
  "x_msgs (restore_module st kmc) = x_msgs st"
  by (simp_all add: restore_module_def split: prod.split option.split)

lemma restore_check_fields [simp]:
  "x_enabled (restore_check k c st) = x_enabled st"
  "x_xb (restore_check k c st) = x_xb st"
  "x_sandbox (restore_check k c st) = x_sandbox st"
  "x_memory (restore_check k c st) = x_memory st"
  "x_inject (restore_check k c st) = x_inject st"
  "x_modules (restore_check k c st) = x_modules st"
  "x_saved (restore_check k c st) = x_saved st"
  "x_listeners (restore_check k c st) = x_listeners st"
  "x_timers (restore_check k c st) = x_timers st"
  "x_pending (restore_check k c st) = x_pending st"
  by (simp_all add: restore_check_def split: option.split)

lemma foldl_restore_fields [simp]:
  "x_enabled (foldl restore_module st ks) = x_enabled st"
  "x_xb (foldl restore_module st ks) = x_xb st"
  "x_sandbox (foldl restore_module st ks) = x_sandbox st"
  "x_memory (foldl restore_module st ks) = x_memory st"
  "x_inject (foldl restore_module st ks) = x_inject st"
  "x_listeners (foldl restore_module st ks) = x_listeners st"
  "x_timers (foldl restore_module st ks) = x_timers st"
  "x_pending (foldl restore_module st ks) = x_pending st"
  by (induction ks arbitrary: st) simp_all

lemma call_cleanup_fields [simp]:
  "x_enabled (call_cleanup n st) = x_enabled st"
  "x_xb (call_cleanup n st) = x_xb st"
  "x_listeners (call_cleanup n st) = x_listeners st"
  "x_timers (call_cleanup n st) = x_timers st"
  "x_pending (call_cleanup n st) = x_pending st"
  by (simp_all add: call_cleanup_def split: option.split)

lemma inv_xstep: "host_inv env st \<Longrightarrow> host_inv env (xstep env e st)"
proof (cases e)
  case (XToggle c)
  assume "host_inv env st"
  then show ?thesis using XToggle
    by (auto simp: host_inv_def enable_change_def toggleAllFeatures_def restoreSettings_def
        toggleSettingsControls_def setupEventListeners_def cleanupAllResources_def saveCurrentSettings_def Let_def)
next
  case (XCheck c v)
  assume "host_inv env st"
  then show ?thesis using XCheck
    by (auto simp: host_inv_def check_change_def Let_def split: option.split prod.split)
next
  case (XMessage ns)
  assume "host_inv env st"
  then show ?thesis using XMessage by (auto simp: host_inv_def handleMessage_def Let_def)
next
  case (XChat ms)
  assume "host_inv env st"
  then show ?thesis using XChat
    by (auto simp: host_inv_def chatChangedHandler_def schedule_timer_def addGlobalTimer_def Let_def)
next
  case (XFire t)
  assume "host_inv env st"
  then show ?thesis using XFire
    by (cases t) (auto simp: host_inv_def fire_timer_def processExistingMessages_def message_render_def
        registerModuleCleanup_def Let_def in_set_remove1 split: option.split)
next
  case (XRegister n f)
  assume "host_inv env st"
  then show ?thesis using XRegister by (simp add: host_inv_def registerModuleCleanup_def)
qed

lemma inv_init:
  "x_listeners st = [] \<Longrightarrow> x_timers st = [] \<Longrightarrow> x_pending st = [] \<Longrightarrow> host_inv env (init env st)"
  by (simp add: host_inv_def init_def schedule_timer_def addGlobalTimer_def setupEventListeners_def
      toggleSettingsControls_def Let_def)

text \<open>C11: In every state reachable from start-up by clicks, messages, chat switches, timer
  firings and registrations, the host's listeners are installed exactly once each while the
  extension is enabled and not at all while it is disabled.\<close>

theorem xreach_inv: "xreach env st \<Longrightarrow> x_listeners st = (if x_enabled st then std_listeners env else [])"
proof -
  assume "xreach env st"
  then have "host_inv env st" by (induction rule: xreach.induct) (simp_all add: inv_init inv_xstep)
  then show ?thesis by (simp add: host_inv_def)
qed

lemma poll_gone_xstep: "TPoll \<notin> set (x_pending st) \<Longrightarrow> TPoll \<notin> set (x_pending (xstep env e st))"
proof (cases e)
  case (XToggle c)
  assume "TPoll \<notin> set (x_pending st)"
  then show ?thesis using XToggle
    by (auto simp: enable_change_def toggleAllFeatures_def restoreSettings_def
        toggleSettingsControls_def setupEventListeners_def cleanupAllResources_def saveCurrentSettings_def Let_def)
next
  case (XFire t)
  assume "TPoll \<notin> set (x_pending st)"
  then show ?thesis using XFire
    by (cases t) (auto simp: fire_timer_def processExistingMessages_def message_render_def
        registerModuleCleanup_def Let_def split: option.split dest: notin_set_remove1)
qed (auto simp: check_change_def handleMessage_def chatChangedHandler_def schedule_timer_def addGlobalTimer_def
       registerModuleCleanup_def Let_def split: option.split prod.split)

lemma poll_gone_xrun: "TPoll \<notin> set (x_pending st) \<Longrightarrow> TPoll \<notin> set (x_pending (xrun env evs st))"
  unfolding xrun_def by (induction evs arbitrary: st) (simp_all add: poll_gone_xstep)

text \<open>C17: Switching the extension off and on again loses the 5-second poll that
  re-renders code blocks: after that, whatever happens, the interval is never pending again.\<close>

theorem poll_lost_after_off_on:
  assumes "xreach env st" "x_enabled st"
  shows "TPoll \<notin> set (x_pending (xrun env evs (xstep env (XToggle True) (xstep env (XToggle False) st))))"
proof -
  have "host_inv env st" using assms(1) by (induction rule: xreach.induct) (simp_all add: inv_init inv_xstep)
  then have "TPoll \<notin> set (x_pending (xstep env (XToggle False) st))"
    using assms(2) by (auto simp: host_inv_def enable_change_def toggleAllFeatures_def cleanupAllResources_def
        saveCurrentSettings_def toggleSettingsControls_def Let_def)
  then show ?thesis by (rule poll_gone_xrun [OF poll_gone_xstep])
qed

lemma foldl_upd_Some: "foldl (\<lambda>m k. m(k \<mapsto> v)) M ks k = (if k \<in> set ks then Some v else M k)"
proof (induction ks arbitrary: M)
  case (Cons a ks)
  then show ?case by (cases "k \<in> set ks") auto
qed simp

lemma restore_saved [simp]: "x_saved (foldl restore_module st ks) = x_saved st"
  by (induction ks arbitrary: st) simp_all

lemma restore_modules_other:
  "m \<notin> set (map (\<lambda>(k, m, c). m) ks) \<Longrightarrow> x_modules (foldl restore_module st ks) m = x_modules st m"
  by (induction ks arbitrary: st) (auto simp: restore_module_def split: option.split)

lemma restore_ui_other:
  "c \<notin> set (map (\<lambda>(k, m, c). c) ks) \<Longrightarrow> x_ui (foldl restore_module st ks) c = x_ui st c"
  by (induction ks arbitrary: st) (auto simp: restore_module_def split: option.split)

lemma restore_module_modules:
  "x_modules (restore_module st (k, m, c)) m = (case x_saved st k of Some v \<Rightarrow> Some v | None \<Rightarrow> x_modules st m)"
  "m' \<noteq> m \<Longrightarrow> x_modules (restore_module st (k, m', c)) m = x_modules st m"
  by (simp_all add: restore_module_def split: option.split)

lemma restore_modules:
  "distinct (map (\<lambda>(k, m, c). m) ks) \<Longrightarrow> (k, m, c) \<in> set ks \<Longrightarrow>
   x_modules (foldl restore_module st ks) m = (case x_saved st k of Some v \<Rightarrow> Some v | None \<Rightarrow> x_modules st m)"
proof (induction ks arbitrary: st)
  case (Cons kmc ks)
  show ?case
  proof (cases "kmc = (k, m, c)")
    case True
    then have "m \<notin> set (map (\<lambda>(k, m, c). m) ks)" using Cons.prems(1) by auto
    then show ?thesis using True by (simp add: restore_modules_other restore_module_modules)
  next
    case False
    then have "(k, m, c) \<in> set ks" using Cons.prems(2) by simp
    moreover obtain k' m' c' where kmc: "kmc = (k', m', c')" by (cases kmc) auto
    moreover have "m' \<noteq> m" using Cons.prems(1) calculation by (auto simp: rev_image_eqI)
    ultimately show ?thesis using Cons by (simp add: restore_module_modules split: option.split)
  qed
qed simp

lemma off_state:
  assumes "x_enabled st"
  shows "x_saved (xstep env (XToggle False) st) =
           (\<lambda>k. case map_of module_settings k of Some (m, c) \<Rightarrow> x_modules st m | None \<Rightarrow> None)
             (''sandboxMode'' \<mapsto> x_sandbox st, ''memoryEnabled'' \<mapsto> x_memory st, ''memoryInjectEnabled'' \<mapsto> x_inject st)"
    and "x_modules (xstep env (XToggle False) st) = foldl (\<lambda>m k. m(k \<mapsto> False)) (x_modules st) modules_off"
    and "\<not> x_sandbox (xstep env (XToggle False) st) \<and> \<not> x_memory (xstep env (XToggle False) st) \<and>
         \<not> x_inject (xstep env (XToggle False) st) \<and> \<not> x_enabled (xstep env (XToggle False) st)"
  using assms by (simp_all add: enable_change_def toggleAllFeatures_def cleanupAllResources_def
      saveCurrentSettings_def toggleSettingsControls_def Let_def cong: option.case_cong)

lemma module_settings_facts:
  "distinct (map (\<lambda>(k, m, c). m) module_settings)" "distinct (map fst module_settings)"
  "(k, m, c) \<in> set module_settings \<Longrightarrow>
     m \<in> set modules_off \<and> k \<noteq> ''sandboxMode'' \<and> k \<noteq> ''memoryEnabled'' \<and> k \<noteq> ''memoryInjectEnabled''"
  "set (map (\<lambda>(k, m, c). c) module_settings) \<inter> {''xiaobaix_sandbox'', ''xiaobaix_memory_enabled'', ''xiaobaix_memory_inject''} = {}"
  "''immersive'' \<notin> set (map (\<lambda>(k, m, c). m) module_settings)" "''wallhaven'' \<notin> set (map (\<lambda>(k, m, c). m) module_settings)"
  "''immersive'' \<in> set modules_off" "''wallhaven'' \<in> set modules_off"
  by (auto simp: module_settings_def modules_off_def)

text \<open>C18: Switching the extension off and on restores the six module flags of
  \<open>restoreSettings\<close> (an undefined one comes back as false), but leaves the sandbox and
  memory settings false while their checkboxes show the old values, and leaves immersive
  mode and the wallpaper module disabled.\<close>

theorem off_on_settings:
  assumes "x_enabled st"
  shows "\<not> x_sandbox (xstep env (XToggle True) (xstep env (XToggle False) st)) \<and>
         \<not> x_memory (xstep env (XToggle True) (xstep env (XToggle False) st)) \<and>
         \<not> x_inject (xstep env (XToggle True) (xstep env (XToggle False) st)) \<and>
         x_ui (xstep env (XToggle True) (xstep env (XToggle False) st)) ''xiaobaix_sandbox'' = Some (x_sandbox st) \<and>
         x_ui (xstep env (XToggle True) (xstep env (XToggle False) st)) ''xiaobaix_memory_enabled'' = Some (x_memory st) \<and>
         x_ui (xstep env (XToggle True) (xstep env (XToggle False) st)) ''xiaobaix_memory_inject'' = Some (x_inject st) \<and>
         map (\<lambda>(k, m, c). x_modules (xstep env (XToggle True) (xstep env (XToggle False) st)) m) module_settings =
           map (\<lambda>(k, m, c). Some (case x_modules st m of Some b \<Rightarrow> b | None \<Rightarrow> False)) module_settings \<and>
         x_modules (xstep env (XToggle True) (xstep env (XToggle False) st)) ''immersive'' = Some False \<and>
         x_modules (xstep env (XToggle True) (xstep env (XToggle False) st)) ''wallhaven'' = Some False"
proof -
  define A where "A = xstep env (XToggle False) st"
  define A1 where "A1 = A\<lparr>x_enabled := True, x_xb := True, x_ui := (x_ui A)(''xiaobaix_enabled'' \<mapsto> True)\<rparr>"
  define R0 where "R0 = restore_check ''memoryInjectEnabled'' ''xiaobaix_memory_inject''
                          (restore_check ''memoryEnabled'' ''xiaobaix_memory_enabled''
                            (restore_check ''sandboxMode'' ''xiaobaix_sandbox'' A1))"
  define R where "R = foldl restore_module R0 module_settings"
  note offA = off_state [OF assms, of env, folded A_def]
  have B: "enable_change env True A = setupEventListeners env ((toggleSettingsControls True R)\<lparr>x_pending := x_pending R @ [TToggleRender]\<rparr>)"
    using offA(3) unfolding A1_def R_def R0_def
    by (simp add: enable_change_def toggleAllFeatures_def restoreSettings_def toggleSettingsControls_def Let_def)
  have Bf: "x_modules (enable_change env True A) = x_modules R" "x_ui (enable_change env True A) = x_ui R"
    "x_sandbox (enable_change env True A) = x_sandbox A" "x_memory (enable_change env True A) = x_memory A"
    "x_inject (enable_change env True A) = x_inject A"
    unfolding B by (simp_all add: setupEventListeners_def toggleSettingsControls_def R_def R0_def A1_def)
  have R0f: "x_saved R0 = x_saved A" "x_modules R0 = x_modules A"
    by (simp_all add: R0_def A1_def)
  have ui: "x_ui R c = x_ui R0 c" if "c \<in> {''xiaobaix_sandbox'', ''xiaobaix_memory_enabled'', ''xiaobaix_memory_inject''}" for c
    unfolding R_def using that module_settings_facts(4) by (intro restore_ui_other) blast
  have ui0: "x_ui R0 ''xiaobaix_sandbox'' = Some (x_sandbox st)" "x_ui R0 ''xiaobaix_memory_enabled'' = Some (x_memory st)"
    "x_ui R0 ''xiaobaix_memory_inject'' = Some (x_inject st)"
    by (simp_all add: R0_def A1_def restore_check_def offA(1))
  have mods: "x_modules R m = Some (case x_modules st m of Some b \<Rightarrow> b | None \<Rightarrow> False)"
    if kmc: "(k, m, c) \<in> set module_settings" for k m c
  proof -
    have "map_of module_settings k = Some (m, c)" using kmc module_settings_facts(2) by (rule map_of_is_SomeI [rotated])
    then have "x_saved A k = x_modules st m" using module_settings_facts(3) [OF kmc] by (simp add: offA(1))
    then show ?thesis
      using restore_modules [OF module_settings_facts(1) kmc, of R0] module_settings_facts(3) [OF kmc]
      by (simp add: R_def R0f offA(2) foldl_upd_Some split: option.split)
  qed
  have other: "x_modules R m = Some False" if "m \<notin> set (map (\<lambda>(k, m, c). m) module_settings)" "m \<in> set modules_off" for m
    using that unfolding R_def by (simp add: restore_modules_other R0f offA(2) foldl_upd_Some)
  have "map (\<lambda>(k, m, c). x_modules R m) module_settings =
        map (\<lambda>(k, m, c). Some (case x_modules st m of Some b \<Rightarrow> b | None \<Rightarrow> False)) module_settings"
    by (rule map_cong) (auto simp: mods)
  then show ?thesis
    using offA(3) ui ui0 other module_settings_facts(5-8) unfolding A_def [symmetric] by (simp add: Bf)
qed

lemma default_start: "xreach demo_env (init demo_env default_state)"
  by (rule xreach.start) (simp_all add: default_state_def)

lemma default_init_fields:
  "x_enabled (init demo_env default_state)" "x_memory (init demo_env default_state)"
  "TPoll \<in> set (x_pending (init demo_env default_state))"
  by (simp_all add: init_def default_state_def schedule_timer_def addGlobalTimer_def setupEventListeners_def Let_def)

theorem xreach_inv_witness:
  "xreach demo_env (init demo_env default_state) \<and> x_listeners (init demo_env default_state) = std_listeners demo_env"
  using xreach_inv [OF default_start] default_start default_init_fields(1) by simp

theorem poll_lost_after_off_on_witness:
  "TPoll \<in> set (x_pending (init demo_env default_state)) \<and>
   TPoll \<notin> set (x_pending (xrun demo_env [XFire TPoll, XChat []]
     (xstep demo_env (XToggle True) (xstep demo_env (XToggle False) (init demo_env default_state)))))"
  using poll_lost_after_off_on [OF default_start default_init_fields(1)] default_init_fields(3) by blast

theorem off_on_settings_witness:
  "x_memory (init demo_env default_state) \<and>
   \<not> x_memory (xstep demo_env (XToggle True) (xstep demo_env (XToggle False) (init demo_env default_state))) \<and>
   x_ui (xstep demo_env (XToggle True) (xstep demo_env (XToggle False) (init demo_env default_state)))
     ''xiaobaix_memory_enabled'' = Some True"
  using off_on_settings [OF default_init_fields(1), of demo_env] default_init_fields(2) by simp

end
