(* ===== verification/PartialYaml.thy ===== *)
theory PartialYaml
  imports Yaml
begin

text \<open>
  The partial YAML reader of \<open>src/template-editor.js\<close>:
  \<open>parsePartialYamlDirect\<close> (lines 461--515) with \<open>parsePartialMultilineString\<close>
  (543--567), \<open>parsePartialNestedObject\<close> (623--675) and \<open>parsePartialArray\<close>
  (729--779). Nothing in the sources calls them. They are copies of the functions of
  \<open>Yaml\<close> that call each other, with two differences: a block-scalar line is cut at
  \<open>Math.min(baseIndent + 2, line.length)\<close>, and the top level returns the object even
  when it has no key. The loops are modelled as in \<open>Yaml\<close>, over the same helpers for
  the expressions inside them (\<open>line_indent\<close>, \<open>key_value\<close>, \<open>yaml_scalar\<close>,
  \<open>push_item\<close>, \<open>blank_line\<close>, \<open>next_is_item\<close>), and with the same fuel.
\<close>

text \<open>The loop of \<open>parsePartialMultilineString\<close>, lines 547--563.\<close>

function pml_loop :: "string list \<Rightarrow> nat \<Rightarrow> nat \<Rightarrow> string list \<Rightarrow> string list \<times> nat" where
  "pml_loop lines base i acc =
     (if i < length lines then
        (let line = lines ! i
         in if js_trim line = [] then pml_loop lines base (Suc i) (acc @ [[]])
            else if line_indent line \<le> base then (acc, i)
            else pml_loop lines base (Suc i) (acc @ [drop (min (base + 2) (length line)) line]))
      else (acc, i))"
  by pat_completeness auto
termination
  by (relation "measure (\<lambda>(lines, base, i, acc). length lines - i)") auto

declare pml_loop.simps [simp del]

definition parsePartialMultilineString :: "string list \<Rightarrow> nat \<Rightarrow> nat \<Rightarrow> bool \<Rightarrow> string \<times> nat" where
  "parsePartialMultilineString lines start base preserve =
     (let (cl, j) = pml_loop lines base (Suc start) []
      in (js_trim (if preserve then join_with [nl] cl else collapse_ws (join_with '' '' cl)), j))"

text \<open>The loop of \<open>parsePartialArray\<close>, lines 748--776.\<close>

function parr_loop :: "string list \<Rightarrow> nat \<Rightarrow> nat \<Rightarrow> jval list \<Rightarrow> jval list \<times> nat" where
  "parr_loop lines base i arr =
     (if i < length lines then
        (let line = lines ! i; t = js_trim line
         in if t = [] \<or> starts_with t ''#'' then parr_loop lines base (Suc i) arr
            else if line_indent line \<le> base \<and> \<not> starts_with t ''-'' then (arr, i)
            else parr_loop lines base (Suc i) (if starts_with t ''-'' then push_item arr t else arr))
      else (arr, i))"
  by pat_completeness auto
termination
  by (relation "measure (\<lambda>(lines, base, i, arr). length lines - i)") auto

declare parr_loop.simps [simp del]

definition parsePartialArray :: "string list \<Rightarrow> nat \<Rightarrow> nat \<Rightarrow> string \<Rightarrow> jval \<times> nat" where
  "parsePartialArray lines start base first =
     (let (arr, j) = (if starts_with first ''-'' then parr_loop lines base (Suc start) (push_item [] first)
                      else parr_loop lines base start [])
      in (JArr arr, j))"

text \<open>The branches of lines 474--511 and 640--671, calling the partial helpers.\<close>

definition partial_entry_step :: "string list \<Rightarrow> nat \<Rightarrow> yaml_step" where
  "partial_entry_step lines i =
     (let line = lines ! i; ind = line_indent line
      in case key_value (js_trim line) of
           None \<Rightarrow> YSkip
         | Some (key, value) \<Rightarrow>
             if value = ''|'' \<or> value = ''>'' then
               (let (v, j) = parsePartialMultilineString lines i ind (value = ''|'') in YSet key (JStr v) j)
             else if value = [] \<or> value = ''{}'' then YSub key ind
             else if starts_with value ''-'' \<or> (value = [] \<and> next_is_item lines i) then
               (let (a, j) = parsePartialArray lines i ind (if starts_with value ''-'' then value else [])
                in YSet key a j)
             else YSet key (yaml_scalar value) (Suc i))"

text \<open>The loop of \<open>parsePartialNestedObject\<close> (lines 627--672), with fuel.\<close>

fun pnested_loop :: "nat \<Rightarrow> string list \<Rightarrow> nat \<Rightarrow> nat \<Rightarrow> jobj \<Rightarrow> (jobj \<times> nat) option" where
  "pnested_loop 0 lines base i obj = None"
| "pnested_loop (Suc f) lines base i obj =
     (if i < length lines then
        (if blank_line (lines ! i) then pnested_loop f lines base (Suc i) obj
         else if line_indent (lines ! i) \<le> base then Some (obj, i)
         else case partial_entry_step lines i of
                YSkip \<Rightarrow> pnested_loop f lines base (Suc i) obj
              | YSet key v j \<Rightarrow> pnested_loop f lines base j (obj_set obj key v)
              | YSub key ind \<Rightarrow>
                  (case pnested_loop f lines ind (Suc i) [] of
                     None \<Rightarrow> None
                   | Some (sub, j) \<Rightarrow> pnested_loop f lines base j (obj_set obj key (JObj sub))))
      else Some (obj, i))"

definition parsePartialNestedObject :: "nat \<Rightarrow> string list \<Rightarrow> nat \<Rightarrow> nat \<Rightarrow> (jobj \<times> nat) option" where
  "parsePartialNestedObject f lines start base = pnested_loop f lines base (Suc start) []"

text \<open>The loop of \<open>parsePartialYamlDirect\<close> (lines 466--512), with fuel.\<close>

fun ptop_loop :: "nat \<Rightarrow> string list \<Rightarrow> nat \<Rightarrow> jobj \<Rightarrow> jobj option" where
  "ptop_loop 0 lines i vars = None"
| "ptop_loop (Suc f) lines i vars =
     (if i < length lines then
        (if blank_line (lines ! i) then ptop_loop f lines (Suc i) vars
         else case partial_entry_step lines i of
                YSkip \<Rightarrow> ptop_loop f lines (Suc i) vars
              | YSet key v j \<Rightarrow> ptop_loop f lines j (obj_set vars key v)
              | YSub key ind \<Rightarrow>
                  (case parsePartialNestedObject f lines i ind of
                     None \<Rightarrow> None
                   | Some (sub, j) \<Rightarrow> ptop_loop f lines j (obj_set vars key (if sub \<noteq> [] then JObj sub else JStr []))))
      else Some vars)"

text \<open>\<open>parsePartialYamlDirect(text)\<close>: the object, also when it has no key.\<close>

definition parsePartialYamlDirect :: "string \<Rightarrow> jval option" where
  "parsePartialYamlDirect s =
     (let lines = split_on nl s
      in map_option JObj (ptop_loop (Suc (length lines)) lines 0 []))"

section \<open>Lemmas\<close>

lemma pml_loop_eq: "pml_loop lines base i acc = ml_loop lines base i acc"
proof (induction lines base i acc rule: ml_loop.induct)
  case (1 lines base i acc)
  have "drop (min (base + 2) (length l)) l = drop (base + 2) l" for l :: string
    by (cases "base + 2 \<le> length l") (simp_all add: min_def)
  with 1 show ?case by (simp add: pml_loop.simps [of lines base i] ml_loop.simps [of lines base i] Let_def)
qed

lemma parr_loop_eq: "parr_loop lines base i arr = arr_loop lines base i arr"
  by (induction lines base i arr rule: arr_loop.induct)
     (subst parr_loop.simps, subst arr_loop.simps, simp add: Let_def)

lemma parsePartialMultilineString_eq: "parsePartialMultilineString = parseMultilineString"
  by (intro ext) (simp add: parsePartialMultilineString_def parseMultilineString_def pml_loop_eq)

lemma parsePartialArray_eq: "parsePartialArray = parseArray"
  by (intro ext) (simp add: parsePartialArray_def parseArray_def parr_loop_eq)

lemma partial_entry_step_eq: "partial_entry_step lines i = entry_step lines i"
  unfolding partial_entry_step_def entry_step_def parsePartialMultilineString_eq parsePartialArray_eq ..

lemma pnested_loop_eq: "pnested_loop f lines base i obj = nested_loop f lines base i obj"
  by (induction f lines base i obj rule: nested_loop.induct)
     (simp_all add: partial_entry_step_eq split: yaml_step.split option.split)

lemma ptop_loop_eq: "ptop_loop f lines i vars = top_loop f lines i vars"
  by (induction f lines i vars rule: top_loop.induct)
     (simp_all add: partial_entry_step_eq parsePartialNestedObject_def parseNestedObject_def pnested_loop_eq
        split: yaml_step.split option.split)

text \<open>C15: The unused partial YAML reader is the direct one up to its result for a text
  with no key: it returns the empty object where \<open>parseYamlDirect\<close> returns
  \<open>null\<close>; the \<open>Math.min\<close> guard changes nothing, since \<open>substring\<close> clamps.\<close>

theorem partial_yaml_equiv:
  "parsePartialYamlDirect s = map_option (\<lambda>v. if v = JNull then JObj [] else v) (parseYamlDirect s)"
  unfolding parsePartialYamlDirect_def parseYamlDirect_def ptop_loop_eq Let_def
  by (cases "top_loop (Suc (length (split_on nl s))) (split_on nl s) 0 []") (auto simp del: top_loop.simps)

end
