(* ===== verification/JsonRoundtrip.thy ===== *)
theory JsonRoundtrip
  imports Json
begin

text \<open>
  \<open>JSON.stringify(value, null, gap)\<close>, which the editor uses to export its
  settings (\<open>src/template-editor.js\<close> lines 1397 and 1446), and the proof that
  \<open>JSON.parse\<close> (theory \<open>Json\<close>) reads its output back. \<open>json_ser gap ind v\<close>
  prints \<open>v\<close> at indentation \<open>ind\<close>, as ECMA-262 (25.5.2.2, \<open>SerializeJSONProperty\<close>)
  does; \<open>json_ser [] ind\<close> is \<open>json_stringify\<close>. The round trip holds for every value a
  JavaScript engine can hold (\<open>wf_jval\<close>) whose numbers print as integers
  (\<open>ints\<close>: no fraction and at most 21 digits), for any gap of JSON whitespace.
  The induction carries an arbitrary rest of input after the value (\<open>stop r\<close>: empty
  or starting with \<open>,\<close>, \<open>]\<close>, \<open>}\<close> or whitespace) and an arbitrary fuel above the
  length of the text.
\<close>

text \<open>The characters \<open>JSON.stringify\<close> escapes (\<open>QuoteJSONString\<close>).\<close>

definition esc_chars :: "char list" where
  "esc_chars = [dq, bsl, CHR 0x08, CHR 0x0C, nl, CHR 0x0D, CHR 0x09]"

text \<open>A number \<open>m * 10 ^ e\<close> that \<open>Number::toString\<close> prints as an integer.\<close>

definition int_num :: "int \<Rightarrow> int \<Rightarrow> bool" where
  "int_num m e \<longleftrightarrow> 0 \<le> e \<and> int (length (nat_str (nat \<bar>m\<bar>))) + e \<le> 21"

text \<open>What may follow a value in a JSON text without extending it.\<close>

definition stop :: "string \<Rightarrow> bool" where
  "stop r \<longleftrightarrow> r = [] \<or> hd r \<in> set '',]}'' \<or> json_ws_char (hd r)"

text \<open>\<open>JSON.stringify(value, null, gap)\<close> (ECMA-262 25.5.2): with an empty gap the
  compact form; otherwise each member on its own line, indented by one more gap.\<close>

definition lw :: "string \<Rightarrow> string \<Rightarrow> string" where
  "lw gap ind = (if gap = [] then [] else nl # ind)"

fun json_ser :: "string \<Rightarrow> string \<Rightarrow> jval \<Rightarrow> string" where
  "json_ser gap ind JNull = ''null''"
| "json_ser gap ind (JBool b) = (if b then ''true'' else ''false'')"
| "json_ser gap ind (JNum m e) = num_str m e"
| "json_ser gap ind (JStr s) = json_quote s"
| "json_ser gap ind (JArr xs) =
     (if xs = [] then ''[]''
      else ''['' @ lw gap (ind @ gap) @ join_with (CHR '','' # lw gap (ind @ gap)) (map (json_ser gap (ind @ gap)) xs) @
           lw gap ind @ '']'')"
| "json_ser gap ind (JObj kvs) =
     (if kvs = [] then ''{}''
      else ''{'' @ lw gap (ind @ gap) @
           join_with (CHR '','' # lw gap (ind @ gap))
             (map (\<lambda>kv. json_quote (fst kv) @ '':'' @ (if gap = [] then [] else '' '') @ json_ser gap (ind @ gap) (snd kv)) kvs) @
           lw gap ind @ ''}'')"

text \<open>Values whose numbers print as integers (no fraction, no exponent).\<close>

fun ints :: "jval \<Rightarrow> bool" where
  "ints (JNum m e) \<longleftrightarrow> int_num m e"
| "ints (JArr xs) \<longleftrightarrow> list_all ints xs"
| "ints (JObj kvs) \<longleftrightarrow> list_all (\<lambda>kv. ints (snd kv)) kvs"
| "ints _ \<longleftrightarrow> True"

definition ws_str :: "string \<Rightarrow> bool" where
  "ws_str w \<longleftrightarrow> list_all json_ws_char w"

text \<open>The round-trip property of one value, at every indentation and rest.\<close>

definition rt :: "jval \<Rightarrow> bool" where
  "rt v \<longleftrightarrow> (\<forall>gap ind f r. ws_str gap \<longrightarrow> ws_str ind \<longrightarrow> stop r \<longrightarrow> length (json_ser gap ind v) < f \<longrightarrow>
      parse_value f (json_ser gap ind v @ r) = Some (v, r))"

section \<open>Lemmas\<close>

lemma hex_digits_ok: "\<forall>k < 16. is_hex (hex_digit k) \<and> hex_val (hex_digit k) = k"
  by code_simp

lemma hex_digit_ok: "k < 16 \<Longrightarrow> is_hex (hex_digit k) \<and> hex_val (hex_digit k) = k"
  using hex_digits_ok by blast

lemma escape_ctrl:
  assumes "of_char c < (32::nat)"
  shows "parse_str ([bsl, CHR ''u'', CHR ''0'', CHR ''0'', hex_digit (of_char c div 16), hex_digit (of_char c mod 16)] @ r) =
         map_option (\<lambda>(t, rest). (c # t, rest)) (parse_str r)"
proof -
  let ?n = "of_char c :: nat"
  have d: "?n div 16 < 16" "?n mod 16 < 16" using assms by simp_all
  have hx: "list_all is_hex [CHR ''0'', CHR ''0'', hex_digit (?n div 16), hex_digit (?n mod 16)]"
    using hex_digit_ok [OF d(1)] hex_digit_ok [OF d(2)] by (simp add: is_hex_def is_digit_def)
  have "hex4_val [CHR ''0'', CHR ''0'', hex_digit (?n div 16), hex_digit (?n mod 16)] = ?n"
    using hex_digit_ok [OF d(1)] hex_digit_ok [OF d(2)]
    by (simp add: hex4_val_def hex_val_def is_digit_def digit_val_def)
  then have "utf8_unit (hex4_val [CHR ''0'', CHR ''0'', hex_digit (?n div 16), hex_digit (?n mod 16)]) = [c]"
    using assms by (simp add: utf8_unit_def)
  with hx show ?thesis by (simp add: escape_char_def)
qed

lemma escape_simple:
  "c \<in> set esc_chars \<Longrightarrow> \<exists>x. json_escape_char c = [bsl, x] \<and> escape_char x = Some c"
  unfolding esc_chars_def by (auto simp: json_escape_char_def escape_char_def)

lemma escape_control:
  "c \<notin> set esc_chars \<Longrightarrow> of_char c < (32::nat) \<Longrightarrow>
   json_escape_char c = [bsl, CHR ''u'', CHR ''0'', CHR ''0'', hex_digit (of_char c div 16), hex_digit (of_char c mod 16)]"
  unfolding esc_chars_def json_escape_char_def by simp

lemma escape_plain:
  "c \<notin> set esc_chars \<Longrightarrow> \<not> of_char c < (32::nat) \<Longrightarrow> json_escape_char c = [c]"
  unfolding esc_chars_def json_escape_char_def by simp

lemma plain_not_special: "c \<notin> set esc_chars \<Longrightarrow> c \<noteq> dq \<and> c \<noteq> bsl"
  by (simp add: esc_chars_def)

lemma parse_str_quote: "parse_str (concat (map json_escape_char s) @ dq # r) = Some (s, r)"
proof (induction s)
  case Nil
  then show ?case by simp
next
  case (Cons c s)
  consider (simple) "c \<in> set esc_chars" | (ctrl) "c \<notin> set esc_chars" "of_char c < (32::nat)"
    | (plain) "c \<notin> set esc_chars" "\<not> of_char c < (32::nat)" by blast
  then show ?case
  proof cases
    case simple
    then obtain x where "json_escape_char c = [bsl, x]" "escape_char x = Some c" using escape_simple by blast
    then show ?thesis using Cons by simp
  next
    case ctrl
    then show ?thesis using Cons escape_control escape_ctrl by simp
  next
    case plain
    then show ?thesis using Cons escape_plain plain_not_special [OF plain(1)] by simp
  qed
qed
lemma nat_str_lead: "0 < n \<Longrightarrow> nat_str n \<noteq> [] \<and> hd (nat_str n) \<noteq> CHR ''0''"
proof (induction n rule: nat_str.induct)
  case (1 n)
  show ?case
  proof (cases "n < 10")
    case True
    have "digit_val (digit_chars ! n) = n" using digit_chars_nth [OF True] by simp
    then have "digit_chars ! n \<noteq> CHR ''0''" using "1.prems" by (auto simp: digit_val_def)
    with True show ?thesis by (simp add: nat_str.simps)
  next
    case False
    then have "nat_str (n div 10) \<noteq> [] \<and> hd (nat_str (n div 10)) \<noteq> CHR ''0''" using "1.IH" by simp
    with False show ?thesis by (simp add: nat_str.simps [of n])
  qed
qed

lemma digits_val_zeros: "foldl (\<lambda>n c. 10 * n + digit_val c) a (replicate k CHR ''0'') = a * 10 ^ k"
  by (induction k arbitrary: a) (simp_all add: digit_val_def)

lemma norm_num_times10: "x \<noteq> 0 \<Longrightarrow> norm_num (x * 10) e = norm_num x (e + 1)"
  by (subst norm_num.simps) simp

lemma norm_num_shift: "m \<noteq> 0 \<Longrightarrow> norm_num (m * 10 ^ k) e = norm_num m (e + int k)"
proof (induction k arbitrary: e)
  case 0
  then show ?case by simp
next
  case (Suc k)
  have "m * 10 ^ Suc k = (m * 10 ^ k) * 10" by (simp add: mult_ac)
  then have "norm_num (m * 10 ^ Suc k) e = norm_num (m * 10 ^ k) (e + 1)"
    using Suc.prems norm_num_times10 [of "m * 10 ^ k" e] by (simp only:) simp
  also have "\<dots> = norm_num m (e + int (Suc k))" using Suc by (simp add: add.assoc)
  finally show ?case .
qed

lemma stop_facts: "stop r \<Longrightarrow> r = [] \<or> (\<not> is_digit (hd r) \<and> hd r \<noteq> CHR ''.'' \<and> hd r \<noteq> CHR ''e'' \<and> hd r \<noteq> CHR ''E'' \<and> hd r \<noteq> CHR ''-'')"
  by (auto simp: stop_def json_ws_char_def is_digit_def)

lemma parse_digits_stop:
  assumes "list_all is_digit d" "stop r"
  shows "parse_digits (d @ r) = (d, r)"
proof -
  have "r = [] \<or> \<not> is_digit (hd r)" using stop_facts [OF assms(2)] by blast
  then have "takeWhile is_digit r = [] \<and> dropWhile is_digit r = r" by (cases r) auto
  with assms(1) show ?thesis by (simp add: parse_digits_def takeWhile_append2 dropWhile_append2 list_all_iff)
qed

lemma num_frac_stop: "stop r \<Longrightarrow> num_frac r = (None, r)"
  using stop_facts [of r] by (cases r) (auto simp: num_frac_def)

lemma num_exp_stop: "stop r \<Longrightarrow> num_exp r = (Some 0, r)"
  using stop_facts [of r] by (cases r) (auto simp: num_exp_def)

lemma digits_val_append_zeros: "digits_val (d @ replicate j CHR ''0'') = digits_val d * 10 ^ j"
  by (simp add: digits_val_def digits_val_zeros)

lemma mk_num_shift: "norm_num m e = (m, e) \<Longrightarrow> m \<noteq> 0 \<Longrightarrow> 0 \<le> e \<Longrightarrow> mk_num (m * 10 ^ nat e) 0 = JNum m e"
  using norm_num_shift [of m "nat e" 0] by (simp add: mk_num_def)

lemma parse_number_int:
  assumes nm: "norm_num m e = (m, e)" and im: "int_num m e" and st: "stop r"
  shows "parse_number (num_str m e @ r) = Some (JNum m e, r)"
proof (cases "m = 0")
  case True
  then have "e = 0" using nm by (simp add: norm_num.simps)
  have "list_all is_digit ''0''" by (simp add: is_digit_def)
  then have "parse_digits (''0'' @ r) = (''0'', r)" by (rule parse_digits_stop [OF _ st])
  then show ?thesis using True \<open>e = 0\<close> num_frac_stop [OF st] num_exp_stop [OF st]
    by (simp add: num_str_def parse_number_def num_sign_def digits_val_def digit_val_def mk_num_def norm_num.simps)
next
  case False
  define d where "d = nat_str (nat \<bar>m\<bar>)"
  define z where "z = replicate (nat e) CHR ''0''"
  have e0: "0 \<le> e" and k21: "int (length d) + e \<le> 21" using im by (simp_all add: int_num_def d_def)
  have dd: "digits_val d = nat \<bar>m\<bar>" "all_digits d" using digits_val_nat_str [of "nat \<bar>m\<bar>"] by (simp_all add: d_def)
  have lead: "d \<noteq> []" "hd d \<noteq> CHR ''0''" using nat_str_lead [of "nat \<bar>m\<bar>"] False by (simp_all add: d_def)
  have ns: "num_str m e = (if m < 0 then ''-'' else []) @ d @ z"
    using False e0 k21 by (simp add: num_str_def d_def z_def Let_def)
  have "list_all is_digit z" by (simp add: z_def list_all_iff is_digit_def)
  then have digs: "list_all is_digit (d @ z)" using dd(2) by (simp add: all_digits_def)
  have pd: "parse_digits (d @ z @ r) = (d @ z, r)" using parse_digits_stop [OF digs st] by simp
  have hd_d: "hd d \<noteq> CHR ''-''" using dd(2) lead(1) by (cases d) (auto simp: all_digits_def is_digit_def)
  have sign: "num_sign ((if m < 0 then ''-'' else []) @ d @ z @ r) = (m < 0, d @ z @ r)"
    using hd_d lead(1) by (cases d) (auto simp: num_sign_def)
  have val: "int (digits_val (d @ z)) = \<bar>m\<bar> * 10 ^ nat e"
    using dd(1) by (simp add: z_def digits_val_append_zeros)
  have res: "mk_num (if m < 0 then - (\<bar>m\<bar> * 10 ^ nat e) else \<bar>m\<bar> * 10 ^ nat e) 0 = JNum m e"
    using mk_num_shift [OF nm False e0] by (cases "m < 0") simp_all
  show ?thesis
    using ns sign pd lead num_frac_stop [OF st] num_exp_stop [OF st] val res
    by (simp add: parse_number_def)
qed

lemma ws_str_append [simp]: "ws_str (u @ v) \<longleftrightarrow> ws_str u \<and> ws_str v"
  by (simp add: ws_str_def)

lemma ws_lw: "ws_str ind \<Longrightarrow> ws_str (lw gap ind)"
  by (simp add: lw_def ws_str_def json_ws_char_def)

lemma jws_ws: "ws_str w \<Longrightarrow> jws (w @ s) = jws s"
  by (induction w) (simp_all add: ws_str_def jws_def)

lemma jws_head: "\<not> json_ws_char c \<Longrightarrow> jws (c # s) = c # s"
  by (simp add: jws_def)

lemma parse_value_ws: "ws_str w \<Longrightarrow> parse_value f (w @ s) = parse_value f s"
  by (cases f) (simp_all add: jws_ws)

lemma parse_members_ws: "ws_str w \<Longrightarrow> parse_members f acc (w @ s) = parse_members f acc s"
  by (cases f) (simp_all add: jws_ws)

lemma join_with_Cons_map: "join_with sep (g x # map g xs) = g x @ concat (map (\<lambda>y. sep @ g y) xs)"
  by (induction xs arbitrary: x) (simp_all add: join_with.simps)

lemma stop_intro: "stop [] \<and> stop (CHR '','' # r) \<and> stop (CHR '']'' # r) \<and> stop (CHR ''}'' # r) \<and> stop (nl # r)"
  by (simp add: stop_def json_ws_char_def)

lemma num_str_head: "\<exists>c t. num_str m e = c # t \<and> (is_digit c \<or> c = CHR ''-'')"
proof (cases "m = 0")
  case True
  then show ?thesis by (simp add: num_str_def is_digit_def)
next
  case False
  have "nat_str (nat \<bar>m\<bar>) \<noteq> [] \<and> all_digits (nat_str (nat \<bar>m\<bar>))"
    using nat_str_lead [of "nat \<bar>m\<bar>"] digits_val_nat_str [of "nat \<bar>m\<bar>"] False by simp
  then obtain c t where "nat_str (nat \<bar>m\<bar>) = c # t" "is_digit c"
    by (cases "nat_str (nat \<bar>m\<bar>)") (auto simp: all_digits_def)
  then show ?thesis using False by (auto simp: num_str_def Let_def is_digit_def take_Cons')
qed

lemma ser_head:
  "\<exists>c t. json_ser gap ind v = c # t \<and> \<not> json_ws_char c \<and> c \<notin> set '',]}''"
proof (cases v)
  case (JNum m e)
  obtain c t where "num_str m e = c # t" "is_digit c \<or> c = CHR ''-''" using num_str_head by blast
  then show ?thesis using JNum by (auto simp: json_ws_char_def is_digit_def)
qed (auto simp: json_quote_def json_ws_char_def)

lemma stop_ws: "ws_str w \<Longrightarrow> c \<in> set '',]}'' \<Longrightarrow> stop (w @ c # r)"
  by (cases w) (auto simp: stop_def ws_str_def)

lemma jws_close: "ws_str w \<Longrightarrow> \<not> json_ws_char c \<Longrightarrow> jws (w @ c # r) = c # r"
  by (simp add: jws_ws jws_head)

lemma elems_rt:
  assumes "\<forall>y \<in> set (x # xs). rt y \<and> wf_jval y \<and> ints y" "ws_str W" "ws_str S" "ws_str W2" "ws_str gap" "ws_str ind"
    and "length (W @ json_ser gap ind x @ concat (map (\<lambda>y. CHR '','' # S @ json_ser gap ind y) xs) @ W2 @ '']'') < f"
  shows "parse_elems f acc (W @ json_ser gap ind x @ concat (map (\<lambda>y. CHR '','' # S @ json_ser gap ind y) xs) @ W2 @ CHR '']'' # r)
         = Some (JArr (acc @ x # xs), r)"
  using assms
proof (induction xs arbitrary: x acc W f)
  case Nil
  obtain f' where f: "f = Suc f'" using Nil.prems(7) by (cases f) auto
  have "parse_value f' (json_ser gap ind x @ W2 @ CHR '']'' # r) = Some (x, W2 @ CHR '']'' # r)"
    using Nil.prems f stop_ws [OF Nil.prems(4), of "CHR '']''" r] by (simp add: rt_def)
  then show ?case using f Nil.prems(2,4) by (simp add: parse_value_ws jws_close json_ws_char_def)
next
  case (Cons y ys)
  obtain f' where f: "f = Suc f'" using Cons.prems(7) by (cases f) auto
  let ?tail = "CHR '','' # S @ json_ser gap ind y @ concat (map (\<lambda>y. CHR '','' # S @ json_ser gap ind y) ys) @ W2 @ CHR '']'' # r"
  have "parse_value f' (json_ser gap ind x @ ?tail) = Some (x, ?tail)"
    using Cons.prems f stop_intro by (simp add: rt_def)
  moreover have "parse_elems f' (acc @ [x]) (S @ json_ser gap ind y @ concat (map (\<lambda>y. CHR '','' # S @ json_ser gap ind y) ys) @ W2 @ CHR '']'' # r)
                 = Some (JArr ((acc @ [x]) @ y # ys), r)"
    using Cons.IH [where x = y and acc = "acc @ [x]" and W = S and f = f'] Cons.prems f by simp
  ultimately show ?case using f Cons.prems(2) by (simp add: parse_value_ws jws_head json_ws_char_def)
qed

lemma obj_set_fresh: "k \<notin> set (map fst acc) \<Longrightarrow> obj_set acc k v = acc @ [(k, v)]"
  by (induction acc k v rule: obj_set.induct) auto

lemma member_step:
  assumes "rt v" "wf_jval v" "ints v" "ws_str W" "ws_str C" "ws_str gap" "ws_str ind" "stop tail"
    and "length (json_ser gap ind v) < f"
  shows "parse_members (Suc f) acc (W @ json_quote k @ CHR '':'' # C @ json_ser gap ind v @ tail) =
         (case jws tail of
            e # r4 \<Rightarrow>
              if e = CHR '','' then parse_members f (obj_set acc k v) r4
              else if e = CHR ''}'' then Some (JObj (obj_set acc k v), r4)
              else None
          | [] \<Rightarrow> None)"
proof -
  have pv: "parse_value f (C @ json_ser gap ind v @ tail) = Some (v, tail)"
    using assms by (simp add: parse_value_ws rt_def)
  have ps: "parse_str (concat (map json_escape_char k) @ dq # CHR '':'' # C @ json_ser gap ind v @ tail) =
            Some (k, CHR '':'' # C @ json_ser gap ind v @ tail)"
    by (rule parse_str_quote)
  show ?thesis using assms(4) pv ps
    by (simp add: json_quote_def jws_ws jws_head json_ws_char_def)
qed

lemma members_rt:
  assumes "\<forall>kv \<in> set (p # kvs). rt (snd kv) \<and> wf_jval (snd kv) \<and> ints (snd kv)"
    "distinct (map fst (acc @ p # kvs))" "ws_str W" "ws_str S" "ws_str C" "ws_str W2" "ws_str gap" "ws_str ind"
    and "length (W @ json_quote (fst p) @ CHR '':'' # C @ json_ser gap ind (snd p) @
           concat (map (\<lambda>kv. CHR '','' # S @ json_quote (fst kv) @ CHR '':'' # C @ json_ser gap ind (snd kv)) kvs) @ W2 @ ''}'') < f"
  shows "parse_members f acc (W @ json_quote (fst p) @ CHR '':'' # C @ json_ser gap ind (snd p) @
           concat (map (\<lambda>kv. CHR '','' # S @ json_quote (fst kv) @ CHR '':'' # C @ json_ser gap ind (snd kv)) kvs) @
           W2 @ CHR ''}'' # r) = Some (JObj (acc @ p # kvs), r)"
  using assms
proof (induction kvs arbitrary: p acc W f)
  case Nil
  obtain f' where f: "f = Suc f'" using Nil.prems(9) by (cases f) auto
  have fresh: "obj_set acc (fst p) (snd p) = acc @ [p]" using Nil.prems(2) by (simp add: obj_set_fresh)
  show ?case
    using member_step [of "snd p" W C gap ind "W2 @ CHR ''}'' # r" f' acc "fst p"] Nil.prems f fresh
      stop_ws [OF Nil.prems(6), of "CHR ''}''" r]
    by (simp add: jws_close json_ws_char_def)
next
  case (Cons kv1 kvs)
  obtain f' where f: "f = Suc f'" using Cons.prems(9) by (cases f) auto
  have fresh: "obj_set acc (fst p) (snd p) = acc @ [p]" using Cons.prems(2) by (simp add: obj_set_fresh)
  let ?rest = "S @ json_quote (fst kv1) @ CHR '':'' # C @ json_ser gap ind (snd kv1) @
           concat (map (\<lambda>kv. CHR '','' # S @ json_quote (fst kv) @ CHR '':'' # C @ json_ser gap ind (snd kv)) kvs) @
           W2 @ CHR ''}'' # r"
  have ih: "parse_members f' (acc @ [p]) ?rest = Some (JObj ((acc @ [p]) @ kv1 # kvs), r)"
    using Cons.IH [where p = kv1 and acc = "acc @ [p]" and W = S and f = f'] Cons.prems f by (simp add: json_quote_def)
  show ?case
    using member_step [of "snd p" W C gap ind "CHR '','' # ?rest" f' acc "fst p"] Cons.prems f fresh ih stop_intro
    by (simp add: jws_head json_ws_char_def)
qed

lemma jws_ser: "jws (json_ser gap ind v @ r) = json_ser gap ind v @ r"
  using ser_head [of gap ind v] by (auto simp: jws_head)

lemma ser_not_close: "\<exists>c t. json_ser gap ind v @ r = c # t \<and> c \<noteq> CHR '']'' \<and> c \<noteq> CHR ''}''"
  using ser_head [of gap ind v] by auto

lemma rt_all: "wf_jval v \<Longrightarrow> ints v \<Longrightarrow> rt v"
proof (induction v)
  case JNull
  have "parse_value (Suc f) (''null'' @ r) = Some (JNull, r)" for f r
    by (simp add: jws_head json_ws_char_def)
  then show ?case unfolding rt_def by (metis json_ser.simps(1) less_imp_Suc_add)
next
  case (JBool b)
  have "parse_value (Suc f) (json_ser gap ind (JBool b) @ r) = Some (JBool b, r)" for f r gap ind
    by (cases b) (simp_all add: jws_head json_ws_char_def)
  then show ?case unfolding rt_def by (metis less_imp_Suc_add)
next
  case (JStr s)
  have "parse_value (Suc f) (json_ser gap ind (JStr s) @ r) = Some (JStr s, r)" for f r gap ind
    by (simp add: jws_head json_ws_char_def json_quote_def parse_str_quote)
  then show ?case unfolding rt_def by (metis less_imp_Suc_add)
next
  case (JNum m e)
  show ?case unfolding rt_def
  proof (intro allI impI)
    fix gap ind f r
    assume st: "stop r" and len: "length (json_ser gap ind (JNum m e)) < f"
    obtain f' where f: "f = Suc f'" using len by (cases f) auto
    obtain c t where ct: "num_str m e = c # t" "is_digit c \<or> c = CHR ''-''" using num_str_head by blast
    have pn: "parse_number (num_str m e @ r) = Some (JNum m e, r)"
      using JNum.prems st by (intro parse_number_int) simp_all
    have nc: "\<not> json_ws_char c \<and> c \<noteq> CHR ''{'' \<and> c \<noteq> CHR ''['' \<and> c \<noteq> dq \<and> c \<noteq> CHR ''t''
        \<and> c \<noteq> CHR ''f'' \<and> c \<noteq> CHR ''n''"
      using ct(2) by (auto simp: json_ws_char_def is_digit_def)
    show "parse_value f (json_ser gap ind (JNum m e) @ r) = Some (JNum m e, r)"
      using ct(1) pn f nc by (simp add: jws_head)
  qed
next
  case (JArr xs)
  have all: "\<forall>y \<in> set xs. rt y \<and> wf_jval y \<and> ints y" using JArr by (simp add: list_all_iff)
  show ?case unfolding rt_def
  proof (intro allI impI)
    fix gap ind f r
    assume g: "ws_str gap" and i: "ws_str ind" and st: "stop r" and len: "length (json_ser gap ind (JArr xs)) < f"
    obtain f' where f: "f = Suc f'" using len by (cases f) auto
    show "parse_value f (json_ser gap ind (JArr xs) @ r) = Some (JArr xs, r)"
    proof (cases xs)
      case Nil
      then show ?thesis using f by (simp add: jws_head json_ws_char_def)
    next
      case (Cons x xs')
      let ?G = "ind @ gap"
      have wG: "ws_str (lw gap ?G)" "ws_str (lw gap ind)" using g i by (simp_all add: ws_lw)
      have el: "parse_elems f' [] (lw gap ?G @ json_ser gap ?G x @
                 concat (map (\<lambda>y. CHR '','' # lw gap ?G @ json_ser gap ?G y) xs') @ lw gap ind @ CHR '']'' # r)
              = Some (JArr ([] @ x # xs'), r)"
        using elems_rt [of x xs' "lw gap ?G" "lw gap ?G" "lw gap ind" gap ?G f' "[]" r] all Cons wG g i len f
        by (simp add: join_with_Cons_map)
      obtain c t where ct: "json_ser gap ?G x @ concat (map (\<lambda>y. CHR '','' # lw gap ?G @ json_ser gap ?G y) xs') @
                 lw gap ind @ CHR '']'' # r = c # t" "c \<noteq> CHR '']''" "\<not> json_ws_char c"
        using ser_head [of gap ?G x] by auto
      have "jws (lw gap ?G @ json_ser gap ?G x @ concat (map (\<lambda>y. CHR '','' # lw gap ?G @ json_ser gap ?G y) xs') @
                 lw gap ind @ CHR '']'' # r) = c # t"
        using ct wG by (simp add: jws_ws jws_head)
      then show ?thesis using el Cons f ct by (simp add: join_with_Cons_map jws_head json_ws_char_def)
    qed
  qed
next
  case (JObj kvs)
  have all: "\<forall>kv \<in> set kvs. rt (snd kv) \<and> wf_jval (snd kv) \<and> ints (snd kv)"
  proof
    fix kv assume kv: "kv \<in> set kvs"
    then have "wf_jval (snd kv) \<and> ints (snd kv)" using JObj.prems by (simp add: list_all_iff)
    moreover have "snd kv \<in> Basic_BNFs.snds kv" by (cases kv) simp
    ultimately show "rt (snd kv) \<and> wf_jval (snd kv) \<and> ints (snd kv)" using JObj.IH kv by blast
  qed
  have dist: "distinct (map fst kvs)" using JObj.prems by simp
  show ?case unfolding rt_def
  proof (intro allI impI)
    fix gap ind f r
    assume g: "ws_str gap" and i: "ws_str ind" and st: "stop r" and len: "length (json_ser gap ind (JObj kvs)) < f"
    obtain f' where f: "f = Suc f'" using len by (cases f) auto
    show "parse_value f (json_ser gap ind (JObj kvs) @ r) = Some (JObj kvs, r)"
    proof (cases kvs)
      case Nil
      then show ?thesis using f by (simp add: jws_head json_ws_char_def)
    next
      case (Cons p kvs')
      let ?G = "ind @ gap"
      define C where "C = (if gap = [] then [] else '' '')"
      define M where "M = (\<lambda>kv. json_quote (fst kv) @ CHR '':'' # C @ json_ser gap ?G (snd kv))"
      let ?X = "concat (map (\<lambda>kv. CHR '','' # lw gap ?G @ M kv) kvs') @ lw gap ind @ CHR ''}'' # r"
      have "json_ser gap ind (JObj kvs) = ''{'' @ lw gap ?G @ join_with (CHR '','' # lw gap ?G) (map M kvs) @
               lw gap ind @ ''}''"
        using Cons by (simp add: M_def C_def)
      then have ser: "json_ser gap ind (JObj kvs) @ r = CHR ''{'' # lw gap ?G @ M p @ ?X"
        using Cons by (simp add: join_with_Cons_map)
      have wG: "ws_str (lw gap ?G)" "ws_str (lw gap ind)" "ws_str C" using g i
        by (simp_all add: ws_lw) (simp add: C_def ws_str_def json_ws_char_def)
      have mem: "parse_members f' [] (lw gap ?G @ M p @ ?X) = Some (JObj kvs, r)"
        using members_rt [of p kvs' "[]" "lw gap ?G" "lw gap ?G" C "lw gap ind" gap ?G f' r] all dist Cons wG g i
          len f ser by (simp add: M_def)
      obtain t where t: "M p = dq # t" by (simp add: M_def json_quote_def)
      have "jws (lw gap ?G @ M p @ ?X) = dq # t @ ?X"
        using wG t by (simp add: jws_ws jws_head json_ws_char_def)
      then show ?thesis using mem ser f by (simp add: jws_head json_ws_char_def)
    qed
  qed
qed

lemma json_ser_compact: "json_ser [] ind v = json_stringify v"
proof (induction v arbitrary: ind)
  case (JArr xs)
  then show ?case by (simp add: lw_def cong: map_cong)
next
  case (JObj kvs)
  have "map (\<lambda>kv. json_quote (fst kv) @ CHR '':'' # json_ser [] ind (snd kv)) kvs =
        map (\<lambda>kv. json_quote (fst kv) @ CHR '':'' # json_stringify (snd kv)) kvs" for ind
    using JObj by (auto intro!: map_cong simp: prod_set_simps)
  from this [of ind] show ?case by (simp add: lw_def del: map_eq_conv)
qed simp_all

lemma JSON_parse_rt: "rt v \<Longrightarrow> ws_str gap \<Longrightarrow> JSON_parse (json_ser gap [] v) = Some v"
proof -
  assume "rt v" "ws_str gap"
  then have "parse_value (2 * length (json_ser gap [] v) + 2) (json_ser gap [] v @ []) = Some (v, [])"
    unfolding rt_def by (simp add: stop_def ws_str_def del: parse_value.simps)
  then show ?thesis by (simp add: JSON_parse_def jws_def del: parse_value.simps)
qed

text \<open>What \<open>JSON.stringify(v, null, gap)\<close> writes, \<open>JSON.parse\<close> reads back as
  \<open>v\<close>: for every well-formed value whose numbers are integers of at most 21 digits
  and every whitespace gap. The editor's export files are read by its import.\<close>

theorem json_ser_roundtrip:
  assumes "wf_jval v" "ints v" "ws_str gap"
  shows "JSON_parse (json_ser gap [] v) = Some v"
  using JSON_parse_rt [OF rt_all [OF assms(1,2)] assms(3)] .

theorem json_ser_roundtrip_witness:
  "wf_jval (JObj [(''a'', JArr [JNum 12 0, JStr ''x\"'']), (''b'', JBool True)]) \<and>
   ints (JObj [(''a'', JArr [JNum 12 0, JStr ''x\"'']), (''b'', JBool True)]) \<and> ws_str ''  '' \<and>
   JSON_parse (json_ser ''  '' [] (JObj [(''a'', JArr [JNum 12 0, JStr ''x\"'']), (''b'', JBool True)])) =
     Some (JObj [(''a'', JArr [JNum 12 0, JStr ''x\"'']), (''b'', JBool True)])"
proof -
  have h: "wf_jval (JObj [(''a'', JArr [JNum 12 0, JStr ''x\"'']), (''b'', JBool True)]) \<and>
     ints (JObj [(''a'', JArr [JNum 12 0, JStr ''x\"'']), (''b'', JBool True)]) \<and> ws_str ''  ''"
    by code_simp
  then show ?thesis using json_ser_roundtrip by blast
qed

end
