(* ===== verification/EditorIO.thy ===== *)
theory EditorIO
  imports JsonRoundtrip Settings
begin

text \<open>
  The per-character export and import of the template editor (\<open>openEditor\<close>,
  \<open>src/template-editor.js\<close> lines 1369--1442). The dialog opens on the current
  configuration (\<open>open_form\<close>); the export button writes the five settings as
  \<open>JSON.stringify(data, null, 2)\<close> (\<open>export_data\<close>, \<open>export_file\<close>); the import reads
  a file back into the dialog's fields with \<open>JSON.parse\<close> and \<open>||\<close> defaults
  (\<open>import_file\<close>). The count goes through \<open>parseInt\<close> (\<open>js_parseInt\<close>). The
  download and the \<open>FileReader\<close> are file I/O: a file is its text. \<open>updateStatus\<close>
  (lines 1348--1367), the status line beside the editor button, is the status it shows.
\<close>

text \<open>The fields of the editor dialog, as \<open>.val()\<close> and \<open>.prop('checked')\<close> read
  them: the template and pattern text areas, the two check boxes and the text of the
  count field.\<close>

record editor_form =
  f_template :: string
  f_regex :: string
  f_limit :: bool
  f_count :: string
  f_skip :: bool

text \<open>\<open>openEditor\<close>, lines 1379--1386: the dialog filled from \<open>getCurrentChar()\<close>;
  \<open>.val(n)\<close> writes the number as its decimal text.\<close>

definition open_form :: "char_settings \<Rightarrow> editor_form" where
  "open_form cs =
     \<lparr>f_template = cs_template cs,
      f_regex = (case cs_regex cs of Some r \<Rightarrow> if r = [] then default_pattern else r | None \<Rightarrow> default_pattern),
      f_limit = cs_limit cs,
      f_count = int_str (case cs_recent cs of Some n \<Rightarrow> if n = 0 then 5 else n | None \<Rightarrow> 5),
      f_skip = cs_skip_first cs\<rparr>"

text \<open>\<open>parseInt(s)\<close> with no radix (ECMA-262 19.2.5): leading white space, an
  optional sign, a \<open>0x\<close> prefix for hexadecimal, then the longest run of digits; no
  digit is \<open>NaN\<close> (\<open>None\<close>). The value is exact (the counts here are far below
  \<open>2 ^ 53\<close>).\<close>

definition hex_str_val :: "string \<Rightarrow> nat" where
  "hex_str_val s = foldl (\<lambda>n c. 16 * n + hex_val c) 0 s"

definition js_parseInt :: "string \<Rightarrow> int option" where
  "js_parseInt s =
     (let t = trim_start s;
          neg = (t \<noteq> [] \<and> hd t = CHR ''-'');
          u = (if t \<noteq> [] \<and> (hd t = CHR ''-'' \<or> hd t = CHR ''+'') then tl t else t);
          hex = (take 2 u = ''0x'' \<or> take 2 u = ''0X'');
          ds = (if hex then takeWhile is_hex (drop 2 u) else takeWhile is_digit u);
          v = int (if hex then hex_str_val ds else digits_val ds)
      in if ds = [] then None else Some (if neg then - v else v))"

text \<open>\<open>parseInt(String($count.val())) || 5\<close> (lines 1393 and 1435): \<open>NaN\<close> and
  \<open>0\<close> are falsy.\<close>

definition count_or_5 :: "string \<Rightarrow> int" where
  "count_or_5 s = (case js_parseInt s of Some n \<Rightarrow> if n = 0 then 5 else n | None \<Rightarrow> 5)"

text \<open>The object the export button builds, lines 1389--1395: \<open>|| ''\<close> and
  \<open>|| DEFAULT_CHAR_SETTINGS.customRegex\<close> replace an empty text.\<close>

definition export_data :: "editor_form \<Rightarrow> jval" where
  "export_data f =
     JObj [(''template'', JStr (f_template f)),
           (''customRegex'', JStr (if f_regex f = [] then default_pattern else f_regex f)),
           (''limitToRecentMessages'', JBool (f_limit f)),
           (''recentMessageCount'', mk_num (count_or_5 (f_count f)) 0),
           (''skipFirstMessage'', JBool (f_skip f))]"

text \<open>The file the export writes, \<open>JSON.stringify(data, null, 2)\<close> (line 1397).\<close>

definition export_file :: "editor_form \<Rightarrow> string" where
  "export_file f = json_ser ''  '' [] (export_data f)"

text \<open>\<open>data.k || d\<close>: the property if it is truthy, else the default. The keys the
  import reads are no built-in method names, so \<open>Builtin\<close> does not arise there.\<close>

definition js_or :: "jprop \<Rightarrow> jval \<Rightarrow> jval" where
  "js_or p d = (case p of Own v \<Rightarrow> if truthy v then v else d | _ \<Rightarrow> d)"

text \<open>The \<open>onload\<close> handler of the import, lines 1409--1422: \<open>JSON.parse\<close> of the
  file's text, then the five fields from the parsed value. \<open>None\<close> is the \<open>catch\<close>
  branch (the error toast, the dialog unchanged): a text that is no JSON, or the
  value \<open>null\<close>, on which \<open>data.template\<close> throws. \<open>.val(v)\<close> writes \<open>String(v)\<close>, and
  \<open>.prop('checked', v)\<close> the truthiness of \<open>v\<close>.\<close>

definition import_file :: "string \<Rightarrow> editor_form option" where
  "import_file s =
     (case JSON_parse s of
        None \<Rightarrow> None
      | Some JNull \<Rightarrow> None
      | Some data \<Rightarrow> Some
          \<lparr>f_template = js_string (js_or (js_get data ''template'') (JStr [])),
           f_regex = js_string (js_or (js_get data ''customRegex'') (JStr default_pattern)),
           f_limit = truthy (js_or (js_get data ''limitToRecentMessages'') (JBool False)),
           f_count = js_string (js_or (js_get data ''recentMessageCount'') (mk_num 5 0)),
           f_skip = truthy (js_or (js_get data ''skipFirstMessage'') (JBool False))\<rparr>)"

text \<open>\<open>updateStatus()\<close>, lines 1348--1367: the line under the editor button. The
  element may be absent (\<open>None\<close>); \<open>name\<close> is \<open>characters[this_chid].name\<close>. The
  three texts are \<open>"please select a character"\<close>, \<open>"NAME - template enabled"\<close> and
  \<open>"NAME - no template set"\<close> (in Chinese in the code).\<close>

datatype status = StNoCharacter | StEnabled string | StNoTemplate string

definition updateStatus :: "bool \<Rightarrow> string \<Rightarrow> 'a tsettings_scheme \<Rightarrow> status option" where
  "updateStatus present name st =
     (if \<not> present then None
      else if ts_char st = None then Some StNoCharacter
      else let cs = getCurrentChar st
           in Some (if cs_enabled cs \<and> cs_template cs \<noteq> [] then StEnabled name else StNoTemplate name))"

text \<open>The form as an import of its own export leaves it: the default pattern for
  an empty one, and the count as the number the export wrote.\<close>

definition normal_form :: "editor_form \<Rightarrow> editor_form" where
  "normal_form f =
     f\<lparr>f_regex := (if f_regex f = [] then default_pattern else f_regex f),
       f_count := int_str (count_or_5 (f_count f))\<rparr>"

section \<open>Lemmas\<close>

lemma norm_num_int:
  "n \<noteq> 0 \<Longrightarrow> norm_num n e0 = (m, e) \<Longrightarrow> e0 \<le> e \<and> n = m * 10 ^ nat (e - e0) \<and> m \<noteq> 0"
proof (induction n e0 rule: norm_num.induct)
  case (1 n e0)
  show ?case
  proof (cases "n mod 10 = 0")
    case True
    then have "n div 10 \<noteq> 0" using "1.prems"(1) by auto
    moreover have "norm_num (n div 10) (e0 + 1) = (m, e)"
      using "1.prems" True by (simp add: norm_num.simps [of n])
    ultimately have ih: "e0 + 1 \<le> e \<and> n div 10 = m * 10 ^ nat (e - (e0 + 1)) \<and> m \<noteq> 0"
      using "1.IH" "1.prems"(1) True by blast
    then have "nat (e - e0) = Suc (nat (e - (e0 + 1)))" by arith
    moreover have "n = n div 10 * 10" using True by (metis div_mult_mod_eq add.right_neutral)
    ultimately show ?thesis using ih by (simp add: mult_ac)
  next
    case False
    then show ?thesis using "1.prems" by (simp add: norm_num.simps [of n])
  qed
qed

lemma nat_str_times10: "0 < x \<Longrightarrow> nat_str (x * 10) = nat_str x @ ''0''"
  by (subst nat_str.simps) (simp add: digit_chars_def)

lemma nat_str_pow: "0 < x \<Longrightarrow> nat_str (x * 10 ^ k) = nat_str x @ replicate k CHR ''0''"
proof (induction k)
  case (Suc k)
  have "nat_str (x * 10 ^ Suc k) = nat_str (x * 10 ^ k * 10)" by (simp add: mult_ac)
  also have "\<dots> = nat_str x @ replicate k CHR ''0'' @ ''0''" using Suc nat_str_times10 [of "x * 10 ^ k"] by simp
  finally show ?case by (simp add: replicate_append_same)
qed simp

lemma length_nat_str_le: "x < 10 ^ k \<Longrightarrow> 0 < k \<Longrightarrow> length (nat_str x) \<le> k"
proof (induction x arbitrary: k rule: nat_str.induct)
  case (1 x)
  show ?case
  proof (cases "x < 10")
    case True
    then show ?thesis using "1.prems" by (simp add: nat_str.simps)
  next
    case False
    then obtain k' where k: "k = Suc k'" using "1.prems" by (cases k) auto
    have "x div 10 < 10 ^ k'" using "1.prems"(1) k by (simp add: less_mult_imp_div_less mult.commute)
    moreover have "0 < k'" using False "1.prems"(1) k by (cases k') auto
    ultimately have "length (nat_str (x div 10)) \<le> k'" using "1.IH" False by blast
    then show ?thesis using False k by (simp add: nat_str.simps [of x])
  qed
qed

lemma mk_num_int:
  assumes "\<bar>n\<bar> < 10 ^ 21"
  shows "\<exists>m e. mk_num n 0 = JNum m e \<and> int_num m e \<and> num_str m e = int_str n \<and> (m = 0 \<longleftrightarrow> n = 0)"
proof (cases "n = 0")
  case True
  then show ?thesis by (simp add: mk_num_def norm_num.simps int_num_def num_str_def int_str_def nat_str.simps digit_chars_def)
next
  case False
  obtain m e where me: "norm_num n 0 = (m, e)" by fastforce
  with False norm_num_int have e: "0 \<le> e" "n = m * 10 ^ nat e" "m \<noteq> 0" by fastforce+
  then have nn: "nat \<bar>n\<bar> = nat \<bar>m\<bar> * 10 ^ nat e" by (simp add: abs_mult nat_mult_distrib nat_power_eq)
  then have d: "nat_str (nat \<bar>n\<bar>) = nat_str (nat \<bar>m\<bar>) @ replicate (nat e) CHR ''0''"
    using e(3) nat_str_pow [of "nat \<bar>m\<bar>" "nat e"] by simp
  have "nat \<bar>n\<bar> < 10 ^ 21" using assms by (simp add: nat_less_iff)
  then have "length (nat_str (nat \<bar>n\<bar>)) \<le> 21" by (rule length_nat_str_le) simp
  then have len: "int (length (nat_str (nat \<bar>m\<bar>))) + e \<le> 21" using d e(1) by simp
  have sgn: "m < 0 \<longleftrightarrow> n < 0" using e(2,3) by (simp add: mult_less_0_iff)
  have "num_str m e = int_str n"
    using e(1,3) len d sgn by (auto simp: num_str_def int_str_def Let_def nat_minus_as_int)
  then show ?thesis using me e(1,3) len False by (simp add: mk_num_def int_num_def)
qed

lemma nat_str_digits: "nat_str k \<noteq> [] \<and> list_all is_digit (nat_str k)"
  using digits_val_nat_str [of k] by (simp add: all_digits_def)

lemma parseInt_digits:
  assumes "list_all is_digit d" "d \<noteq> []" "rest = [] \<or> \<not> is_digit (hd rest)" "hd d \<noteq> CHR ''0'' \<or> rest = []"
  shows "js_parseInt (d @ rest) = Some (int (digits_val d)) \<and>
         js_parseInt (CHR ''-'' # d @ rest) = Some (- int (digits_val d))"
proof -
  obtain c t where ct: "d = c # t" using assms(2) by (cases d) auto
  have c: "is_digit c" "list_all is_digit t" using assms(1) ct by simp_all
  then have nc: "\<not> is_ws c \<and> c \<noteq> CHR ''-'' \<and> c \<noteq> CHR ''+''" by (auto simp: is_digit_def is_ws_def)
  have nx: "take 2 (d @ rest) \<noteq> ''0x'' \<and> take 2 (d @ rest) \<noteq> ''0X''"
    using ct c assms(4) by (cases t) (auto simp: is_digit_def)
  have "takeWhile is_digit rest = []" using assms(3) by (cases rest) auto
  then have tw: "takeWhile is_digit (d @ rest) = d" using assms(1) by (simp add: list_all_iff takeWhile_append2)
  have tr: "trim_start (d @ rest) = d @ rest" "trim_start (CHR ''-'' # d @ rest) = CHR ''-'' # d @ rest"
    "hd (d @ rest) \<noteq> CHR ''-''" "hd (d @ rest) \<noteq> CHR ''+''"
    using ct nc by (simp_all add: trim_start_def is_ws_def)
  show ?thesis using tr nx assms(2) by (simp add: js_parseInt_def Let_def tw)
qed

lemma parseInt_int_str: "js_parseInt (int_str n) = Some n"
  using parseInt_digits [of "nat_str (nat (- n))" "[]"] parseInt_digits [of "nat_str (nat n)" "[]"]
    nat_str_digits digits_val_nat_str by (simp add: int_str_def)

lemma count_or_5_int_str: "count_or_5 (int_str n) = (if n = 0 then 5 else n)"
  by (simp add: count_or_5_def parseInt_int_str)

lemma count_or_5_nz: "count_or_5 s \<noteq> 0"
  by (simp add: count_or_5_def split: option.split)

lemma default_pattern_nonempty: "default_pattern \<noteq> []"
  by (simp add: default_pattern_def)

lemma js_or_own: "js_string (js_or (Own (JStr t)) (JStr [])) = t"
  "truthy (js_or (Own (JBool b)) (JBool False)) = b"
  "t \<noteq> [] \<Longrightarrow> js_or (Own (JStr t)) d = JStr t"
  "truthy v \<Longrightarrow> js_or (Own v) d = v"
  by (simp_all add: js_or_def)

lemma export_int:
  assumes "\<bar>count_or_5 (f_count f)\<bar> < 10 ^ 21"
  obtains m e where "mk_num (count_or_5 (f_count f)) 0 = JNum m e" "wf_jval (export_data f)" "ints (export_data f)"
    "num_str m e = int_str (count_or_5 (f_count f))" "m \<noteq> 0"
proof -
  obtain m e where me: "mk_num (count_or_5 (f_count f)) 0 = JNum m e" "int_num m e"
    "num_str m e = int_str (count_or_5 (f_count f))" "m = 0 \<longleftrightarrow> count_or_5 (f_count f) = 0"
    using mk_num_int [OF assms] by blast
  moreover have "wf_jval (export_data f)" by (simp add: export_data_def)
  moreover have "ints (export_data f)" using me(1,2) by (simp add: export_data_def)
  ultimately show ?thesis using that count_or_5_nz by blast
qed

lemma export_normal: "export_file (normal_form f) = export_file f"
  using count_or_5_nz [of "f_count f"]
  by (simp add: export_file_def export_data_def normal_form_def count_or_5_int_str)

text \<open>\<open>parseInt\<close> takes a sign and a \<open>0x\<close> prefix: the count field accepts a negative
  count and a hexadecimal one, and the export writes them as such.\<close>

lemma count_or_5_examples: "count_or_5 '' -3'' = -3 \<and> count_or_5 ''0x10'' = 16 \<and> count_or_5 ''0'' = 5 \<and> count_or_5 ''5 messages'' = 5"
  by code_simp

text \<open>The status line agrees with the renderer: when it says the template is enabled,
  \<open>getCharTemplate\<close>'s precedence rule finds a configuration for the current avatar
  (while the module is on). The converse fails: an enabled configuration with an empty
  template renders, yet the line says no template is set.\<close>

lemma status_enabled_renders:
  assumes "updateStatus True name st = Some (StEnabled name)" "ts_char st = Some (av, e)" "av \<noteq> []" "isEnabled st"
  shows "char_template_spec (Some av) st \<noteq> None"
  using assms
  by (auto simp: updateStatus_def getCurrentChar_def char_template_spec_def char_template_fresh_def
      spread_def DEFAULT_CHAR_SETTINGS_def Let_def split: option.splits if_splits)

lemma status_not_set_but_renders:
  "ts_char st = Some (av, Some e) \<Longrightarrow> cs_enabled e \<Longrightarrow> cs_template e = [] \<Longrightarrow> av \<noteq> [] \<Longrightarrow> isEnabled st \<Longrightarrow>
   updateStatus True name st = Some (StNoTemplate name) \<and> char_template_spec (Some av) st = Some e"
  by (simp add: updateStatus_def getCurrentChar_def char_template_spec_def char_template_fresh_def)

text \<open>C13: A file the editor exports, its import reads back into the dialog: the same
  template, flags and pattern (the default one for an empty pattern) and the count the
  export wrote, so that exporting again writes the same file. The count is below
  \<open>10 ^ 21\<close>, beyond which \<open>Number::toString\<close> switches to exponent notation.\<close>

theorem export_import:
  assumes "\<bar>count_or_5 (f_count f)\<bar> < 10 ^ 21"
  shows "import_file (export_file f) = Some (normal_form f) \<and> export_file (normal_form f) = export_file f"
proof -
  obtain m e where me: "mk_num (count_or_5 (f_count f)) 0 = JNum m e" "wf_jval (export_data f)"
    "ints (export_data f)" "num_str m e = int_str (count_or_5 (f_count f))" "m \<noteq> 0"
    using export_int [OF assms] by blast
  have "JSON_parse (export_file f) = Some (export_data f)"
    unfolding export_file_def using JSON_parse_rt [OF rt_all [OF me(2,3)]] by (simp add: ws_str_def json_ws_char_def)
  then show ?thesis using me(1,4,5) default_pattern_nonempty export_normal
    by (simp add: import_file_def export_data_def js_get_def js_or_own normal_form_def)
qed

theorem export_import_witness:
  "\<bar>count_or_5 ''0x10''\<bar> < 10 ^ 21 \<and>
   import_file (export_file \<lparr>f_template = ''<b>[x]</b>'', f_regex = [], f_limit = True, f_count = ''0x10'', f_skip = False\<rparr>) =
     Some \<lparr>f_template = ''<b>[x]</b>'', f_regex = default_pattern, f_limit = True, f_count = ''16'', f_skip = False\<rparr>"
proof -
  have c: "\<bar>count_or_5 ''0x10''\<bar> < 10 ^ 21" "count_or_5 ''0x10'' = 16" "int_str 16 = ''16''" by code_simp+
  then show ?thesis
    using export_import [of "\<lparr>f_template = ''<b>[x]</b>'', f_regex = [], f_limit = True, f_count = ''0x10'', f_skip = False\<rparr>"]
    by (simp add: normal_form_def)
qed
text \<open>C34: The count field is read by \<open>parseInt\<close>: a non-zero integer followed by
  anything that is not a digit counts as that integer, sign included, so the dialog
  accepts and saves a negative count and ignores trailing text.\<close>

theorem count_or_5_prefix:
  assumes "n \<noteq> 0" "rest = [] \<or> \<not> is_digit (hd rest)"
  shows "count_or_5 (int_str n @ rest) = n"
proof -
  have "0 < nat \<bar>n\<bar>" using assms(1) by simp
  then have "nat_str (nat \<bar>n\<bar>) \<noteq> [] \<and> hd (nat_str (nat \<bar>n\<bar>)) \<noteq> CHR ''0''" by (rule nat_str_lead)
  then show ?thesis
    using parseInt_digits [of "nat_str (nat \<bar>n\<bar>)" rest] nat_str_digits digits_val_nat_str assms
    by (cases "n < 0") (simp_all add: count_or_5_def int_str_def)
qed

theorem count_or_5_prefix_witness:
  "(-3::int) \<noteq> 0 \<and> ('' rows'' = [] \<or> \<not> is_digit (hd '' rows'')) \<and> count_or_5 (int_str (-3) @ '' rows'') = -3"
proof -
  have h: "(-3::int) \<noteq> 0" "'' rows'' = [] \<or> \<not> is_digit (hd '' rows'')" by (simp_all add: is_digit_def)
  show ?thesis using h count_or_5_prefix [OF h] by blast
qed

end
