(* ===== verification/Spec2Isabelle.thy ===== *)
theory Spec2Isabelle
  imports Events Channel Host PartialYaml EditorIO
begin

text \<open>
  \<^bold>\<open>A verification development of the template engine of LittleWhiteBox.\<close>

  The repository is a browser extension for a chat host. Its core, in
  \<open>src/template-editor.js\<close>, extracts named variables from model output
  (\<open>TemplateProcessor.extractVars\<close> and its parsers), substitutes them into a
  per-character template (\<open>replaceVars\<close>), renders the result inline or in an embedded
  document (\<open>IframeManager\<close>), and keeps per-message state in step with the host's
  message lifecycle (\<open>MessageHandler\<close>, the \<open>innerHTML\<close> interceptor, the event
  handlers and the enable toggles). The configuration comes from \<open>TemplateSettings\<close>.
  \<open>src/index.js\<close> holds the extension shell: it renders HTML code blocks of
  messages in frames of their own, answers the frames' command requests, and switches
  every feature on and off with a registry of the listeners, timers and module cleanups
  it installed.

  \<^bold>\<open>Theories\<close>, in import order; each opens with a text saying what it models.
  \<^item> \<open>Prelude\<close>: the JavaScript string primitives (\<open>trim\<close>, \<open>split\<close>, \<open>join\<close>,
    \<open>startsWith\<close>, \<open>includes\<close>, \<open>indexOf\<close>, first-occurrence \<open>replace\<close>), the
    regular-expression character classes, digit strings, and the shared list lemmas.
  \<^item> \<open>JsValue\<close>: JavaScript values (\<open>jval\<close>), \<open>String\<close>, \<open>JSON.stringify\<close>,
    objects as insertion-ordered association lists with \<open>obj_set\<close> and
    \<open>obj_assign\<close> (\<open>Object.assign\<close>), property lookup with inherited built-ins.
  \<^item> \<open>History\<close>: \<open>MessageHandler.updateHistory\<close> (lines 1107--1118). Its
    \<open>!==\<close> compares objects by identity, which values do not carry; since every
    extraction allocates new arrays and objects, \<open>same_value_fresh\<close> takes scalars
    as equal by value and arrays and objects as never equal.
  \<^item> \<open>Render\<close>: \<open>replaceVars\<close> (797--814) as the scan of a global
    \<open>String.replace\<close>, with a token-level specification and its round trip.
  \<^item> \<open>Json\<close>: the platform's \<open>JSON.parse\<close> (from the standard), with fuel, and the
    well-formedness of what it returns.
  \<^item> \<open>JsonRoundtrip\<close>: \<open>JSON.stringify(v, null, gap)\<close> with indentation, and the
    proof that \<open>JSON.parse\<close> reads its output back.
  \<^item> \<open>PartialJson\<close>: \<open>parseJsonDirect\<close> and \<open>parsePartialJsonDirect\<close>
    (224--403): the line loop as a step on a record of its local variables.
  \<^item> \<open>Yaml\<close>: \<open>parseYamlDirect\<close>, \<open>parseMultilineString\<close>,
    \<open>parseNestedObject\<close>, \<open>parseArray\<close> (405--459, 517--541, 569--621, 677--727).
  \<^item> \<open>PartialYaml\<close>: the uncalled \<open>parsePartialYamlDirect\<close> and its helpers
    (461--515, 543--567, 623--675, 729--779), proved equivalent to \<open>Yaml\<close>'s.
  \<^item> \<open>Regex\<close>: the interface \<open>rx_exec\<close> of the RegExp engine, the global
    \<open>exec\<close> loop as a \<open>partial_function (option)\<close>, and the code's fixed patterns as
    scanners proved to meet the interface.
  \<^item> \<open>Extract\<close>: \<open>extractVars\<close> (115--133) and its seven strategies (105--222).
  \<^item> \<open>Settings\<close>: \<open>TemplateSettings\<close> (64--102) with the template cache; the
    recent-message count is an integer, as \<open>parseInt\<close> may save a negative one.
  \<^item> \<open>EditorIO\<close>: the editor dialog's per-character export and import (1379--1423):
    the dialog as a record of its fields, \<open>parseInt\<close> of the count, the exported
    file as \<open>JSON.stringify(data, null, 2)\<close> and the import as \<open>JSON.parse\<close> with
    \<open>||\<close> defaults; \<open>updateStatus\<close> (1348--1367) as the status it shows.
  \<^item> \<open>Iframe\<close>: \<open>createWrapper\<close>, \<open>writeContentToIframe\<close> (819--873) and the
    bridge's \<open>updateTemplateVariables\<close> (887--902).
  \<^item> \<open>Lifecycle\<close>: \<open>MessageHandler\<close> (1021--1222) and the interceptor (1224--1296)
    as functions on the record \<open>hstate\<close> of the host state.
  \<^item> \<open>Events\<close>: the event handlers (1298--1346), the toggles and \<open>cleanup\<close>
    (1486--1569); a click on the module's checkbox runs its \<open>input\<close> handler and then
    \<open>src/index.js\<close>'s \<open>change\<close> handler (840--849), which runs \<open>cleanup\<close> and
    \<open>initTemplateEditor\<close>'s timers again; \<open>checkEmbeddedTemplate\<close>, \<open>importGlobal\<close> and the editor's save;
    \<open>step\<close> runs one event and \<open>reach\<close> is the set of reachable states.
  \<^item> \<open>CodeBlocks\<close>: \<open>src/index.js\<close>'s \<open>shouldRenderContent\<close>,
    \<open>prepareHtmlContent\<close>, \<open>renderHtmlInIframe\<close> and \<open>processCodeBlocks\<close>
    (352--356, 525--581, 694--714) over a message text as the list of its children.
  \<^item> \<open>Channel\<close>: \<open>executeSlashCommand\<close> and \<open>handleIframeMessage\<close>
    (\<open>src/index.js\<close> 470--523) and the \<open>STscript\<close> listeners of both bridges
    (\<open>src/index.js\<close> 391--423, \<open>src/template-editor.js\<close> 912--930).
  \<^item> \<open>Host\<close>: the registries, \<open>cleanupAllResources\<close>, the settings snapshot,
    \<open>toggleAllFeatures\<close>, \<open>setupEventListeners\<close>, the checkbox handlers and the
    start-up of \<open>src/index.js\<close> (279--336, 583--726, 737--1068) as \<open>xstep\<close> on the
    record \<open>xstate\<close>, with \<open>xreach\<close> the states reachable from start-up.

  \<^bold>\<open>How the parts interact.\<close> An event (a host event, a timer firing, the host
  writing a message element) is one \<open>step\<close>. \<open>process\<close> and the interceptor look the
  configuration up with \<open>getCharTemplate\<close>, call \<open>extractVars\<close> with the RegExp the
  configuration names (\<open>regex_of\<close>), record the history, render with
  \<open>replaceVars\<close>, wrap an embedded document with \<open>createWrapper\<close>, and queue timers
  (\<open>task\<close>) whose later firing writes the frame's document, pushes the variables or
  processes a batch. The RegExp engine, \<open>substituteParams\<close>, the bridge script's text
  and \<open>requestIdleCallback\<close> are parameters (\<open>env\<close>); timer delays are not
  modelled, so timers fire in any order. In the shell, \<open>xstep\<close> dispatches a click, a
  rendered message, a chat switch or a timer; processing a message runs
  \<open>processCodeBlocks\<close>, whose frames carry the bridge of \<open>prepareHtmlContent\<close>;
  a frame's \<open>STscript\<close> (of either bridge) posts a request that
  \<open>handleIframeMessage\<close> answers, and the frame's listener settles on the reply
  with its id. \<open>executeSlashCommands\<close> and \<open>substituteParams\<close> of the host, the text of
  \<open>createIframeApi()\<close> and the optional event types are parameters.

  \<^bold>\<open>What the lemmas show.\<close> Extraction returns for the default grammar and never
  throws, and on any sequence of \<open>[key]value[/key]\<close> tags it assigns each trimmed key
  its trimmed value in order; the interleaved regex loop refines "collect all matches, then assign"; a custom
  expression can throw a \<open>TypeError\<close> or loop forever. The partial JSON parser keeps
  its loop invariant and recovers truncated flat objects;
  \<open>JSON.parse\<close> does not depend on its fuel and reads back what \<open>JSON.stringify\<close>
  writes, at any indentation, for values with integer numbers. The editor's import reads
  back its own export, normalising only the default pattern and the count, so a second
  export writes the same file; its count field is \<open>parseInt\<close> of the text, which
  accepts negative counts. The uncalled partial YAML reader equals the direct one up to
  returning \<open>{}\<close> for \<open>null\<close>. The YAML reader is total. The renderer's output is characterised
  by tokens, and rendering is compositional: literal text is copied and a placeholder of a
  string variable becomes its value in a \<open>bdi\<close> element, while an absent name renders
  empty unless it names a member of \<open>Object.prototype\<close>; the frame document is the
  content with the bridge inserted at the first \<open></body>\<close> or \<open></html>\<close>. Every reachable host state keeps histories within five entries
  and the streaming flags consistent; every event but the settings import keeps the
  template cache coherent, so the cached lookup refines the precedence rule;
  \<open>reapplyAll\<close> selects exactly the configured messages in the recent window. The
  findings of the manifest are theorems too: an open object member absorbing every
  later brace-free line (a lone \<open>}\<close> is skipped), block sequences lost in YAML, a
  negative recent-message count clearing every message, the first message's own rendering dropped by the interceptor, a stale
  template cache after an import, a lost streaming poll after a toggle, histories kept
  across a chat switch, and a \<open>TypeError\<close> from a configuration without
  \<open>customRegex\<close>. In the shell: processing code blocks is idempotent and keeps at
  most one frame wrapper in a message, but the
  second HTML block of a message removes the first one's frame; a full document without \<open></head>\<close> gets no bridge; the
  command channel round trip settles exactly the call with the reply's id with
  \<open>executeSlashCommand\<close>'s outcome, which rejects exactly when the host's command
  runner is missing or rejects, and an empty command resolves instead of rejecting; every reachable shell state has its listeners installed once each exactly
  while enabled; switching off and on loses the 5-second re-render poll for good, and
  leaves the sandbox and memory settings false while their checkboxes show them on.

  \<^bold>\<open>Bounds and fuel.\<close> \<open>JSON_parse\<close> runs with fuel \<open>2 * length s + 2\<close>: every
  call consumes input or passes to one that does (\<open>parse_value_fuel\<close>,
  \<open>JSON_parse_fuel\<close>). The YAML loops run with fuel \<open>length lines + 1\<close>: each
  iteration spends one unit and never moves the index back (\<open>top_loop_total\<close>).
  The \<open>exec\<close> loops carry no fuel: they are partial functions whose divergence is a
  value; they are total for the code's own patterns (\<open>exec_all_total\<close>).
  The editor's round trip assumes a count below \<open>10 ^ 21\<close>: up to there
  \<open>Number::toString\<close> prints an integer as its digits, which is what \<open>ints\<close> asks of
  the values of the JSON round trip.

  \<^bold>\<open>Not modelled.\<close> The bridges' resize
  reporting (\<open>STBridge.updateHeight\<close>, its observers, lines 876--886 and 932--939 of
  \<open>src/template-editor.js\<close>, 381--389 and 425--466 of \<open>src/index.js\<close>), the
  command timeout and \<open>waitForIframe\<close>'s polling; the popup of the editor dialog,
  the download and the \<open>FileReader\<close> (a file is its text), \<open>updateStatus\<close> and
  other DOM and file I/O; \<open>exportGlobal\<close> (1445--1448), which writes the whole
  extension settings object, of which the model holds two keys, and the decoding of
  an imported settings file, which \<open>importGlobal\<close> takes already decoded; the DOM cache of
  \<open>state.getElement\<close>; timers' real durations; the RegExp engine itself (an
  interface, instantiated for the code's fixed patterns); in \<open>src/index.js\<close>, the
  extension update check (63--277, network and DOM), \<open>waitForElement\<close>,
  \<open>setupMenuTabs\<close>, the memory-depth field, the statistics tracker and the module
  initialisers, which live in files outside the sources; the event handlers that
  \<open>initTemplateEditor\<close> registers again each time the module's checkbox is turned on; IEEE double rounding beyond fifteen significant
  digits, non-ASCII whitespace, the engine's ordering of integer-like object keys and
  the \<open>__proto__\<close> setter.
\<close>

end
